theory Spec2Isabelle
  imports Main "HOL-Library.Word"
begin

unbundle bit_operations_syntax

section \<open>Home-on-demand support: an embedding of \<^verbatim>\<open>src/mkhome.c\<close>\<close>

text \<open>
  The five functions of the file (\<^verbatim>\<open>create_dir\<close>, \<^verbatim>\<open>create_path\<close>, \<^verbatim>\<open>copy_file\<close>,
  \<^verbatim>\<open>copy_symlink\<close>, \<^verbatim>\<open>copy_dir\<close>) and its entry point \<^verbatim>\<open>create_home\<close> are
  translated statement by statement.  Everything they call lives outside the file (the
  FSIO layer, the C library, the privilege macros, the logger); those primitives are
  modelled once, below, over an explicit world: a file table, the process umask, the
  privilege flag, a schedule of injected failures and the trace of calls made so far.
  C strings are \<open>string\<close> (NUL-free by convention), \<^verbatim>\<open>int\<close> results are \<open>int\<close>, and
  \<^verbatim>\<open>mode_t\<close>, \<^verbatim>\<open>uid_t\<close>, \<^verbatim>\<open>gid_t\<close> are 32-bit words.
\<close>

subsection \<open>C types and header constants\<close>

type_synonym mode_t = "32 word"
type_synonym uid_t = "32 word"
type_synonym gid_t = "32 word"

text \<open>The \<^verbatim>\<open><sys/stat.h>\<close> and \<^verbatim>\<open><fcntl.h>\<close> values (octal 0170000, 0040000, 0100000,
  0120000, 04000, 02000; 0, 01, 0100, 0200), written in hexadecimal.\<close>

definition S_IFMT :: mode_t where "S_IFMT = 0xF000"
definition S_IFDIR :: mode_t where "S_IFDIR = 0x4000"
definition S_IFREG :: mode_t where "S_IFREG = 0x8000"
definition S_IFLNK :: mode_t where "S_IFLNK = 0xA000"
definition S_ISUID :: mode_t where "S_ISUID = 0x800"
definition S_ISGID :: mode_t where "S_ISGID = 0x400"

definition S_ISDIR :: "mode_t \<Rightarrow> bool" where
  "S_ISDIR m = (m AND S_IFMT = S_IFDIR)"

definition S_ISREG :: "mode_t \<Rightarrow> bool" where
  "S_ISREG m = (m AND S_IFMT = S_IFREG)"

definition S_ISLNK :: "mode_t \<Rightarrow> bool" where
  "S_ISLNK m = (m AND S_IFMT = S_IFLNK)"

definition O_RDONLY :: "32 word" where "O_RDONLY = 0"
definition O_WRONLY :: "32 word" where "O_WRONLY = 1"
definition O_CREAT :: "32 word" where "O_CREAT = 0x40"
definition O_EXCL :: "32 word" where "O_EXCL = 0x80"

text \<open>Modelled from the spec: \<^verbatim>\<open>PR_TUNABLE_BUFFER_SIZE\<close> is defined outside
  \<^verbatim>\<open>src/\<close> (the "fixed-size chunks" of the copy); 1024 is the ProFTPD default.\<close>

definition PR_TUNABLE_BUFFER_SIZE :: nat where "PR_TUNABLE_BUFFER_SIZE = 1024"

text \<open>\<^verbatim>\<open>sizeof(link_path)\<close> in \<^verbatim>\<open>copy_symlink\<close>: \<^verbatim>\<open>link_path\<close> is declared
  \<^verbatim>\<open>char *\<close>, so the operator yields the size of a pointer (8 on an LP64 target),
  not the size of the buffer it points to.\<close>

definition sizeof_char_ptr :: nat where "sizeof_char_ptr = 8"

text \<open>The longest path name the kernel accepts, \<^verbatim>\<open>PATH_MAX\<close> of \<^verbatim>\<open><limits.h>\<close>.\<close>

definition PATH_MAX :: nat where "PATH_MAX = 4096"

subsection \<open>The world outside the file\<close>

datatype errno = ENOENT | EEXIST | EACCES | EPERM | EIO | EINVAL | ENOTDIR | ENAMETOOLONG

datatype log_level = PR_LOG_WARNING | DEBUG2 | DEBUG3 | DEBUG4 | DEBUG6

record inode =
  i_mode :: mode_t
  i_uid :: uid_t
  i_gid :: gid_t
  i_data :: string

text \<open>The fields of \<^verbatim>\<open>struct stat\<close> that matter here.\<close>

record stat =
  st_mode :: mode_t
  st_uid :: uid_t
  st_gid :: gid_t

text \<open>One event per primitive call, in program order.  The three \<open>Call_\<close> events are
  ghost markers written at the entry of \<^verbatim>\<open>create_dir\<close>, \<^verbatim>\<open>copy_file\<close> and
  \<^verbatim>\<open>copy_symlink\<close>; they record the arguments of the call.\<close>

datatype event =
    Ev_clear_cache
  | Ev_stat string
  | Ev_lstat string
  | Ev_umask mode_t
  | Ev_mkdir string mode_t
  | Ev_chown string uid_t gid_t
  | Ev_chmod string mode_t
  | Ev_open string "32 word"
  | Ev_truncate string nat
  | Ev_read string nat
  | Ev_write string string
  | Ev_close string
  | Ev_readlink string nat
  | Ev_symlink string string
  | Ev_opendir string
  | Ev_closedir
  | Ev_signals
  | Ev_log log_level string string
  | Ev_privs_root
  | Ev_privs_relinquish
  | Call_create_dir string uid_t gid_t mode_t
  | Call_copy_file string string uid_t gid_t mode_t
  | Call_copy_symlink string string string string uid_t gid_t

text \<open>
  The file table maps a path, as its list of non-empty components, to an inode.  A
  fallible primitive first takes the head of \<open>faults\<close>: \<open>Some e\<close> makes the call fail
  with \<open>e\<close> and no effect (a permission, quota or I/O failure the table does not
  explain), \<open>None\<close> or an exhausted schedule lets the table decide.  A theorem that
  holds for every world therefore holds under every failure schedule.
\<close>

record world =
  fs :: "(string list \<times> inode) list"
  cur_umask :: mode_t
  elevated :: bool
  proc_uid :: uid_t
  proc_gid :: gid_t
  faults :: "errno option list"
  trace :: "event list"

definition emit :: "event \<Rightarrow> world \<Rightarrow> world" where
  "emit e w = w\<lparr>trace := trace w @ [e]\<rparr>"

definition next_fault :: "world \<Rightarrow> errno option \<times> world" where
  "next_fault w = (case faults w of [] \<Rightarrow> (None, w) | f # fs' \<Rightarrow> (f, w\<lparr>faults := fs'\<rparr>))"

fun split_slash :: "string \<Rightarrow> string list" where
  "split_slash [] = [[]]"
| "split_slash (c # cs) =
     (if c = CHR ''/'' then [] # split_slash cs
      else (case split_slash cs of [] \<Rightarrow> [[c]] | s # ss \<Rightarrow> (c # s) # ss))"

definition components :: "string \<Rightarrow> string list" where
  "components p = filter (\<lambda>s. s \<noteq> []) (split_slash p)"

definition lookup :: "world \<Rightarrow> string \<Rightarrow> inode option" where
  "lookup w p = map_of (fs w) (components p)"

fun store :: "string list \<Rightarrow> inode \<Rightarrow> (string list \<times> inode) list \<Rightarrow> (string list \<times> inode) list" where
  "store k v [] = [(k, v)]"
| "store k v ((k', v') # rest) = (if k = k' then (k, v) # rest else (k', v') # store k v rest)"

definition put :: "string \<Rightarrow> inode \<Rightarrow> world \<Rightarrow> world" where
  "put p n w = w\<lparr>fs := store (components p) n (fs w)\<rparr>"

text \<open>A new entry needs a parent that is a directory; the root has none.\<close>

definition parent_ok :: "world \<Rightarrow> string \<Rightarrow> bool" where
  "parent_ok w p =
     (case components p of
        [] \<Rightarrow> False
      | _ # _ \<Rightarrow> (case map_of (fs w) (butlast (components p)) of
                   None \<Rightarrow> False
                 | Some d \<Rightarrow> S_ISDIR (i_mode d)))"

definition new_inode :: "world \<Rightarrow> mode_t \<Rightarrow> string \<Rightarrow> inode" where
  "new_inode w m d =
     \<lparr>i_mode = m,
      i_uid = (if elevated w then 0 else proc_uid w),
      i_gid = (if elevated w then 0 else proc_gid w),
      i_data = d\<rparr>"

subsubsection \<open>Logging, signals, privileges\<close>

definition pr_log_pri :: "log_level \<Rightarrow> string \<Rightarrow> string \<Rightarrow> world \<Rightarrow> world" where
  "pr_log_pri lvl msg arg w = emit (Ev_log lvl msg arg) w"

definition pr_log_debug :: "log_level \<Rightarrow> string \<Rightarrow> string \<Rightarrow> world \<Rightarrow> world" where
  "pr_log_debug lvl msg arg w = emit (Ev_log lvl msg arg) w"

definition pr_signals_handle :: "world \<Rightarrow> world" where
  "pr_signals_handle w = emit Ev_signals w"

text \<open>Modelled from the spec: the macros \<^verbatim>\<open>PRIVS_ROOT\<close> and \<^verbatim>\<open>PRIVS_RELINQUISH\<close>
  come from \<^verbatim>\<open>privs.h\<close>, outside \<^verbatim>\<open>src/\<close>; only their acquire/release contract is
  used: the first enters the superuser region, the second leaves it.\<close>

definition PRIVS_ROOT :: "world \<Rightarrow> world" where
  "PRIVS_ROOT w = (emit Ev_privs_root w)\<lparr>elevated := True\<rparr>"

definition PRIVS_RELINQUISH :: "world \<Rightarrow> world" where
  "PRIVS_RELINQUISH w = (emit Ev_privs_relinquish w)\<lparr>elevated := False\<rparr>"

subsubsection \<open>Metadata, directories, ownership\<close>

text \<open>Modelled from the spec: the FSIO layer (\<^verbatim>\<open>pr_fs_clear_cache\<close> and every
  \<^verbatim>\<open>pr_fsio_*\<close> function) is outside \<^verbatim>\<open>src/\<close>.  The cache invalidation hook has no
  effect on the file table.  A metadata lookup reports the inode stored under the path
  and fails with "does not exist" when there is none; the table has no symbolic-link
  resolution, so the following and the non-following lookup read the same inode.\<close>

definition pr_fs_clear_cache :: "world \<Rightarrow> world" where
  "pr_fs_clear_cache w = emit Ev_clear_cache w"

definition stat_of :: "inode \<Rightarrow> stat" where
  "stat_of n = \<lparr>st_mode = i_mode n, st_uid = i_uid n, st_gid = i_gid n\<rparr>"

definition pr_fsio_stat :: "string \<Rightarrow> world \<Rightarrow> (errno + stat) \<times> world" where
  "pr_fsio_stat p w =
     (case next_fault (emit (Ev_stat p) w) of
        (Some e, w1) \<Rightarrow> (Inl e, w1)
      | (None, w1) \<Rightarrow>
          (case lookup w1 p of
             None \<Rightarrow> (Inl ENOENT, w1)
           | Some n \<Rightarrow> (Inr (stat_of n), w1)))"

definition pr_fsio_lstat :: "string \<Rightarrow> world \<Rightarrow> (errno + stat) \<times> world" where
  "pr_fsio_lstat p w =
     (case next_fault (emit (Ev_lstat p) w) of
        (Some e, w1) \<Rightarrow> (Inl e, w1)
      | (None, w1) \<Rightarrow>
          (case lookup w1 p of
             None \<Rightarrow> (Inl ENOENT, w1)
           | Some n \<Rightarrow> (Inr (stat_of n), w1)))"

text \<open>\<^verbatim>\<open>umask(2)\<close> always succeeds: it installs the new mask and returns the old one.\<close>

definition umask :: "mode_t \<Rightarrow> world \<Rightarrow> mode_t \<times> world" where
  "umask m w = (cur_umask w, (emit (Ev_umask m) w)\<lparr>cur_umask := m\<rparr>)"

text \<open>The bits of its mode argument that \<^verbatim>\<open>mkdir(2)\<close> honours: the nine permission bits
  and the sticky bit (octal 01777, as on Linux).  What it does with any other bit of the
  mode is implementation-defined in POSIX; the set-user-id and set-group-id bits are
  ignored.\<close>

definition mkdir_mode_bits :: mode_t where "mkdir_mode_bits = 0x3FF"

text \<open>Modelled from the spec: directory creation gives the new directory the requested
  mode as filtered by the process mask ("exactly the requested mode" under mask zero), in
  the bits that \<^verbatim>\<open>mkdir(2)\<close> honours.  It fails when the path exists or its parent is not
  a directory.\<close>

definition pr_fsio_mkdir :: "string \<Rightarrow> mode_t \<Rightarrow> world \<Rightarrow> int \<times> world" where
  "pr_fsio_mkdir p m w =
     (case next_fault (emit (Ev_mkdir p m) w) of
        (Some e, w1) \<Rightarrow> (- 1, w1)
      | (None, w1) \<Rightarrow>
          (if lookup w1 p = None \<and> parent_ok w1 p
           then (0, put p (new_inode w1 (S_IFDIR OR (m AND NOT (cur_umask w1) AND mkdir_mode_bits)) []) w1)
           else (- 1, w1)))"

definition pr_fsio_chown :: "string \<Rightarrow> uid_t \<Rightarrow> gid_t \<Rightarrow> world \<Rightarrow> int \<times> world" where
  "pr_fsio_chown p u g w =
     (case next_fault (emit (Ev_chown p u g) w) of
        (Some e, w1) \<Rightarrow> (- 1, w1)
      | (None, w1) \<Rightarrow>
          (case lookup w1 p of
             None \<Rightarrow> (- 1, w1)
           | Some n \<Rightarrow> (0, put p (n\<lparr>i_uid := u, i_gid := g\<rparr>) w1)))"

definition pr_fsio_chmod :: "string \<Rightarrow> mode_t \<Rightarrow> world \<Rightarrow> int \<times> world" where
  "pr_fsio_chmod p m w =
     (case next_fault (emit (Ev_chmod p m) w) of
        (Some e, w1) \<Rightarrow> (- 1, w1)
      | (None, w1) \<Rightarrow>
          (case lookup w1 p of
             None \<Rightarrow> (- 1, w1)
           | Some n \<Rightarrow> (0, put p (n\<lparr>i_mode := (i_mode n AND S_IFMT) OR (m AND 0xFFF)\<rparr>) w1)))"

subsection \<open>\<^verbatim>\<open>create_dir\<close> (lines 33-73)\<close>

definition create_dir :: "string \<Rightarrow> uid_t \<Rightarrow> gid_t \<Rightarrow> mode_t \<Rightarrow> world \<Rightarrow> int \<times> world" where
  "create_dir dir uid gid mode w0 =
     (let w = emit (Call_create_dir dir uid gid mode) w0;
          w = pr_fs_clear_cache w
      in case pr_fsio_stat dir w of
           (Inl e, w) \<Rightarrow>
             if e \<noteq> ENOENT
             then (- 1, pr_log_pri PR_LOG_WARNING ''error checking'' dir w)
             else
               (case umask 0 w of
                  (prevmask, w) \<Rightarrow>
                    (case pr_fsio_mkdir dir mode w of
                       (r, w) \<Rightarrow>
                         if r < 0
                         then (- 1, pr_log_pri PR_LOG_WARNING ''error creating'' dir w)
                         else
                           (case pr_fsio_chown dir uid gid w of
                              (r, w) \<Rightarrow>
                                if r < 0
                                then (- 1, pr_log_pri PR_LOG_WARNING ''error setting ownership of'' dir w)
                                else
                                  (case umask prevmask w of
                                     (_, w) \<Rightarrow>
                                       (0, pr_log_debug DEBUG6 ''CreateHome: directory created'' dir w)))))
         | (Inr st, w) \<Rightarrow>
             (0, pr_log_debug DEBUG3 ''CreateHome: already exists'' dir w))"

subsection \<open>String helpers of the C library and of ProFTPD\<close>

text \<open>\<^verbatim>\<open>strsep(&s, "/")\<close> on a non-NULL \<^verbatim>\<open>s\<close>: the token up to the first slash, and
  the new value of \<^verbatim>\<open>s\<close> (the text after that slash, or NULL when there was none).\<close>

fun strsep :: "string \<Rightarrow> string \<times> string option" where
  "strsep [] = ([], None)"
| "strsep (c # cs) =
     (if c = CHR ''/'' then ([], Some cs)
      else (case strsep cs of (tok, rest) \<Rightarrow> (c # tok, rest)))"

text \<open>\<^verbatim>\<open>strncmp\<close>: only the sign of the result is specified by the C standard.\<close>

fun strncmp :: "string \<Rightarrow> string \<Rightarrow> nat \<Rightarrow> int" where
  "strncmp a b 0 = 0"
| "strncmp [] [] (Suc n) = 0"
| "strncmp [] (y # ys) (Suc n) = - 1"
| "strncmp (x # xs) [] (Suc n) = 1"
| "strncmp (x # xs) (y # ys) (Suc n) =
     (if x = y then strncmp xs ys n
      else if (of_char x :: nat) < of_char y then - 1 else 1)"

text \<open>Modelled from the spec: \<^verbatim>\<open>pdircat\<close> is outside \<^verbatim>\<open>src/\<close>.  It joins two path
  pieces ("accumulates the growing ancestor path"; \<^verbatim>\<open>D\<close> and \<^verbatim>\<open>/sub/target\<close> give
  \<^verbatim>\<open>D/sub/target\<close>): exactly one slash stands at the seam, one is added when neither
  side has it and one is dropped when both have it.\<close>

definition pdircat :: "string \<Rightarrow> string \<Rightarrow> string" where
  "pdircat a b =
     (if a = [] then b
      else if last a = CHR ''/'' \<and> b \<noteq> [] \<and> hd b = CHR ''/'' then a @ tl b
      else if last a = CHR ''/'' \<or> (b \<noteq> [] \<and> hd b = CHR ''/'') then a @ b
      else a @ ''/'' @ b)"

subsection \<open>\<^verbatim>\<open>create_path\<close> (lines 78-110)\<close>

text \<open>The \<^verbatim>\<open>while (tmppath && *tmppath)\<close> loop; \<open>None\<close> is the NULL pointer.\<close>

function create_path_walk ::
  "string option \<Rightarrow> string \<Rightarrow> uid_t \<Rightarrow> gid_t \<Rightarrow> mode_t \<Rightarrow> mode_t \<Rightarrow> world \<Rightarrow> world" where
  "create_path_walk tmppath currpath uid gid dir_mode dst_mode w =
     (case tmppath of
        None \<Rightarrow> w
      | Some s \<Rightarrow>
          if s = [] then w
          else
            (case strsep s of
               (currdir, tmppath') \<Rightarrow>
                 let currpath' = pdircat currpath currdir;
                     w1 = (if tmppath' = None \<or> tmppath' = Some []
                           then snd (create_dir currpath' uid gid dst_mode w)
                           else snd (create_dir currpath' 0 0 dir_mode w));
                     w2 = pr_signals_handle w1
                 in create_path_walk tmppath' currpath' uid gid dir_mode dst_mode w2))"
  by pat_completeness auto
termination
proof (relation "measure (\<lambda>(t, _). case t of None \<Rightarrow> 0 | Some s \<Rightarrow> Suc (length s))")
  have shorter: "strsep s = (tok, Some r) \<Longrightarrow> length r < length s" for s tok r
    by (induction s arbitrary: tok) (auto split: if_splits prod.splits)
  fix tmppath :: "string option" and currpath :: string and uid gid dir_mode dst_mode :: "32 word"
    and w :: world and s x y xa xb xc
  assume "tmppath = Some s" "s \<noteq> []" "(x, y) = strsep s"
  then show "((y, xa, uid, gid, dir_mode, dst_mode, xc), tmppath, currpath, uid, gid, dir_mode, dst_mode, w)
      \<in> measure (\<lambda>(t, _). case t of None \<Rightarrow> 0 | Some s \<Rightarrow> Suc (length s))"
    using shorter [of s x] by (cases y) (auto dest: sym)
qed simp

definition create_path ::
  "string \<Rightarrow> string \<Rightarrow> uid_t \<Rightarrow> gid_t \<Rightarrow> mode_t \<Rightarrow> mode_t \<Rightarrow> world \<Rightarrow> int \<times> world" where
  "create_path path user uid gid dir_mode dst_mode w0 =
     (let w = pr_fs_clear_cache w0
      in case pr_fsio_stat path w of
           (Inr st, w) \<Rightarrow> (0, w)
         | (Inl e, w) \<Rightarrow>
             let w = pr_log_debug DEBUG3 ''creating home directory'' path w;
                 w = create_path_walk (Some path) ''/'' uid gid dir_mode dst_mode w;
                 w = pr_log_debug DEBUG3 ''home directory created'' path w
             in (0, w))"

subsection \<open>Files, links and directory streams\<close>

text \<open>An open file handle (\<^verbatim>\<open>pr_fh_t\<close>): the path it was opened on and, for a
  handle opened for reading, the bytes not yet read.\<close>

record pr_fh_t =
  fh_path :: string
  fh_buf :: string

text \<open>Modelled from the spec: \<^verbatim>\<open>pr_fsio_open\<close> is outside \<^verbatim>\<open>src/\<close>.  With
  \<^verbatim>\<open>O_CREAT|O_EXCL\<close> it has exclusive-create semantics: it fails if the destination
  already exists, and otherwise creates an empty regular file (mode 0666 as filtered by
  the process mask).  Without \<^verbatim>\<open>O_CREAT\<close> the file must exist.\<close>

definition pr_fsio_open :: "string \<Rightarrow> 32 word \<Rightarrow> world \<Rightarrow> pr_fh_t option \<times> world" where
  "pr_fsio_open p flags w =
     (case next_fault (emit (Ev_open p flags) w) of
        (Some e, w1) \<Rightarrow> (None, w1)
      | (None, w1) \<Rightarrow>
          (case lookup w1 p of
             Some n \<Rightarrow>
               if flags AND O_CREAT \<noteq> 0 \<and> flags AND O_EXCL \<noteq> 0 then (None, w1)
               else (Some \<lparr>fh_path = p, fh_buf = i_data n\<rparr>, w1)
           | None \<Rightarrow>
               if flags AND O_CREAT \<noteq> 0 \<and> parent_ok w1 p
               then (Some \<lparr>fh_path = p, fh_buf = []\<rparr>,
                     put p (new_inode w1 (S_IFREG OR (0x1B6 AND NOT (cur_umask w1))) []) w1)
               else (None, w1)))"

definition pr_fsio_truncate :: "string \<Rightarrow> nat \<Rightarrow> world \<Rightarrow> int \<times> world" where
  "pr_fsio_truncate p len w =
     (case next_fault (emit (Ev_truncate p len) w) of
        (Some e, w1) \<Rightarrow> (- 1, w1)
      | (None, w1) \<Rightarrow>
          (case lookup w1 p of
             None \<Rightarrow> (- 1, w1)
           | Some n \<Rightarrow> (0, put p (n\<lparr>i_data := take len (i_data n)\<rparr>) w1)))"

text \<open>A read returns the number of bytes read (0 at end of file, -1 on error), the
  bytes, and the advanced handle.\<close>

definition pr_fsio_read :: "pr_fh_t \<Rightarrow> nat \<Rightarrow> world \<Rightarrow> int \<times> string \<times> pr_fh_t \<times> world" where
  "pr_fsio_read fh n w =
     (case next_fault (emit (Ev_read (fh_path fh) n) w) of
        (Some e, w1) \<Rightarrow> (- 1, [], fh, w1)
      | (None, w1) \<Rightarrow>
          (int (length (take n (fh_buf fh))), take n (fh_buf fh),
           fh\<lparr>fh_buf := drop n (fh_buf fh)\<rparr>, w1))"

definition pr_fsio_write :: "pr_fh_t \<Rightarrow> string \<Rightarrow> world \<Rightarrow> int \<times> world" where
  "pr_fsio_write fh b w =
     (case next_fault (emit (Ev_write (fh_path fh) b) w) of
        (Some e, w1) \<Rightarrow> (- 1, w1)
      | (None, w1) \<Rightarrow>
          (case lookup w1 (fh_path fh) of
             None \<Rightarrow> (- 1, w1)
           | Some n \<Rightarrow> (int (length b), put (fh_path fh) (n\<lparr>i_data := i_data n @ b\<rparr>) w1)))"

definition pr_fsio_close :: "pr_fh_t \<Rightarrow> world \<Rightarrow> int \<times> world" where
  "pr_fsio_close fh w =
     (case next_fault (emit (Ev_close (fh_path fh)) w) of
        (Some e, w1) \<Rightarrow> (- 1, w1)
      | (None, w1) \<Rightarrow> (0, w1))"

text \<open>\<^verbatim>\<open>readlink\<close> stores at most \<open>bufsiz\<close> bytes of the link's target, without a
  terminating NUL, and returns how many it stored; a longer target is cut silently.\<close>

definition pr_fsio_readlink :: "string \<Rightarrow> nat \<Rightarrow> world \<Rightarrow> int \<times> string \<times> world" where
  "pr_fsio_readlink p bufsiz w =
     (case next_fault (emit (Ev_readlink p bufsiz) w) of
        (Some e, w1) \<Rightarrow> (- 1, [], w1)
      | (None, w1) \<Rightarrow>
          (case lookup w1 p of
             None \<Rightarrow> (- 1, [], w1)
           | Some n \<Rightarrow>
               if S_ISLNK (i_mode n)
               then (int (length (take bufsiz (i_data n))), take bufsiz (i_data n), w1)
               else (- 1, [], w1)))"

definition pr_fsio_symlink :: "string \<Rightarrow> string \<Rightarrow> world \<Rightarrow> int \<times> world" where
  "pr_fsio_symlink target linkpath w =
     (case next_fault (emit (Ev_symlink target linkpath) w) of
        (Some e, w1) \<Rightarrow> (- 1, w1)
      | (None, w1) \<Rightarrow>
          (if lookup w1 linkpath = None \<and> parent_ok w1 linkpath
           then (0, put linkpath (new_inode w1 (S_IFLNK OR 0x1FF) target) w1)
           else (- 1, w1)))"

text \<open>A directory stream (\<^verbatim>\<open>DIR *\<close>) is the list of names \<^verbatim>\<open>readdir\<close> has yet to
  return: the two pseudo-entries, then the names stored under the directory when it was
  opened.  \<^verbatim>\<open>opendir\<close> refuses a path of \<^verbatim>\<open>PATH_MAX\<close> bytes or more.\<close>

definition valid_name :: "string \<Rightarrow> bool" where
  "valid_name s = (s \<noteq> [] \<and> CHR ''/'' \<notin> set s)"

definition children :: "world \<Rightarrow> string \<Rightarrow> string list" where
  "children w p =
     map (\<lambda>(k, n). last k)
       (filter (\<lambda>(k, n). k \<noteq> [] \<and> butlast k = components p \<and> valid_name (last k)) (fs w))"

definition opendir :: "string \<Rightarrow> world \<Rightarrow> string list option \<times> world" where
  "opendir p w =
     (case next_fault (emit (Ev_opendir p) w) of
        (Some e, w1) \<Rightarrow> (None, w1)
      | (None, w1) \<Rightarrow>
          (if PATH_MAX \<le> length p then (None, w1)
           else
             (case lookup w1 p of
                None \<Rightarrow> (None, w1)
              | Some n \<Rightarrow>
                  if S_ISDIR (i_mode n) then (Some (''.'' # ''..'' # children w1 p), w1)
                  else (None, w1))))"

definition closedir :: "world \<Rightarrow> world" where
  "closedir w = emit Ev_closedir w"

subsection \<open>\<^verbatim>\<open>copy_file\<close> (lines 112-161)\<close>

text \<open>The \<^verbatim>\<open>while ((res = pr_fsio_read(...)) > 0)\<close> loop.\<close>

function copy_file_loop :: "pr_fh_t \<Rightarrow> pr_fh_t \<Rightarrow> string \<Rightarrow> world \<Rightarrow> world" where
  "copy_file_loop src_fh dst_fh dst w =
     (case pr_fsio_read src_fh PR_TUNABLE_BUFFER_SIZE w of
        (res, buf, src_fh', w1) \<Rightarrow>
          if res > 0
          then
            (case pr_fsio_write dst_fh buf w1 of
               (wres, w2) \<Rightarrow>
                 if wres \<noteq> res
                 then pr_log_pri PR_LOG_WARNING ''CreateHome: error writing to'' dst w2
                 else copy_file_loop src_fh' dst_fh dst (pr_signals_handle w2))
          else w1)"
  by pat_completeness auto
termination
  by (relation "measure (\<lambda>(src_fh, _). length (fh_buf src_fh))")
    (auto simp: pr_fsio_read_def PR_TUNABLE_BUFFER_SIZE_def split: prod.splits option.splits)

definition copy_file ::
  "string \<Rightarrow> string \<Rightarrow> uid_t \<Rightarrow> gid_t \<Rightarrow> mode_t \<Rightarrow> world \<Rightarrow> int \<times> world" where
  "copy_file src dst uid gid mode w0 =
     (let w = emit (Call_copy_file src dst uid gid mode) w0
      in case pr_fsio_open src O_RDONLY w of
           (None, w) \<Rightarrow> (- 1, pr_log_debug DEBUG2 ''CreateHome: trouble with'' src w)
         | (Some src_fh, w) \<Rightarrow>
             (case pr_fsio_open dst (O_WRONLY OR O_CREAT OR O_EXCL) w of
                (None, w) \<Rightarrow>
                  (- 1, snd (pr_fsio_close src_fh
                               (pr_log_debug DEBUG2 ''CreateHome: trouble with'' dst w)))
              | (Some dst_fh, w) \<Rightarrow>
                  let w = snd (pr_fsio_truncate dst 0 w);
                      w = copy_file_loop src_fh dst_fh dst w;
                      w = (case pr_fsio_chown dst uid gid w of
                             (r, w) \<Rightarrow>
                               if r < 0
                               then pr_log_pri PR_LOG_WARNING ''CreateHome: error chowning'' dst w
                               else w);
                      w = (case pr_fsio_chmod dst mode w of
                             (r, w) \<Rightarrow>
                               if r < 0
                               then pr_log_pri PR_LOG_WARNING ''CreateHome: error chmoding'' dst w
                               else w);
                      w = snd (pr_fsio_close src_fh w);
                      w = (case pr_fsio_close dst_fh w of
                             (r, w) \<Rightarrow>
                               if r < 0
                               then pr_log_pri PR_LOG_WARNING ''CreateHome: error closing'' dst w
                               else w)
                  in (0, w)))"

subsection \<open>\<^verbatim>\<open>copy_symlink\<close> (lines 163-193)\<close>

definition copy_symlink ::
  "string \<Rightarrow> string \<Rightarrow> string \<Rightarrow> string \<Rightarrow> uid_t \<Rightarrow> gid_t \<Rightarrow> world \<Rightarrow> int \<times> world" where
  "copy_symlink src_dir src_path dst_dir dst_path uid gid w0 =
     (let w = emit (Call_copy_symlink src_dir src_path dst_dir dst_path uid gid) w0
      in case pr_fsio_readlink src_path (sizeof_char_ptr - 1) w of
           (len, buf, w) \<Rightarrow>
             if len < 0
             then (- 1, pr_log_pri PR_LOG_WARNING ''CreateHome: error reading link'' src_path w)
             else
               let link_path = take (nat len) buf;
                   link_path =
                     (if strncmp link_path src_dir (length src_dir) = 0
                      then pdircat dst_dir (drop (length src_dir) link_path)
                      else link_path)
               in case pr_fsio_symlink link_path dst_path w of
                    (r, w) \<Rightarrow>
                      if r < 0
                      then (- 1, pr_log_pri PR_LOG_WARNING ''CreateHome: error symlinking'' dst_path w)
                      else
                        (case pr_fsio_chown dst_path uid gid w of
                           (r, w) \<Rightarrow>
                             (0, if r < 0
                                 then pr_log_pri PR_LOG_WARNING ''CreateHome: error chowning'' dst_path w
                                 else w)))"

subsection \<open>\<^verbatim>\<open>copy_dir\<close> (lines 199-267)\<close>

text \<open>
  The recursion follows the skeleton tree as the world holds it, so it carries fuel:
  \<open>copy_dir n\<close> may descend \<open>n\<close> directory levels and is \<open>None\<close> when that is not
  enough.  \<open>copy_dir_loop\<close> is the \<^verbatim>\<open>while ((dent = readdir(dh)) != NULL)\<close> loop on
  the stream's remaining names.
\<close>

fun copy_dir :: "nat \<Rightarrow> string \<Rightarrow> string \<Rightarrow> uid_t \<Rightarrow> gid_t \<Rightarrow> world \<Rightarrow> (int \<times> world) option"
  and copy_dir_loop ::
    "nat \<Rightarrow> string list \<Rightarrow> string \<Rightarrow> string \<Rightarrow> uid_t \<Rightarrow> gid_t \<Rightarrow> world \<Rightarrow> (int \<times> world) option" where
  "copy_dir 0 src_dir dst_dir uid gid w = None"
| "copy_dir (Suc n) src_dir dst_dir uid gid w =
     (case opendir src_dir w of
        (None, w1) \<Rightarrow>
          Some (- 1, pr_log_pri PR_LOG_WARNING ''CreateHome: error copying skel files'' src_dir w1)
      | (Some dh, w1) \<Rightarrow> copy_dir_loop n dh src_dir dst_dir uid gid w1)"
| "copy_dir_loop n [] src_dir dst_dir uid gid w = Some (0, closedir w)"
| "copy_dir_loop n (d_name # dh) src_dir dst_dir uid gid w0 =
     (let src_path = pdircat src_dir d_name;
          dst_path = pdircat dst_dir d_name;
          w = pr_signals_handle w0
      in if d_name = ''.'' \<or> d_name = ''..''
         then copy_dir_loop n dh src_dir dst_dir uid gid w
         else
           (case pr_fsio_lstat src_path w of
              (Inl e, w) \<Rightarrow>
                copy_dir_loop n dh src_dir dst_dir uid gid
                  (pr_log_debug DEBUG3 ''CreateHome: unable to stat, skipping'' src_path w)
            | (Inr st, w) \<Rightarrow>
                if S_ISDIR (st_mode st)
                then
                  (case copy_dir n src_path dst_path uid gid
                          (snd (create_dir dst_path uid gid (st_mode st) w)) of
                     None \<Rightarrow> None
                   | Some (r, w) \<Rightarrow> copy_dir_loop n dh src_dir dst_dir uid gid w)
                else if S_ISREG (st_mode st)
                then
                  (let dst_mode = st_mode st;
                       dst_mode = (if dst_mode AND S_ISUID \<noteq> 0
                                   then dst_mode AND NOT S_ISUID else dst_mode);
                       dst_mode = (if dst_mode AND S_ISGID \<noteq> 0
                                   then dst_mode AND NOT S_ISGID else dst_mode)
                   in copy_dir_loop n dh src_dir dst_dir uid gid
                        (snd (copy_file src_path dst_path uid gid dst_mode w)))
                else if S_ISLNK (st_mode st)
                then copy_dir_loop n dh src_dir dst_dir uid gid
                       (snd (copy_symlink src_dir src_path dst_dir dst_path uid gid w))
                else copy_dir_loop n dh src_dir dst_dir uid gid
                       (pr_log_debug DEBUG3 ''CreateHome: skipping skel file'' src_path w)))"

subsection \<open>\<^verbatim>\<open>create_home\<close> (lines 272-304)\<close>

text \<open>The \<^verbatim>\<open>CreateHome\<close> directive as \<^verbatim>\<open>find_config\<close> returns it (\<open>None\<close> is NULL):
  \<^verbatim>\<open>argv[0]\<close> the on/off flag, \<^verbatim>\<open>argv[1]\<close> the mode of the home directory,
  \<^verbatim>\<open>argv[2]\<close> the mode of its ancestors, \<^verbatim>\<open>argv[3]\<close> the skeleton directory or NULL.\<close>

record config_rec =
  argv0 :: "8 word"
  argv1 :: mode_t
  argv2 :: mode_t
  argv3 :: "string option"

text \<open>Lines 283-303, from the test of what \<^verbatim>\<open>create_path\<close> returned to the two
  returns that leave the privileged region.\<close>

definition create_home_rest ::
  "nat \<Rightarrow> config_rec \<Rightarrow> string \<Rightarrow> uid_t \<Rightarrow> gid_t \<Rightarrow> int \<times> world \<Rightarrow> (int \<times> world) option" where
  "create_home_rest fuel c home uid gid res =
     (case res of
        (r, w) \<Rightarrow>
          if r < 0 then Some (- 1, PRIVS_RELINQUISH w)
          else
            (case argv3 c of
               None \<Rightarrow> Some (0, PRIVS_RELINQUISH w)
             | Some skel_dir \<Rightarrow>
                 (case copy_dir fuel skel_dir home uid gid
                         (pr_log_debug DEBUG4 ''CreateHome: copying skel files'' skel_dir w) of
                    None \<Rightarrow> None
                  | Some (r, w) \<Rightarrow>
                      Some (0, PRIVS_RELINQUISH
                                 (if r < 0
                                  then pr_log_debug DEBUG4 ''CreateHome: error copying skel files'' skel_dir w
                                  else w)))))"

definition create_home ::
  "nat \<Rightarrow> config_rec option \<Rightarrow> string \<Rightarrow> string \<Rightarrow> uid_t \<Rightarrow> gid_t \<Rightarrow> world
     \<Rightarrow> (int \<times> world) option" where
  "create_home fuel c home user uid gid w0 =
     (case c of
        None \<Rightarrow> Some (0, w0)
      | Some c \<Rightarrow>
          if argv0 c = 0 then Some (0, w0)
          else create_home_rest fuel c home uid gid
                 (create_path home user uid gid (argv2 c) (argv1 c) (PRIVS_ROOT w0)))"


subsection \<open>Vocabulary of the properties\<close>

text \<open>The events a run added to the trace.\<close>

definition added :: "world \<Rightarrow> world \<Rightarrow> event list" where
  "added w w' = drop (length (trace w)) (trace w')"

definition privs_free :: "event list \<Rightarrow> bool" where
  "privs_free evs = (Ev_privs_root \<notin> set evs \<and> Ev_privs_relinquish \<notin> set evs)"

definition is_create_dir_call :: "event \<Rightarrow> bool" where
  "is_create_dir_call e = (case e of Call_create_dir _ _ _ _ \<Rightarrow> True | _ \<Rightarrow> False)"

definition create_dir_calls :: "event list \<Rightarrow> event list" where
  "create_dir_calls evs = filter is_create_dir_call evs"

fun call_dir :: "event \<Rightarrow> string" where
  "call_dir (Call_create_dir d u g m) = d"
| "call_dir e = []"

text \<open>The segments of a path as the walk of \<^verbatim>\<open>create_path\<close> meets them: the pieces
  between slashes, an empty piece after a final slash not counted.  \<open>walk_paths\<close> are
  the ancestor paths accumulated from them.\<close>

definition path_tokens :: "string \<Rightarrow> string list" where
  "path_tokens s =
     (if s = [] then []
      else if last s = CHR ''/'' then butlast (split_slash s)
      else split_slash s)"

definition tokens_left :: "string option \<Rightarrow> string list" where
  "tokens_left t = (case t of None \<Rightarrow> [] | Some s \<Rightarrow> path_tokens s)"

fun walk_paths :: "string \<Rightarrow> string list \<Rightarrow> string list" where
  "walk_paths c [] = []"
| "walk_paths c (d # ds) = pdircat c d # walk_paths (pdircat c d) ds"

definition expected_calls :: "uid_t \<Rightarrow> gid_t \<Rightarrow> mode_t \<Rightarrow> mode_t \<Rightarrow> string list \<Rightarrow> event list" where
  "expected_calls uid gid dir_mode dst_mode ps =
     map (\<lambda>p. Call_create_dir p 0 0 dir_mode) (butlast ps) @
     (if ps = [] then [] else [Call_create_dir (last ps) uid gid dst_mode])"

subsection \<open>Sample worlds\<close>

text \<open>A machine with nothing but a root directory (mode 0755), umask 022.\<close>

definition w_root :: world where
  "w_root =
     \<lparr>fs = [([], \<lparr>i_mode = 0x41ED, i_uid = 0, i_gid = 0, i_data = []\<rparr>)],
      cur_umask = 0x12, elevated = True, proc_uid = 1001, proc_gid = 1001,
      faults = [], trace = []\<rparr>"

text \<open>The same machine, where the fourth fallible call is refused (\<^verbatim>\<open>EACCES\<close>).\<close>

definition w_faulty :: world where
  "w_faulty = w_root\<lparr>faults := [None, None, None, Some EACCES]\<rparr>"

definition w_skel :: world where
  "w_skel =
     \<lparr>fs = [([], \<lparr>i_mode = 0x41ED, i_uid = 0, i_gid = 0, i_data = []\<rparr>),
            ([''etc''], \<lparr>i_mode = 0x41ED, i_uid = 0, i_gid = 0, i_data = []\<rparr>),
            ([''etc'', ''skel''], \<lparr>i_mode = 0x41ED, i_uid = 0, i_gid = 0, i_data = []\<rparr>),
            ([''etc'', ''skel'', ''notes''],
               \<lparr>i_mode = 0x81A4, i_uid = 0, i_gid = 0, i_data = ''new''\<rparr>),
            ([''etc'', ''skel'', ''run''],
               \<lparr>i_mode = 0x8DED, i_uid = 0, i_gid = 0, i_data = ''date''\<rparr>),
            ([''etc'', ''skel'', ''pub''], \<lparr>i_mode = 0x45FD, i_uid = 0, i_gid = 0, i_data = []\<rparr>),
            ([''etc'', ''skel'', ''lnk''],
               \<lparr>i_mode = 0xA1FF, i_uid = 0, i_gid = 0, i_data = ''/etc/skel/pub/readme''\<rparr>),
            ([''etc'', ''skel'', ''out''],
               \<lparr>i_mode = 0xA1FF, i_uid = 0, i_gid = 0, i_data = ''/usr/share/doc''\<rparr>),
            ([''home''], \<lparr>i_mode = 0x41C9, i_uid = 0, i_gid = 0, i_data = []\<rparr>),
            ([''home'', ''alice''], \<lparr>i_mode = 0x41ED, i_uid = 1001, i_gid = 1001, i_data = []\<rparr>),
            ([''home'', ''alice'', ''notes''],
               \<lparr>i_mode = 0x8180, i_uid = 1001, i_gid = 1001, i_data = ''old''\<rparr>)],
      cur_umask = 0x12, elevated = True, proc_uid = 1001, proc_gid = 1001,
      faults = [], trace = []\<rparr>"

definition w_mini :: world where
  "w_mini =
     \<lparr>fs = [([], \<lparr>i_mode = 0x41ED, i_uid = 0, i_gid = 0, i_data = []\<rparr>),
            ([''s''], \<lparr>i_mode = 0x41ED, i_uid = 0, i_gid = 0, i_data = []\<rparr>),
            ([''s'', ''a''], \<lparr>i_mode = 0x81A4, i_uid = 0, i_gid = 0, i_data = ''new''\<rparr>),
            ([''s'', ''b''], \<lparr>i_mode = 0x8DED, i_uid = 0, i_gid = 0, i_data = ''run''\<rparr>),
            ([''s'', ''p''], \<lparr>i_mode = 0x45FD, i_uid = 0, i_gid = 0, i_data = []\<rparr>),
            ([''d''], \<lparr>i_mode = 0x41ED, i_uid = 7, i_gid = 7, i_data = []\<rparr>),
            ([''d'', ''a''], \<lparr>i_mode = 0x8180, i_uid = 7, i_gid = 7, i_data = ''old''\<rparr>)],
      cur_umask = 0x12, elevated = True, proc_uid = 7, proc_gid = 7,
      faults = [], trace = []\<rparr>"

definition quiet :: "world \<Rightarrow> world \<Rightarrow> bool" where
  "quiet w w' = (\<exists>evs. trace w' = trace w @ evs \<and> privs_free evs)"

definition dent_ok :: "string \<Rightarrow> bool" where
  "dent_ok d = (d = ''.'' \<or> d = ''..'' \<or> valid_name d)"

definition cfg_skel :: config_rec where
  "cfg_skel = \<lparr>argv0 = 1, argv1 = 0x1ED, argv2 = 0x1C9, argv3 = Some ''/etc/skel''\<rparr>"

text \<open>The path holds a file system object with neither set-id bit.\<close>

definition plain_at :: "world \<Rightarrow> string \<Rightarrow> bool" where
  "plain_at w p =
     (case lookup w p of None \<Rightarrow> False | Some nd \<Rightarrow> i_mode nd AND (S_ISUID OR S_ISGID) = 0)"

text \<open>What a call of \<^verbatim>\<open>create_dir\<close> is for, as a function on the file table: a path
  that is missing and whose parent is a directory becomes a directory with the given owner
  and the permission and sticky bits of the given mode; any other path is left as it is.
  \<open>make_dirs\<close> does this for a list of calls, in order.\<close>

fun make_dir :: "event \<Rightarrow> world \<Rightarrow> world" where
  "make_dir (Call_create_dir p u g m) w =
     (if lookup w p = None \<and> parent_ok w p
      then put p \<lparr>i_mode = S_IFDIR OR (m AND mkdir_mode_bits), i_uid = u, i_gid = g, i_data = []\<rparr> w
      else w)"
| "make_dir e w = w"

definition make_dirs :: "event list \<Rightarrow> world \<Rightarrow> world" where
  "make_dirs evs w = foldl (\<lambda>w e. make_dir e w) w evs"

text \<open>The outcome of a run of \<^verbatim>\<open>copy_dir\<close>: what it returned, the calls made up to its
  return and what a path holds then (nothing of these when the fuel ran out).\<close>

definition returned :: "(int \<times> world) option \<Rightarrow> int option" where
  "returned res = map_option fst res"

definition final_trace :: "(int \<times> world) option \<Rightarrow> event list" where
  "final_trace res = (case res of None \<Rightarrow> [] | Some (r, w) \<Rightarrow> trace w)"

definition final_lookup :: "(int \<times> world) option \<Rightarrow> string \<Rightarrow> inode option" where
  "final_lookup res p = (case res of None \<Rightarrow> None | Some (r, w) \<Rightarrow> lookup w p)"

text \<open>A skeleton \<^verbatim>\<open>/skel\<close> with one file, set-user-id and set-group-id (mode 06755), and
  the home directory \<^verbatim>\<open>/home/bob\<close> it is copied to.\<close>

definition w_suid :: world where
  "w_suid =
     \<lparr>fs = [([], \<lparr>i_mode = 0x41ED, i_uid = 0, i_gid = 0, i_data = []\<rparr>),
            ([''skel''], \<lparr>i_mode = 0x41ED, i_uid = 0, i_gid = 0, i_data = []\<rparr>),
            ([''skel'', ''run''], \<lparr>i_mode = 0x8DED, i_uid = 0, i_gid = 0, i_data = ''date''\<rparr>),
            ([''home''], \<lparr>i_mode = 0x41C9, i_uid = 0, i_gid = 0, i_data = []\<rparr>),
            ([''home'', ''bob''], \<lparr>i_mode = 0x41ED, i_uid = 1002, i_gid = 1002, i_data = []\<rparr>)],
      cur_umask = 0x12, elevated = True, proc_uid = 1002, proc_gid = 1002,
      faults = [], trace = []\<rparr>"

text \<open>A skeleton \<^verbatim>\<open>/t\<close> with one directory, set-group-id (mode 02775), and the directory
  \<^verbatim>\<open>/d\<close> it is copied to.\<close>

definition w_gid :: world where
  "w_gid =
     \<lparr>fs = [([], \<lparr>i_mode = 0x41ED, i_uid = 0, i_gid = 0, i_data = []\<rparr>),
            ([''t''], \<lparr>i_mode = 0x41ED, i_uid = 0, i_gid = 0, i_data = []\<rparr>),
            ([''t'', ''p''], \<lparr>i_mode = 0x45FD, i_uid = 0, i_gid = 0, i_data = []\<rparr>),
            ([''d''], \<lparr>i_mode = 0x41ED, i_uid = 7, i_gid = 7, i_data = []\<rparr>)],
      cur_umask = 0x12, elevated = True, proc_uid = 7, proc_gid = 7,
      faults = [], trace = []\<rparr>"


section \<open>Properties\<close>

declare create_path_walk.simps [simp del]
declare copy_file_loop.simps [simp del]

subsection \<open>What each primitive adds to the trace\<close>

lemma emit_simps [simp]:
  "trace (emit e w) = trace w @ [e]"
  "fs (emit e w) = fs w"
  "cur_umask (emit e w) = cur_umask w"
  "elevated (emit e w) = elevated w"
  "faults (emit e w) = faults w"
  "proc_uid (emit e w) = proc_uid w"
  "proc_gid (emit e w) = proc_gid w"
  by (simp_all add: emit_def)

lemma put_simps [simp]:
  "trace (put p n w) = trace w"
  "cur_umask (put p n w) = cur_umask w"
  "elevated (put p n w) = elevated w"
  "faults (put p n w) = faults w"
  by (simp_all add: put_def)

lemma next_fault_simps [simp]:
  "trace (snd (next_fault w)) = trace w"
  "fs (snd (next_fault w)) = fs w"
  "cur_umask (snd (next_fault w)) = cur_umask w"
  "elevated (snd (next_fault w)) = elevated w"
  by (simp_all add: next_fault_def split: list.splits)

lemma next_fault_eq:
  "next_fault w = (f, w1) \<Longrightarrow> trace w1 = trace w \<and> fs w1 = fs w \<and> cur_umask w1 = cur_umask w \<and> elevated w1 = elevated w"
  by (auto simp: next_fault_def split: list.splits)

lemma lookup_emit [simp]: "lookup (emit e w) p = lookup w p"
  by (simp add: lookup_def)

lemma parent_ok_emit [simp]: "parent_ok (emit e w) p = parent_ok w p"
  by (simp add: parent_ok_def split: list.splits)

lemma trace_stat [simp]: "trace (snd (pr_fsio_stat p w)) = trace w @ [Ev_stat p]"
  by (auto simp: pr_fsio_stat_def split: prod.splits option.splits dest!: next_fault_eq)
lemma fs_stat [simp]: "fs (snd (pr_fsio_stat p w)) = fs w"
  by (auto simp: pr_fsio_stat_def split: prod.splits option.splits dest!: next_fault_eq)
lemma umask_stat [simp]: "cur_umask (snd (pr_fsio_stat p w)) = cur_umask w"
  by (auto simp: pr_fsio_stat_def split: prod.splits option.splits dest!: next_fault_eq)

lemma trace_lstat [simp]: "trace (snd (pr_fsio_lstat p w)) = trace w @ [Ev_lstat p]"
  by (auto simp: pr_fsio_lstat_def split: prod.splits option.splits dest!: next_fault_eq)
lemma fs_lstat [simp]: "fs (snd (pr_fsio_lstat p w)) = fs w"
  by (auto simp: pr_fsio_lstat_def split: prod.splits option.splits dest!: next_fault_eq)

lemma trace_mkdir [simp]: "trace (snd (pr_fsio_mkdir p m w)) = trace w @ [Ev_mkdir p m]"
  by (auto simp: pr_fsio_mkdir_def split: prod.splits option.splits dest!: next_fault_eq)
lemma trace_chown [simp]: "trace (snd (pr_fsio_chown p u g w)) = trace w @ [Ev_chown p u g]"
  by (auto simp: pr_fsio_chown_def split: prod.splits option.splits dest!: next_fault_eq)
lemma trace_chmod [simp]: "trace (snd (pr_fsio_chmod p m w)) = trace w @ [Ev_chmod p m]"
  by (auto simp: pr_fsio_chmod_def split: prod.splits option.splits dest!: next_fault_eq)
lemma trace_umask [simp]: "trace (snd (umask m w)) = trace w @ [Ev_umask m]"
  by (simp add: umask_def)
lemma trace_open [simp]: "trace (snd (pr_fsio_open p fl w)) = trace w @ [Ev_open p fl]"
  by (auto simp: pr_fsio_open_def split: prod.splits option.splits dest!: next_fault_eq)
lemma trace_truncate [simp]: "trace (snd (pr_fsio_truncate p n w)) = trace w @ [Ev_truncate p n]"
  by (auto simp: pr_fsio_truncate_def split: prod.splits option.splits dest!: next_fault_eq)
lemma trace_read [simp]: "trace (snd (snd (snd (pr_fsio_read fh n w)))) = trace w @ [Ev_read (fh_path fh) n]"
  by (auto simp: pr_fsio_read_def split: prod.splits option.splits dest!: next_fault_eq)
lemma trace_write [simp]: "trace (snd (pr_fsio_write fh b w)) = trace w @ [Ev_write (fh_path fh) b]"
  by (auto simp: pr_fsio_write_def split: prod.splits option.splits dest!: next_fault_eq)
lemma trace_close [simp]: "trace (snd (pr_fsio_close fh w)) = trace w @ [Ev_close (fh_path fh)]"
  by (auto simp: pr_fsio_close_def split: prod.splits option.splits dest!: next_fault_eq)
lemma trace_readlink [simp]: "trace (snd (snd (pr_fsio_readlink p n w))) = trace w @ [Ev_readlink p n]"
  by (auto simp: pr_fsio_readlink_def split: prod.splits option.splits dest!: next_fault_eq)
lemma trace_symlink [simp]: "trace (snd (pr_fsio_symlink t p w)) = trace w @ [Ev_symlink t p]"
  by (auto simp: pr_fsio_symlink_def split: prod.splits option.splits dest!: next_fault_eq)
lemma trace_opendir [simp]: "trace (snd (opendir p w)) = trace w @ [Ev_opendir p]"
  by (auto simp: opendir_def split: prod.splits option.splits dest!: next_fault_eq)
lemma trace_misc [simp]:
  "trace (pr_log_pri l m a w) = trace w @ [Ev_log l m a]"
  "trace (pr_log_debug l m a w) = trace w @ [Ev_log l m a]"
  "trace (pr_signals_handle w) = trace w @ [Ev_signals]"
  "trace (pr_fs_clear_cache w) = trace w @ [Ev_clear_cache]"
  "trace (closedir w) = trace w @ [Ev_closedir]"
  by (simp_all add: pr_log_pri_def pr_log_debug_def pr_signals_handle_def pr_fs_clear_cache_def closedir_def)


lemma snd_eqD: "f = (r, w1) \<Longrightarrow> w1 = snd f" by simp
lemma snd3_eqD: "f = (r, b, w1) \<Longrightarrow> w1 = snd (snd f)" by simp
lemma snd4_eqD: "f = (r, b, c, w1) \<Longrightarrow> w1 = snd (snd (snd f))" by simp

lemma trace_eqs:
  "pr_fsio_stat p w = (rs, w1) \<Longrightarrow> trace w1 = trace w @ [Ev_stat p]"
  "pr_fsio_lstat p w = (rs, w1) \<Longrightarrow> trace w1 = trace w @ [Ev_lstat p]"
  "pr_fsio_mkdir p m w = (r, w1) \<Longrightarrow> trace w1 = trace w @ [Ev_mkdir p m]"
  "pr_fsio_chown p u g w = (r, w1) \<Longrightarrow> trace w1 = trace w @ [Ev_chown p u g]"
  "pr_fsio_chmod p m w = (r, w1) \<Longrightarrow> trace w1 = trace w @ [Ev_chmod p m]"
  "umask m w = (m', w1) \<Longrightarrow> trace w1 = trace w @ [Ev_umask m]"
  "pr_fsio_open p fl w = (ro, w1) \<Longrightarrow> trace w1 = trace w @ [Ev_open p fl]"
  "pr_fsio_truncate p n w = (r, w1) \<Longrightarrow> trace w1 = trace w @ [Ev_truncate p n]"
  "pr_fsio_read fh n w = (r, b, fh', w1) \<Longrightarrow> trace w1 = trace w @ [Ev_read (fh_path fh) n]"
  "pr_fsio_write fh b w = (r, w1) \<Longrightarrow> trace w1 = trace w @ [Ev_write (fh_path fh) b]"
  "pr_fsio_close fh w = (r, w1) \<Longrightarrow> trace w1 = trace w @ [Ev_close (fh_path fh)]"
  "pr_fsio_readlink p n w = (r, b, w1) \<Longrightarrow> trace w1 = trace w @ [Ev_readlink p n]"
  "pr_fsio_symlink t p w = (r, w1) \<Longrightarrow> trace w1 = trace w @ [Ev_symlink t p]"
  "opendir p w = (rd, w1) \<Longrightarrow> trace w1 = trace w @ [Ev_opendir p]"
  by (auto dest!: snd_eqD snd3_eqD snd4_eqD)

lemma create_dir_trace:
  "\<exists>evs. trace (snd (create_dir d u g m w)) = trace w @ Call_create_dir d u g m # evs
     \<and> privs_free evs \<and> create_dir_calls evs = []"
  by (auto simp: create_dir_def Let_def privs_free_def create_dir_calls_def is_create_dir_call_def
      split: prod.splits sum.splits dest!: trace_eqs)


subsection \<open>Path segments\<close>

lemma split_slash_ne [simp]: "split_slash s \<noteq> []"
  by (induction s) (auto split: list.splits)

lemma strsep_split:
  "strsep s = (tok, rest) \<Longrightarrow>
     split_slash s = tok # (case rest of None \<Rightarrow> [] | Some r \<Rightarrow> split_slash r)"
proof (induction s arbitrary: tok rest)
  case Nil
  then show ?case by simp
next
  case (Cons c cs)
  show ?case
  proof (cases "c = CHR ''/''")
    case True
    with Cons.prems show ?thesis by auto
  next
    case False
    obtain t r where tr: "strsep cs = (t, r)" by (cases "strsep cs")
    from Cons.IH [OF tr] Cons.prems False tr show ?thesis
      by (auto split: option.splits)
  qed
qed

lemma strsep_Some: "strsep s = (tok, Some r) \<Longrightarrow> s = tok @ CHR ''/'' # r"
  by (induction s arbitrary: tok) (auto split: if_splits prod.splits)

lemma strsep_None: "strsep s = (tok, None) \<Longrightarrow> tok = s \<and> CHR ''/'' \<notin> set s"
  by (induction s arbitrary: tok) (auto split: if_splits prod.splits)

lemma path_tokens_step:
  assumes "s \<noteq> []" and "strsep s = (d, t')"
  shows "path_tokens s = d # (case t' of None \<Rightarrow> [] | Some r \<Rightarrow> path_tokens r)"
proof (cases t')
  case None
  with assms strsep_None [of s d] have "d = s" "CHR ''/'' \<notin> set s" by auto
  moreover have "last s \<in> set s" using assms(1) by simp
  ultimately have "last s \<noteq> CHR ''/''" by metis
  with assms None strsep_split [of s d t'] show ?thesis
    by (simp add: path_tokens_def)
next
  case (Some r)
  with assms strsep_Some [of s d r] have s: "s = d @ CHR ''/'' # r" by simp
  have sp: "split_slash s = d # split_slash r"
    using strsep_split [OF assms(2)] Some by simp
  show ?thesis
  proof (cases "r = []")
    case True
    with s sp Some show ?thesis by (simp add: path_tokens_def)
  next
    case False
    with s have "last s = last r" by simp
    with sp Some False assms(1) show ?thesis
      by (simp add: path_tokens_def)
  qed
qed

lemma path_tokens_Nil [simp]: "path_tokens s = [] \<longleftrightarrow> s = []"
proof (cases "s = []")
  case True
  then show ?thesis by (simp add: path_tokens_def)
next
  case False
  obtain d t' where "strsep s = (d, t')" by (cases "strsep s")
  from path_tokens_step [OF False this] False show ?thesis by simp
qed

lemma tokens_left_Nil: "tokens_left t = [] \<longleftrightarrow> (t = None \<or> t = Some [])"
  by (cases t) (simp_all add: tokens_left_def)

lemma walk_paths_Nil [simp]: "walk_paths c ds = [] \<longleftrightarrow> ds = []"
  by (cases ds) simp_all

lemma privs_free_simps [simp]:
  "privs_free []"
  "privs_free (e # evs) \<longleftrightarrow> e \<noteq> Ev_privs_root \<and> e \<noteq> Ev_privs_relinquish \<and> privs_free evs"
  "privs_free (evs @ evs') \<longleftrightarrow> privs_free evs \<and> privs_free evs'"
  by (auto simp: privs_free_def)

lemma create_dir_calls_simps [simp]:
  "create_dir_calls [] = []"
  "create_dir_calls (evs @ evs') = create_dir_calls evs @ create_dir_calls evs'"
  "create_dir_calls (Call_create_dir d u g m # evs) = Call_create_dir d u g m # create_dir_calls evs"
  "create_dir_calls (Ev_signals # evs) = create_dir_calls evs"
  "create_dir_calls (Ev_clear_cache # evs) = create_dir_calls evs"
  "create_dir_calls (Ev_stat p # evs) = create_dir_calls evs"
  "create_dir_calls (Ev_log l ms a # evs) = create_dir_calls evs"
  by (simp_all add: create_dir_calls_def is_create_dir_call_def)

lemma walk_trace:
  "\<exists>evs. trace (create_path_walk t c uid gid dm lm w) = trace w @ evs \<and> privs_free evs \<and>
     create_dir_calls evs = expected_calls uid gid dm lm (walk_paths c (tokens_left t))"
proof (induction t c uid gid dm lm w rule: create_path_walk.induct)
  case (1 t c uid gid dm lm w)
  show ?case
  proof (cases "t = None \<or> t = Some []")
    case True
    then have "create_path_walk t c uid gid dm lm w = w"
      by (subst create_path_walk.simps) auto
    moreover from True have "tokens_left t = []" by (simp add: tokens_left_Nil)
    ultimately show ?thesis by (simp add: expected_calls_def)
  next
    case False
    then obtain s where t: "t = Some s" and s: "s \<noteq> []" by (cases t) auto
    obtain d t' where sep: "strsep s = (d, t')" by (cases "strsep s")
    define c' where "c' = pdircat c d"
    define lastp where "lastp = (t' = None \<or> t' = Some [])"
    define cu where "cu = (if lastp then uid else 0)"
    define cg where "cg = (if lastp then gid else 0)"
    define cm where "cm = (if lastp then lm else dm)"
    define w1 where "w1 = snd (create_dir c' cu cg cm w)"
    define w2 where "w2 = pr_signals_handle w1"
    have unfold: "create_path_walk t c uid gid dm lm w = create_path_walk t' c' uid gid dm lm w2"
      by (subst create_path_walk.simps)
        (simp add: t s sep c'_def w2_def w1_def cu_def cg_def cm_def lastp_def Let_def)
    have w1eq: "w1 = (if t' = None \<or> t' = Some [] then snd (create_dir c' uid gid lm w)
                      else snd (create_dir c' 0 0 dm w))"
      by (simp add: w1_def cu_def cg_def cm_def lastp_def)
    from "1.IH" [OF t s sep [symmetric] c'_def [unfolded c'_def] w1eq [unfolded c'_def] w2_def [unfolded c'_def]]
    obtain evs2 where ih: "trace (create_path_walk t' c' uid gid dm lm w2) = trace w2 @ evs2"
      "privs_free evs2"
      "create_dir_calls evs2 = expected_calls uid gid dm lm (walk_paths c' (tokens_left t'))"
      unfolding c'_def by blast
    from create_dir_trace [of c' cu cg cm w]
    obtain evs1 where cd: "trace w1 = trace w @ Call_create_dir c' cu cg cm # evs1"
      "privs_free evs1" "create_dir_calls evs1 = []"
      unfolding w1_def by blast
    have toks: "tokens_left t = d # tokens_left t'"
      using path_tokens_step [OF s sep] by (simp add: t tokens_left_def)
    have lastp: "lastp \<longleftrightarrow> tokens_left t' = []"
      by (simp add: lastp_def tokens_left_Nil)
    have "trace (create_path_walk t c uid gid dm lm w)
          = trace w @ (Call_create_dir c' cu cg cm # evs1 @ [Ev_signals] @ evs2)"
      using ih(1) cd(1) by (simp add: unfold w2_def)
    moreover have "privs_free (Call_create_dir c' cu cg cm # evs1 @ [Ev_signals] @ evs2)"
      using ih(2) cd(2) by simp
    moreover have "create_dir_calls (Call_create_dir c' cu cg cm # evs1 @ [Ev_signals] @ evs2)
          = expected_calls uid gid dm lm (walk_paths c (tokens_left t))"
      using ih(3) cd(3) lastp
      by (simp add: toks c'_def [symmetric] expected_calls_def cu_def cg_def cm_def)
    ultimately show ?thesis by blast
  qed
qed

lemma added_append [simp]: "trace w' = trace w @ evs \<Longrightarrow> added w w' = evs"
  by (simp add: added_def)

lemma stat_ghost [simp]:
  "fst (pr_fsio_stat p (pr_fs_clear_cache w)) = fst (pr_fsio_stat p w)"
  "fst (pr_fsio_stat p (emit e w)) = fst (pr_fsio_stat p w)"
  by (simp_all add: pr_fsio_stat_def pr_fs_clear_cache_def next_fault_def lookup_def emit_def
      split: list.splits option.splits)

lemma create_path_trace:
  assumes "fst (pr_fsio_stat path w) = Inl e"
  shows "fst (create_path path user uid gid dm lm w) = 0 \<and>
    (\<exists>evs. trace (snd (create_path path user uid gid dm lm w)) = trace w @ evs \<and> privs_free evs \<and>
       create_dir_calls evs = expected_calls uid gid dm lm (walk_paths ''/'' (path_tokens path)))"
proof -
  obtain r w1 where st: "pr_fsio_stat path (pr_fs_clear_cache w) = (r, w1)"
    by (cases "pr_fsio_stat path (pr_fs_clear_cache w)")
  with assms have r: "r = Inl e" using stat_ghost(1) [of path w] by simp
  have t1: "trace w1 = trace w @ [Ev_clear_cache, Ev_stat path]"
    using trace_eqs(1) [OF st] by simp
  define w2 where "w2 = pr_log_debug DEBUG3 ''creating home directory'' path w1"
  from walk_trace [of "Some path" "''/''" uid gid dm lm w2]
  obtain evs where ev: "trace (create_path_walk (Some path) ''/'' uid gid dm lm w2) = trace w2 @ evs"
    "privs_free evs"
    "create_dir_calls evs = expected_calls uid gid dm lm (walk_paths ''/'' (path_tokens path))"
    by (auto simp: tokens_left_def)
  have res: "create_path path user uid gid dm lm w =
      (0, pr_log_debug DEBUG3 ''home directory created'' path
            (create_path_walk (Some path) ''/'' uid gid dm lm w2))"
    by (simp add: create_path_def Let_def st r w2_def)
  have "trace (snd (create_path path user uid gid dm lm w)) =
      trace w @ ([Ev_clear_cache, Ev_stat path, Ev_log DEBUG3 ''creating home directory'' path]
        @ evs @ [Ev_log DEBUG3 ''home directory created'' path])"
    using ev(1) t1 by (simp add: res w2_def)
  moreover have "privs_free ([Ev_clear_cache, Ev_stat path, Ev_log DEBUG3 ''creating home directory'' path]
        @ evs @ [Ev_log DEBUG3 ''home directory created'' path])"
    using ev(2) by simp
  moreover have "create_dir_calls ([Ev_clear_cache, Ev_stat path, Ev_log DEBUG3 ''creating home directory'' path]
        @ evs @ [Ev_log DEBUG3 ''home directory created'' path])
      = expected_calls uid gid dm lm (walk_paths ''/'' (path_tokens path))"
    using ev(3) by simp
  ultimately show ?thesis using res by (metis fst_conv)
qed

text \<open>
  Claim C4.  When the existence check on the full path does not succeed,
  \<^verbatim>\<open>create_path\<close> returns 0 and has called \<^verbatim>\<open>create_dir\<close> once for every segment of
  the path, in every world: whatever the file table holds and whichever calls the
  failure schedule refuses, so no failure of a segment stops the walk or changes the
  result.
\<close>

theorem create_path_reports_success:
  assumes "fst (pr_fsio_stat path w) = Inl e"
  shows "fst (create_path path user uid gid dir_mode dst_mode w) = 0 \<and>
     map call_dir (create_dir_calls (added w (snd (create_path path user uid gid dir_mode dst_mode w))))
       = walk_paths ''/'' (path_tokens path)"
proof -
  from create_path_trace [OF assms, of user uid gid dir_mode dst_mode]
  obtain evs where "fst (create_path path user uid gid dir_mode dst_mode w) = 0"
    "trace (snd (create_path path user uid gid dir_mode dst_mode w)) = trace w @ evs"
    "create_dir_calls evs = expected_calls uid gid dir_mode dst_mode (walk_paths ''/'' (path_tokens path))"
    by blast
  moreover have "map call_dir (expected_calls uid gid dir_mode dst_mode ps) = ps" for ps
    by (cases "ps = []") (simp_all add: expected_calls_def o_def flip: snoc_eq_iff_butlast)
  ultimately show ?thesis by simp
qed


lemmas prim_defs = pr_fs_clear_cache_def pr_fsio_stat_def pr_fsio_lstat_def umask_def
  pr_fsio_mkdir_def pr_fsio_chown_def pr_fsio_chmod_def pr_log_pri_def pr_log_debug_def
  pr_signals_handle_def emit_def next_fault_def lookup_def components_def put_def
  parent_ok_def new_inode_def stat_of_def mkdir_mode_bits_def

lemma tokens_srv_ftp: "walk_paths ''/'' (path_tokens ''/srv/ftp'') = [''/'', ''/srv'', ''/srv/ftp'']"
  by (simp add: path_tokens_def pdircat_def)

theorem create_path_reports_success_witness:
  "fst (pr_fsio_stat ''/srv/ftp'' w_faulty) = Inl ENOENT \<and>
   fst (create_path ''/srv/ftp'' ''bob'' 1002 1002 0x1C9 0x1ED w_faulty) = 0 \<and>
   map call_dir (create_dir_calls (added w_faulty
       (snd (create_path ''/srv/ftp'' ''bob'' 1002 1002 0x1C9 0x1ED w_faulty))))
     = [''/'', ''/srv'', ''/srv/ftp''] \<and>
   lookup (snd (create_path ''/srv/ftp'' ''bob'' 1002 1002 0x1C9 0x1ED w_faulty)) ''/srv'' = None"
proof -
  have h: "fst (pr_fsio_stat ''/srv/ftp'' w_faulty) = Inl ENOENT"
    by (simp add: prim_defs w_faulty_def w_root_def)
  have l: "lookup (snd (create_path ''/srv/ftp'' ''bob'' 1002 1002 0x1C9 0x1ED w_faulty)) ''/srv'' = None"
    by (simp add: create_path_def create_path_walk.simps create_dir_def prim_defs
        w_faulty_def w_root_def pdircat_def Let_def)
  show ?thesis
    using h l create_path_reports_success [OF h, of "''bob''" 1002 1002 "0x1C9" "0x1ED"]
    by (simp add: tokens_srv_ftp)
qed

subsection \<open>\<^verbatim>\<open>create_dir\<close> on an existing directory, and the process umask\<close>

lemma stat_ok_lookup: "fst (pr_fsio_stat p w) = Inr st \<Longrightarrow> lookup w p \<noteq> None"
  by (auto simp: pr_fsio_stat_def next_fault_def lookup_def emit_def
      split: list.splits option.splits)

lemma next_fault_lookup [simp]:
  "lookup (snd (next_fault w)) p = lookup w p"
  "parent_ok (snd (next_fault w)) p = parent_ok w p"
  by (simp_all add: lookup_def parent_ok_def split: list.splits)

lemma umask_simps [simp]:
  "fst (umask m w) = cur_umask w"
  "cur_umask (snd (umask m w)) = m"
  "fs (snd (umask m w)) = fs w"
  "lookup (snd (umask m w)) p = lookup w p"
  by (simp_all add: umask_def lookup_def)

lemma misc_frame [simp]:
  "fs (pr_log_pri l ms a w) = fs w"
  "fs (pr_log_debug l ms a w) = fs w"
  "fs (pr_signals_handle w) = fs w"
  "fs (pr_fs_clear_cache w) = fs w"
  "cur_umask (pr_log_pri l ms a w) = cur_umask w"
  "cur_umask (pr_log_debug l ms a w) = cur_umask w"
  "cur_umask (pr_signals_handle w) = cur_umask w"
  "cur_umask (pr_fs_clear_cache w) = cur_umask w"
  "lookup (pr_log_pri l ms a w) p = lookup w p"
  "lookup (pr_log_debug l ms a w) p = lookup w p"
  "lookup (pr_signals_handle w) p = lookup w p"
  "lookup (pr_fs_clear_cache w) p = lookup w p"
  by (simp_all add: pr_log_pri_def pr_log_debug_def pr_signals_handle_def pr_fs_clear_cache_def)

lemma lookup_stat [simp]: "lookup (snd (pr_fsio_stat p w)) q = lookup w q"
  by (simp add: lookup_def)

lemma mkdir_frame [simp]:
  "cur_umask (snd (pr_fsio_mkdir p m w)) = cur_umask w"
  by (auto simp: pr_fsio_mkdir_def split: prod.splits option.splits dest!: next_fault_eq)

lemma chown_frame [simp]:
  "cur_umask (snd (pr_fsio_chown p u g w)) = cur_umask w"
  by (auto simp: pr_fsio_chown_def split: prod.splits option.splits dest!: next_fault_eq)

lemma mkdir_existing:
  assumes "lookup w p \<noteq> None"
  shows "fst (pr_fsio_mkdir p m w) = - 1" and "fs (snd (pr_fsio_mkdir p m w)) = fs w"
proof -
  obtain f w1 where nf: "next_fault (emit (Ev_mkdir p m) w) = (f, w1)"
    by (cases "next_fault (emit (Ev_mkdir p m) w)")
  then have w1: "w1 = snd (next_fault (emit (Ev_mkdir p m) w))" by simp
  have l: "lookup w1 p \<noteq> None" using assms by (simp add: w1)
  have "pr_fsio_mkdir p m w = (- 1, w1)"
    using l by (cases f) (simp_all add: pr_fsio_mkdir_def nf)
  then show "fst (pr_fsio_mkdir p m w) = - 1" and "fs (snd (pr_fsio_mkdir p m w)) = fs w"
    by (simp_all add: w1)
qed

text \<open>The three ways through \<^verbatim>\<open>create_dir\<close>, by the outcome of its existence check.\<close>

lemma create_dir_cases:
  fixes dir uid gid mode w
  defines "w1 \<equiv> snd (pr_fsio_stat dir (pr_fs_clear_cache (emit (Call_create_dir dir uid gid mode) w)))"
  shows "fst (pr_fsio_stat dir w) = Inr st \<Longrightarrow>
           create_dir dir uid gid mode w = (0, pr_log_debug DEBUG3 ''CreateHome: already exists'' dir w1)"
    and "fst (pr_fsio_stat dir w) = Inl e \<Longrightarrow> e \<noteq> ENOENT \<Longrightarrow>
           create_dir dir uid gid mode w = (- 1, pr_log_pri PR_LOG_WARNING ''error checking'' dir w1)"
    and "fst (pr_fsio_stat dir w) = Inl ENOENT \<Longrightarrow>
           create_dir dir uid gid mode w =
             (let w2 = snd (umask 0 w1); w3 = snd (pr_fsio_mkdir dir mode w2)
              in if fst (pr_fsio_mkdir dir mode w2) < 0
                 then (- 1, pr_log_pri PR_LOG_WARNING ''error creating'' dir w3)
                 else
                   let w4 = snd (pr_fsio_chown dir uid gid w3)
                   in if fst (pr_fsio_chown dir uid gid w3) < 0
                      then (- 1, pr_log_pri PR_LOG_WARNING ''error setting ownership of'' dir w4)
                      else (0, pr_log_debug DEBUG6 ''CreateHome: directory created'' dir
                                 (snd (umask (cur_umask w) w4))))"
proof -
  let ?w0 = "pr_fs_clear_cache (emit (Call_create_dir dir uid gid mode) w)"
  have f: "fst (pr_fsio_stat dir ?w0) = fst (pr_fsio_stat dir w)" by simp
  have s: "pr_fsio_stat dir ?w0 = (fst (pr_fsio_stat dir w), w1)"
    unfolding w1_def using f by (metis prod.collapse)
  show "fst (pr_fsio_stat dir w) = Inr st \<Longrightarrow>
           create_dir dir uid gid mode w = (0, pr_log_debug DEBUG3 ''CreateHome: already exists'' dir w1)"
    by (simp add: create_dir_def Let_def s)
  show "fst (pr_fsio_stat dir w) = Inl e \<Longrightarrow> e \<noteq> ENOENT \<Longrightarrow>
           create_dir dir uid gid mode w = (- 1, pr_log_pri PR_LOG_WARNING ''error checking'' dir w1)"
    by (simp add: create_dir_def Let_def s)
  have um: "cur_umask w1 = cur_umask w" by (simp add: w1_def)
  show "fst (pr_fsio_stat dir w) = Inl ENOENT \<Longrightarrow>
           create_dir dir uid gid mode w =
             (let w2 = snd (umask 0 w1); w3 = snd (pr_fsio_mkdir dir mode w2)
              in if fst (pr_fsio_mkdir dir mode w2) < 0
                 then (- 1, pr_log_pri PR_LOG_WARNING ''error creating'' dir w3)
                 else
                   let w4 = snd (pr_fsio_chown dir uid gid w3)
                   in if fst (pr_fsio_chown dir uid gid w3) < 0
                      then (- 1, pr_log_pri PR_LOG_WARNING ''error setting ownership of'' dir w4)
                      else (0, pr_log_debug DEBUG6 ''CreateHome: directory created'' dir
                                 (snd (umask (cur_umask w) w4))))"
    by (simp add: create_dir_def Let_def s um [symmetric] case_prod_beta)
qed

lemma create_dir_keeps_existing:
  assumes "lookup w dir \<noteq> None"
  shows "fs (snd (create_dir dir uid gid mode w)) = fs w"
proof (cases "fst (pr_fsio_stat dir w)")
  case (Inr st)
  then show ?thesis by (simp add: create_dir_cases(1))
next
  case (Inl e)
  show ?thesis
  proof (cases "e = ENOENT")
    case False
    with Inl show ?thesis by (simp add: create_dir_cases(2))
  next
    case True
    let ?w1 = "snd (pr_fsio_stat dir (pr_fs_clear_cache (emit (Call_create_dir dir uid gid mode) w)))"
    have "lookup (snd (umask 0 ?w1)) dir \<noteq> None" using assms by simp
    from mkdir_existing [OF this, of mode] Inl True show ?thesis
      by (simp add: create_dir_cases(3) Let_def)
  qed
qed

lemma create_dir_existing:
  assumes "fst (pr_fsio_stat dir w) = Inr st"
  shows "fst (create_dir dir uid gid mode w) = 0"
    and "fs (snd (create_dir dir uid gid mode w)) = fs w"
    and "cur_umask (snd (create_dir dir uid gid mode w)) = cur_umask w"
    and "trace (snd (create_dir dir uid gid mode w)) = trace w @
          [Call_create_dir dir uid gid mode, Ev_clear_cache, Ev_stat dir,
           Ev_log DEBUG3 ''CreateHome: already exists'' dir]"
proof -
  obtain r w1 where st: "pr_fsio_stat dir (pr_fs_clear_cache (emit (Call_create_dir dir uid gid mode) w)) = (r, w1)"
    by (cases "pr_fsio_stat dir (pr_fs_clear_cache (emit (Call_create_dir dir uid gid mode) w))")
  with assms have r: "r = Inr st"
    using stat_ghost [of dir] by (metis fst_conv)
  have w1: "w1 = snd (pr_fsio_stat dir (pr_fs_clear_cache (emit (Call_create_dir dir uid gid mode) w)))"
    using st by simp
  have res: "create_dir dir uid gid mode w = (0, pr_log_debug DEBUG3 ''CreateHome: already exists'' dir w1)"
    by (simp add: create_dir_def Let_def st r)
  show "fst (create_dir dir uid gid mode w) = 0" by (simp add: res)
  show "fs (snd (create_dir dir uid gid mode w)) = fs w"
    by (simp add: res w1 pr_log_debug_def pr_fs_clear_cache_def)
  show "cur_umask (snd (create_dir dir uid gid mode w)) = cur_umask w"
    by (simp add: res w1 pr_log_debug_def pr_fs_clear_cache_def)
  show "trace (snd (create_dir dir uid gid mode w)) = trace w @
          [Call_create_dir dir uid gid mode, Ev_clear_cache, Ev_stat dir,
           Ev_log DEBUG3 ''CreateHome: already exists'' dir]"
    by (simp add: res w1)
qed

text \<open>
  Claim C7.  When the existence check of \<^verbatim>\<open>create_dir\<close> succeeds, the function returns 0
  and changes nothing: the file table (so the ownership and mode of the directory) and
  the umask are as before, the only calls made are the cache invalidation, the lookup
  and a debug message (no mkdir, no chown, no umask), and a second call, with whatever
  owner and mode, leaves the file table as it was as well.
\<close>

theorem create_dir_existing_untouched:
  assumes "fst (pr_fsio_stat dir w) = Inr st"
  shows "fst (create_dir dir uid gid mode w) = 0 \<and>
         fs (snd (create_dir dir uid gid mode w)) = fs w \<and>
         cur_umask (snd (create_dir dir uid gid mode w)) = cur_umask w \<and>
         added w (snd (create_dir dir uid gid mode w)) =
           [Call_create_dir dir uid gid mode, Ev_clear_cache, Ev_stat dir,
            Ev_log DEBUG3 ''CreateHome: already exists'' dir] \<and>
         fs (snd (create_dir dir uid' gid' mode' (snd (create_dir dir uid gid mode w)))) = fs w"
proof -
  have "lookup w dir \<noteq> None" using assms by (rule stat_ok_lookup)
  then have "lookup (snd (create_dir dir uid gid mode w)) dir \<noteq> None"
    by (simp add: lookup_def create_dir_existing(2) [OF assms])
  then have "fs (snd (create_dir dir uid' gid' mode' (snd (create_dir dir uid gid mode w))))
      = fs (snd (create_dir dir uid gid mode w))"
    by (rule create_dir_keeps_existing)
  then show ?thesis
    using create_dir_existing [OF assms, of uid gid mode] by simp
qed

theorem create_dir_existing_untouched_witness:
  "fst (pr_fsio_stat ''/'' w_root) = Inr \<lparr>st_mode = 0x41ED, st_uid = 0, st_gid = 0\<rparr> \<and>
   fst (create_dir ''/'' 1001 1001 0x1ED w_root) = 0 \<and>
   fs (snd (create_dir ''/'' 1001 1001 0x1ED w_root)) = fs w_root \<and>
   cur_umask (snd (create_dir ''/'' 1001 1001 0x1ED w_root)) = cur_umask w_root \<and>
   added w_root (snd (create_dir ''/'' 1001 1001 0x1ED w_root)) =
     [Call_create_dir ''/'' 1001 1001 0x1ED, Ev_clear_cache, Ev_stat ''/'',
      Ev_log DEBUG3 ''CreateHome: already exists'' ''/''] \<and>
   fs (snd (create_dir ''/'' 0 0 0x1C9 (snd (create_dir ''/'' 1001 1001 0x1ED w_root)))) = fs w_root"
proof -
  have h: "fst (pr_fsio_stat ''/'' w_root) = Inr \<lparr>st_mode = 0x41ED, st_uid = 0, st_gid = 0\<rparr>"
    by (simp add: prim_defs w_root_def)
  show ?thesis
    using h create_dir_existing_untouched [OF h, of 1001 1001 "0x1ED" 0 0 "0x1C9"]
    by simp
qed

lemma create_dir_mask_after:
  assumes "fst (pr_fsio_stat dir w) = Inl ENOENT"
  shows "cur_umask (snd (create_dir dir uid gid mode w)) =
           (if fst (create_dir dir uid gid mode w) = 0 then cur_umask w else 0)"
  by (simp add: create_dir_cases(3) [OF assms] Let_def)

text \<open>
  Claim C5 (not met by the code).  On a machine with umask 022 where \<^verbatim>\<open>/srv\<close> does not
  exist, \<^verbatim>\<open>create_dir\<close> of \<^verbatim>\<open>/srv/ftp\<close> zeroes the umask, fails in mkdir, and returns -1
  with the umask still zero: the early return skips \<^verbatim>\<open>umask(prevmask)\<close>.
\<close>

theorem create_dir_failure_leaves_umask_zero:
  "cur_umask w_root = 0x12 \<and>
   fst (create_dir ''/srv/ftp'' 1001 1001 0x1ED w_root) = - 1 \<and>
   cur_umask (snd (create_dir ''/srv/ftp'' 1001 1001 0x1ED w_root)) = 0 \<and>
   added w_root (snd (create_dir ''/srv/ftp'' 1001 1001 0x1ED w_root)) =
     [Call_create_dir ''/srv/ftp'' 1001 1001 0x1ED, Ev_clear_cache, Ev_stat ''/srv/ftp'',
      Ev_umask 0, Ev_mkdir ''/srv/ftp'' 0x1ED, Ev_log PR_LOG_WARNING ''error creating'' ''/srv/ftp'']"
  by (simp add: create_dir_def prim_defs w_root_def added_def)

subsection \<open>The entries of a skeleton directory\<close>

lemma excl_flags [simp]:
  "(O_WRONLY OR O_CREAT OR O_EXCL) AND O_CREAT \<noteq> 0"
  "(O_WRONLY OR O_CREAT OR O_EXCL) AND O_EXCL \<noteq> 0"
  "O_RDONLY AND O_CREAT = 0"
  by (simp_all add: O_WRONLY_def O_CREAT_def O_EXCL_def O_RDONLY_def)

lemma open_rdonly_frame [simp]: "fs (snd (pr_fsio_open p O_RDONLY w)) = fs w"
  by (auto simp: pr_fsio_open_def split: prod.splits option.splits dest!: next_fault_eq)

lemma open_excl_existing:
  assumes "lookup w p \<noteq> None"
  shows "fst (pr_fsio_open p (O_WRONLY OR O_CREAT OR O_EXCL) w) = None"
    and "fs (snd (pr_fsio_open p (O_WRONLY OR O_CREAT OR O_EXCL) w)) = fs w"
proof -
  let ?fl = "O_WRONLY OR O_CREAT OR O_EXCL"
  obtain f w1 where nf: "next_fault (emit (Ev_open p ?fl) w) = (f, w1)"
    by (cases "next_fault (emit (Ev_open p ?fl) w)")
  then have w1: "w1 = snd (next_fault (emit (Ev_open p ?fl) w))" by simp
  have l: "lookup w1 p \<noteq> None" using assms by (simp add: w1)
  have "pr_fsio_open p ?fl w = (None, w1)"
    using l by (cases f) (auto simp: pr_fsio_open_def nf)
  then show "fst (pr_fsio_open p ?fl w) = None" and "fs (snd (pr_fsio_open p ?fl w)) = fs w"
    by (simp_all add: w1)
qed

lemma close_frame [simp]: "fs (snd (pr_fsio_close fh w)) = fs w"
  by (auto simp: pr_fsio_close_def split: prod.splits option.splits dest!: next_fault_eq)

lemma open_fh_path: "pr_fsio_open p fl w = (Some fh, w1) \<Longrightarrow> fh_path fh = p"
  by (auto simp: pr_fsio_open_def split: prod.splits option.splits if_splits)

lemma copy_file_existing_dst:
  assumes "lookup w dst \<noteq> None"
  shows "fst (copy_file src dst uid gid mode w) = - 1"
    and "fs (snd (copy_file src dst uid gid mode w)) = fs w"
    and "added w (snd (copy_file src dst uid gid mode w)) =
          (if fst (pr_fsio_open src O_RDONLY (emit (Call_copy_file src dst uid gid mode) w)) = None
           then [Call_copy_file src dst uid gid mode, Ev_open src O_RDONLY,
                 Ev_log DEBUG2 ''CreateHome: trouble with'' src]
           else [Call_copy_file src dst uid gid mode, Ev_open src O_RDONLY,
                 Ev_open dst (O_WRONLY OR O_CREAT OR O_EXCL),
                 Ev_log DEBUG2 ''CreateHome: trouble with'' dst, Ev_close src])"
proof -
  let ?w0 = "emit (Call_copy_file src dst uid gid mode) w"
  let ?fl = "O_WRONLY OR O_CREAT OR O_EXCL"
  obtain r1 w1 where o1: "pr_fsio_open src O_RDONLY ?w0 = (r1, w1)"
    by (cases "pr_fsio_open src O_RDONLY ?w0")
  then have w1: "w1 = snd (pr_fsio_open src O_RDONLY ?w0)" by simp
  have fs1: "fs w1 = fs w" by (simp add: w1)
  have t1: "trace w1 = trace w @ [Call_copy_file src dst uid gid mode, Ev_open src O_RDONLY]"
    by (simp add: w1)
  have l1: "lookup w1 dst \<noteq> None" using assms by (simp add: lookup_def fs1)
  obtain r2 w2 where o2: "pr_fsio_open dst ?fl w1 = (r2, w2)"
    by (cases "pr_fsio_open dst ?fl w1")
  then have w2: "w2 = snd (pr_fsio_open dst ?fl w1)" by simp
  have r2: "r2 = None" using open_excl_existing(1) [OF l1] o2 by simp
  have fs2: "fs w2 = fs w" using open_excl_existing(2) [OF l1] fs1 by (simp add: w2)
  have t2: "trace w2 = trace w1 @ [Ev_open dst ?fl]" by (simp add: w2)
  show "fst (copy_file src dst uid gid mode w) = - 1"
    by (cases r1) (simp_all add: copy_file_def Let_def o1 o2 r2)
  show "fs (snd (copy_file src dst uid gid mode w)) = fs w"
    by (cases r1) (simp_all add: copy_file_def Let_def o1 o2 r2 fs1 fs2)
  have "trace (snd (copy_file src dst uid gid mode w)) = trace w @
          (if r1 = None
           then [Call_copy_file src dst uid gid mode, Ev_open src O_RDONLY,
                 Ev_log DEBUG2 ''CreateHome: trouble with'' src]
           else [Call_copy_file src dst uid gid mode, Ev_open src O_RDONLY,
                 Ev_open dst ?fl,
                 Ev_log DEBUG2 ''CreateHome: trouble with'' dst, Ev_close src])"
    using open_fh_path [of src O_RDONLY ?w0 _ w1] o1
    by (cases r1) (simp_all add: copy_file_def Let_def o1 o2 r2 t1 t2)
  then show "added w (snd (copy_file src dst uid gid mode w)) =
          (if fst (pr_fsio_open src O_RDONLY ?w0) = None
           then [Call_copy_file src dst uid gid mode, Ev_open src O_RDONLY,
                 Ev_log DEBUG2 ''CreateHome: trouble with'' src]
           else [Call_copy_file src dst uid gid mode, Ev_open src O_RDONLY,
                 Ev_open dst ?fl,
                 Ev_log DEBUG2 ''CreateHome: trouble with'' dst, Ev_close src])"
    by (simp add: o1)
qed

lemma strip_setid:
  "(if (if m AND S_ISUID \<noteq> 0 then m AND NOT S_ISUID else m) AND S_ISGID \<noteq> 0
    then (if m AND S_ISUID \<noteq> 0 then m AND NOT S_ISUID else m) AND NOT S_ISGID
    else (if m AND S_ISUID \<noteq> 0 then m AND NOT S_ISUID else m))
   = m AND NOT (S_ISUID OR S_ISGID)"
  by (auto simp: bit_eq_iff bit_simps)

lemma isreg_not_isdir: "S_ISREG m \<Longrightarrow> \<not> S_ISDIR m"
  by (auto simp: S_ISREG_def S_ISDIR_def S_IFREG_def S_IFDIR_def)

lemma islnk_not_isdir: "S_ISLNK m \<Longrightarrow> \<not> S_ISDIR m \<and> \<not> S_ISREG m"
  by (auto simp: S_ISREG_def S_ISDIR_def S_ISLNK_def S_IFLNK_def S_IFREG_def S_IFDIR_def)

lemma copy_dir_loop_regular:
  assumes "d_name \<noteq> ''.''" and "d_name \<noteq> ''..''"
    and "fst (pr_fsio_lstat (pdircat src_dir d_name) (pr_signals_handle w)) = Inr st"
    and "S_ISREG (st_mode st)"
  shows "copy_dir_loop n (d_name # dh) src_dir dst_dir uid gid w =
         copy_dir_loop n dh src_dir dst_dir uid gid
           (snd (copy_file (pdircat src_dir d_name) (pdircat dst_dir d_name) uid gid
                   (st_mode st AND NOT (S_ISUID OR S_ISGID))
                   (snd (pr_fsio_lstat (pdircat src_dir d_name) (pr_signals_handle w)))))"
proof -
  obtain w1 where l: "pr_fsio_lstat (pdircat src_dir d_name) (pr_signals_handle w) = (Inr st, w1)"
    using assms(3) by (cases "pr_fsio_lstat (pdircat src_dir d_name) (pr_signals_handle w)") simp
  have "copy_dir_loop n (d_name # dh) src_dir dst_dir uid gid w =
         copy_dir_loop n dh src_dir dst_dir uid gid
           (snd (copy_file (pdircat src_dir d_name) (pdircat dst_dir d_name) uid gid
                   (st_mode st AND NOT (S_ISUID OR S_ISGID)) w1))"
    using assms(1,2,4) isreg_not_isdir [OF assms(4)]
    by (simp add: Let_def l strip_setid [of "st_mode st"] del: bit.de_Morgan_disj)
  then show ?thesis by (simp add: l)
qed

lemma lstat_fs [simp]: "lookup (snd (pr_fsio_lstat p w)) q = lookup w q"
  by (simp add: lookup_def)

subsection \<open>What \<^verbatim>\<open>copy_file\<close> leaves in the file table\<close>

lemma map_of_store: "map_of (store k v l) k' = (if k' = k then Some v else map_of l k')"
  by (induction l) auto

lemma lookup_put: "lookup (put p n w) q = (if components q = components p then Some n else lookup w q)"
  by (simp add: lookup_def put_def map_of_store)

lemma lookup_same: "components q = components p \<Longrightarrow> lookup w q = lookup w p"
  by (simp add: lookup_def)

lemma plain_at_fs: "fs w' = fs w \<Longrightarrow> plain_at w' p = plain_at w p"
  by (simp add: plain_at_def lookup_def)

lemma plain_at_misc [simp]:
  "plain_at (emit e w) p = plain_at w p"
  "plain_at (snd (next_fault w)) p = plain_at w p"
  "plain_at (pr_log_pri l ms a w) p = plain_at w p"
  "plain_at (pr_log_debug l ms a w) p = plain_at w p"
  "plain_at (pr_signals_handle w) p = plain_at w p"
  "plain_at (snd (pr_fsio_close fh w)) p = plain_at w p"
  by (simp_all add: plain_at_def lookup_def)

lemma plain_at_put:
  assumes "plain_at w d" and "lookup w p = Some n"
    and "i_mode n' AND (S_ISUID OR S_ISGID) = i_mode n AND (S_ISUID OR S_ISGID)"
  shows "plain_at (put p n' w) d"
proof (cases "components d = components p")
  case True
  then have "lookup w d = Some n" using assms(2) lookup_same [of d p w] by simp
  with assms(1,3) True show ?thesis by (simp add: plain_at_def lookup_put)
next
  case False
  with assms(1) show ?thesis by (simp add: plain_at_def lookup_put)
qed

lemma plain_at_truncate: "plain_at w d \<Longrightarrow> plain_at (snd (pr_fsio_truncate p len w)) d"
proof -
  assume a: "plain_at w d"
  obtain f w1 where nf: "next_fault (emit (Ev_truncate p len) w) = (f, w1)"
    by (cases "next_fault (emit (Ev_truncate p len) w)")
  then have w1: "w1 = snd (next_fault (emit (Ev_truncate p len) w))" by simp
  have p1: "plain_at w1 d" using a by (simp add: w1)
  show ?thesis
    using p1 by (cases f; cases "lookup w1 p") (auto simp: pr_fsio_truncate_def nf intro: plain_at_put)
qed

lemma plain_at_write: "plain_at w d \<Longrightarrow> plain_at (snd (pr_fsio_write fh b w)) d"
proof -
  assume a: "plain_at w d"
  obtain f w1 where nf: "next_fault (emit (Ev_write (fh_path fh) b) w) = (f, w1)"
    by (cases "next_fault (emit (Ev_write (fh_path fh) b) w)")
  then have w1: "w1 = snd (next_fault (emit (Ev_write (fh_path fh) b) w))" by simp
  have p1: "plain_at w1 d" using a by (simp add: w1)
  show ?thesis
    using p1 by (cases f; cases "lookup w1 (fh_path fh)")
      (auto simp: pr_fsio_write_def nf intro: plain_at_put)
qed

lemma plain_at_read: "plain_at (snd (snd (snd (pr_fsio_read fh n w)))) d = plain_at w d"
proof -
  have "fs (snd (snd (snd (pr_fsio_read fh n w)))) = fs w"
    by (auto simp: pr_fsio_read_def split: prod.splits option.splits dest!: next_fault_eq)
  then show ?thesis by (rule plain_at_fs)
qed

lemma plain_at_chown: "plain_at w d \<Longrightarrow> plain_at (snd (pr_fsio_chown p u g w)) d"
proof -
  assume a: "plain_at w d"
  obtain f w1 where nf: "next_fault (emit (Ev_chown p u g) w) = (f, w1)"
    by (cases "next_fault (emit (Ev_chown p u g) w)")
  then have w1: "w1 = snd (next_fault (emit (Ev_chown p u g) w))" by simp
  have p1: "plain_at w1 d" using a by (simp add: w1)
  show ?thesis
    using p1 by (cases f; cases "lookup w1 p") (auto simp: pr_fsio_chown_def nf intro: plain_at_put)
qed

lemma chmod_bits:
  "m AND (S_ISUID OR S_ISGID) = 0 \<Longrightarrow>
   ((k AND S_IFMT) OR (m AND 0xFFF)) AND (S_ISUID OR S_ISGID) = (0 :: mode_t)"
proof -
  assume a: "m AND (S_ISUID OR S_ISGID) = 0"
  have "(k AND S_IFMT) AND (S_ISUID OR S_ISGID) = 0"
    by (simp add: S_IFMT_def S_ISUID_def S_ISGID_def word_bw_assocs)
  moreover have "(m AND 0xFFF) AND (S_ISUID OR S_ISGID) = (m AND (S_ISUID OR S_ISGID)) AND 0xFFF"
    by (simp add: ac_simps)
  ultimately show ?thesis using a by (simp add: bit.conj_disj_distrib2 del: bit.de_Morgan_disj)
qed

lemma plain_at_chmod:
  assumes "plain_at w d" and "m AND (S_ISUID OR S_ISGID) = 0"
  shows "plain_at (snd (pr_fsio_chmod p m w)) d"
proof -
  obtain f w1 where nf: "next_fault (emit (Ev_chmod p m) w) = (f, w1)"
    by (cases "next_fault (emit (Ev_chmod p m) w)")
  then have w1: "w1 = snd (next_fault (emit (Ev_chmod p m) w))" by simp
  have p1: "plain_at w1 d" using assms(1) by (simp add: w1)
  show ?thesis
  proof (cases "f = None \<and> lookup w1 p \<noteq> None")
    case False
    then show ?thesis using p1 by (cases f; cases "lookup w1 p") (auto simp: pr_fsio_chmod_def nf)
  next
    case True
    then obtain n where n: "lookup w1 p = Some n" by auto
    have eq: "pr_fsio_chmod p m w =
        (0, put p (n\<lparr>i_mode := (i_mode n AND S_IFMT) OR (m AND 0xFFF)\<rparr>) w1)"
      using True n by (simp add: pr_fsio_chmod_def nf)
    show ?thesis
    proof (cases "components d = components p")
      case True
      then show ?thesis using chmod_bits [OF assms(2)]
        by (simp add: eq plain_at_def lookup_put del: bit.de_Morgan_disj)
    next
      case False
      then show ?thesis using p1 by (simp add: eq plain_at_def lookup_put)
    qed
  qed
qed


lemma plain_at_copy_file_loop:
  "plain_at w d \<Longrightarrow> plain_at (copy_file_loop src_fh dst_fh dst w) d"
proof (induction src_fh dst_fh dst w rule: copy_file_loop.induct)
  case (1 src_fh dst_fh dst w)
  obtain res buf fh' w1 where rd: "pr_fsio_read src_fh PR_TUNABLE_BUFFER_SIZE w = (res, buf, fh', w1)"
    by (cases "pr_fsio_read src_fh PR_TUNABLE_BUFFER_SIZE w") auto
  then have p1: "plain_at w1 d"
    using plain_at_read [of src_fh PR_TUNABLE_BUFFER_SIZE w d] "1.prems" by simp
  obtain wres w2 where wr: "pr_fsio_write dst_fh buf w1 = (wres, w2)"
    by (cases "pr_fsio_write dst_fh buf w1")
  then have p2: "plain_at w2 d"
    using plain_at_write [OF p1, of dst_fh buf] by simp
  show ?case
  proof (cases "0 < res \<and> wres = res")
    case True
    from "1.IH" [of res "(buf, fh', w1)" buf "(fh', w1)" fh' w1 wres w2] True rd wr p2
    have "plain_at (copy_file_loop fh' dst_fh dst (pr_signals_handle w2)) d"
      by simp
    with True rd wr show ?thesis
      by (subst copy_file_loop.simps) simp
  next
    case False
    with rd wr p1 p2 show ?thesis
      by (subst copy_file_loop.simps) auto
  qed
qed

lemma open_mode_bits:
  "(S_IFREG OR (0x1B6 AND NOT um)) AND (S_ISUID OR S_ISGID) = (0 :: mode_t)"
proof -
  have "(0x1B6 AND NOT um) AND (S_ISUID OR S_ISGID) = NOT um AND ((0x1B6 :: mode_t) AND (S_ISUID OR S_ISGID))"
    by (simp add: ac_simps)
  also have "\<dots> = 0" by (simp add: S_ISUID_def S_ISGID_def)
  finally show ?thesis
    by (simp add: bit.conj_disj_distrib2 S_IFREG_def S_ISUID_def S_ISGID_def del: bit.de_Morgan_disj)
qed

lemma open_excl_created:
  assumes "pr_fsio_open p (O_WRONLY OR O_CREAT OR O_EXCL) w = (Some fh, w')"
  shows "plain_at w' p"
proof -
  let ?fl = "O_WRONLY OR O_CREAT OR O_EXCL"
  obtain f w1 where nf: "next_fault (emit (Ev_open p ?fl) w) = (f, w1)"
    by (cases "next_fault (emit (Ev_open p ?fl) w)")
  from assms have "f = None" by (cases f) (simp_all add: pr_fsio_open_def nf)
  moreover from assms this have "lookup w1 p = None"
    by (cases "lookup w1 p") (simp_all add: pr_fsio_open_def nf)
  ultimately have "w' = put p (new_inode w1 (S_IFREG OR (0x1B6 AND NOT (cur_umask w1))) []) w1"
    using assms by (simp add: pr_fsio_open_def nf split: if_splits)
  then show ?thesis
    using open_mode_bits [of "cur_umask w1"]
    by (simp add: plain_at_def lookup_put new_inode_def del: bit.de_Morgan_disj)
qed

lemma copy_file_result:
  "fst (copy_file src dst uid gid mode w) =
     (if fst (pr_fsio_open src O_RDONLY (emit (Call_copy_file src dst uid gid mode) w)) = None \<or>
         fst (pr_fsio_open dst (O_WRONLY OR O_CREAT OR O_EXCL)
                (snd (pr_fsio_open src O_RDONLY (emit (Call_copy_file src dst uid gid mode) w)))) = None
      then - 1 else 0)"
  by (simp add: copy_file_def Let_def case_prod_beta split: option.splits)

lemma copy_file_plain:
  assumes "fst (copy_file src dst uid gid mode w) = 0"
    and "mode AND (S_ISUID OR S_ISGID) = 0"
  shows "plain_at (snd (copy_file src dst uid gid mode w)) dst"
proof -
  let ?w0 = "emit (Call_copy_file src dst uid gid mode) w"
  obtain r1 w1 where o1: "pr_fsio_open src O_RDONLY ?w0 = (r1, w1)"
    by (cases "pr_fsio_open src O_RDONLY ?w0")
  obtain r2 w2 where o2: "pr_fsio_open dst (O_WRONLY OR O_CREAT OR O_EXCL) w1 = (r2, w2)"
    by (cases "pr_fsio_open dst (O_WRONLY OR O_CREAT OR O_EXCL) w1")
  from assms(1) o1 o2 obtain src_fh dst_fh where r: "r1 = Some src_fh" "r2 = Some dst_fh"
    by (auto simp: copy_file_result split: if_splits)
  have p2: "plain_at w2 dst" using open_excl_created o2 r(2) by simp
  let ?w3 = "snd (pr_fsio_truncate dst 0 w2)"
  let ?w4 = "copy_file_loop src_fh dst_fh dst ?w3"
  let ?w5 = "snd (pr_fsio_chown dst uid gid ?w4)"
  let ?w6 = "snd (pr_fsio_chmod dst mode
                (if fst (pr_fsio_chown dst uid gid ?w4) < 0
                 then pr_log_pri PR_LOG_WARNING ''CreateHome: error chowning'' dst ?w5 else ?w5))"
  have p4: "plain_at ?w4 dst"
    by (intro plain_at_copy_file_loop plain_at_truncate p2)
  have p5: "plain_at (if fst (pr_fsio_chown dst uid gid ?w4) < 0
                 then pr_log_pri PR_LOG_WARNING ''CreateHome: error chowning'' dst ?w5 else ?w5) dst"
    using plain_at_chown [OF p4, of dst uid gid] by simp
  have p6: "plain_at ?w6 dst"
    by (rule plain_at_chmod [OF p5 assms(2)])
  show ?thesis
    using p6 o1 o2 r
    by (simp add: copy_file_def Let_def case_prod_beta)
qed


lemma next_fault_none: "faults w = [] \<Longrightarrow> next_fault w = (None, w)"
  by (simp add: next_fault_def)

lemma store_store: "store k v' (store k v l) = store k v' l"
  by (induction l) auto

lemma store_same: "map_of l k = Some v \<Longrightarrow> store k v l = l"
  by (induction l) (auto split: if_splits)

lemma fs_put [simp]: "fs (put p n w) = store (components p) n (fs w)"
  by (simp add: put_def)

lemma faults_misc [simp]:
  "faults (pr_log_pri l ms a w) = faults w"
  "faults (pr_log_debug l ms a w) = faults w"
  "faults (pr_signals_handle w) = faults w"
  "faults (pr_fs_clear_cache w) = faults w"
  by (simp_all add: pr_log_pri_def pr_log_debug_def pr_signals_handle_def pr_fs_clear_cache_def)

lemma read_nf:
  assumes "faults w = []"
  shows "pr_fsio_read fh k w =
           (int (length (take k (fh_buf fh))), take k (fh_buf fh), fh\<lparr>fh_buf := drop k (fh_buf fh)\<rparr>,
            emit (Ev_read (fh_path fh) k) w)"
  using assms by (simp add: pr_fsio_read_def next_fault_none)

lemma write_nf:
  assumes "faults w = []" and "lookup w (fh_path fh) = Some n"
  shows "pr_fsio_write fh b w =
           (int (length b), put (fh_path fh) (n\<lparr>i_data := i_data n @ b\<rparr>) (emit (Ev_write (fh_path fh) b) w))"
  using assms by (simp add: pr_fsio_write_def next_fault_none)

lemma copy_file_loop_nf:
  assumes "faults w = []" and "lookup w (fh_path dst_fh) = Some n"
  shows "fs (copy_file_loop src_fh dst_fh dst w) =
           store (components (fh_path dst_fh)) (n\<lparr>i_data := i_data n @ fh_buf src_fh\<rparr>) (fs w) \<and>
         faults (copy_file_loop src_fh dst_fh dst w) = []"
  using assms
proof (induction src_fh dst_fh dst w arbitrary: n rule: copy_file_loop.induct)
  case (1 src_fh dst_fh dst w)
  let ?k = PR_TUNABLE_BUFFER_SIZE
  let ?chunk = "take ?k (fh_buf src_fh)"
  let ?fh' = "src_fh\<lparr>fh_buf := drop ?k (fh_buf src_fh)\<rparr>"
  let ?w1 = "emit (Ev_read (fh_path src_fh) ?k) w"
  let ?n' = "n\<lparr>i_data := i_data n @ ?chunk\<rparr>"
  let ?w2 = "put (fh_path dst_fh) ?n' (emit (Ev_write (fh_path dst_fh) ?chunk) ?w1)"
  have rd: "pr_fsio_read src_fh ?k w = (int (length ?chunk), ?chunk, ?fh', ?w1)"
    by (rule read_nf [OF "1.prems"(1)])
  have wr: "pr_fsio_write dst_fh ?chunk ?w1 = (int (length ?chunk), ?w2)"
    by (rule write_nf) (simp_all add: "1.prems")
  show ?case
  proof (cases "fh_buf src_fh = []")
    case True
    have "store (components (fh_path dst_fh)) n (fs w) = fs w"
      using "1.prems"(2) by (intro store_same) (simp add: lookup_def)
    with True rd "1.prems"(1) show ?thesis
      by (subst (1 2) copy_file_loop.simps) simp
  next
    case False
    then have pos: "0 < int (length ?chunk)" by (simp add: PR_TUNABLE_BUFFER_SIZE_def)
    have ih: "fs (copy_file_loop ?fh' dst_fh dst (pr_signals_handle ?w2)) =
           store (components (fh_path dst_fh)) (?n'\<lparr>i_data := i_data ?n' @ fh_buf ?fh'\<rparr>)
             (fs (pr_signals_handle ?w2)) \<and>
         faults (copy_file_loop ?fh' dst_fh dst (pr_signals_handle ?w2)) = []"
      using "1.IH" [of "int (length ?chunk)" "(?chunk, ?fh', ?w1)" ?chunk "(?fh', ?w1)" ?fh' ?w1
                       "int (length ?chunk)" ?w2 ?n'] pos rd wr "1.prems"
      by (simp add: lookup_put)
    have unf: "copy_file_loop src_fh dst_fh dst w =
               copy_file_loop ?fh' dst_fh dst (pr_signals_handle ?w2)"
      using pos rd wr by (subst copy_file_loop.simps) simp
    show ?thesis
      unfolding unf using ih by (simp add: store_store)
  qed
qed

lemma open_read_nf:
  assumes "faults w = []" and "lookup w p = Some n"
  shows "pr_fsio_open p O_RDONLY w = (Some \<lparr>fh_path = p, fh_buf = i_data n\<rparr>, emit (Ev_open p O_RDONLY) w)"
  using assms by (simp add: pr_fsio_open_def next_fault_none)

lemma open_excl_nf:
  assumes "faults w = []" and "lookup w p = None" and "parent_ok w p"
  shows "pr_fsio_open p (O_WRONLY OR O_CREAT OR O_EXCL) w =
           (Some \<lparr>fh_path = p, fh_buf = []\<rparr>,
            put p (new_inode w (S_IFREG OR (0x1B6 AND NOT (cur_umask w))) [])
              (emit (Ev_open p (O_WRONLY OR O_CREAT OR O_EXCL)) w))"
  using assms by (simp add: pr_fsio_open_def next_fault_none new_inode_def)

lemma truncate_nf:
  assumes "faults w = []" and "lookup w p = Some n"
  shows "pr_fsio_truncate p len w =
           (0, put p (n\<lparr>i_data := take len (i_data n)\<rparr>) (emit (Ev_truncate p len) w))"
  using assms by (simp add: pr_fsio_truncate_def next_fault_none)

lemma chown_nf:
  assumes "faults w = []" and "lookup w p = Some n"
  shows "pr_fsio_chown p u g w = (0, put p (n\<lparr>i_uid := u, i_gid := g\<rparr>) (emit (Ev_chown p u g) w))"
  using assms by (simp add: pr_fsio_chown_def next_fault_none)

lemma chmod_nf:
  assumes "faults w = []" and "lookup w p = Some n"
  shows "pr_fsio_chmod p m w =
           (0, put p (n\<lparr>i_mode := (i_mode n AND S_IFMT) OR (m AND 0xFFF)\<rparr>) (emit (Ev_chmod p m) w))"
  using assms by (simp add: pr_fsio_chmod_def next_fault_none)

lemma close_nf: "faults w = [] \<Longrightarrow> pr_fsio_close fh w = (0, emit (Ev_close (fh_path fh)) w)"
  by (simp add: pr_fsio_close_def next_fault_none)

lemma lookup_store: "fs w' = store (components p) n (fs w) \<Longrightarrow> lookup w' p = Some n"
  by (simp add: lookup_def map_of_store)

lemma created_mode_bits:
  "((S_IFREG OR (0x1B6 AND NOT um)) AND S_IFMT) OR (m AND 0xFFF) = S_IFREG OR (m AND (0xFFF :: mode_t))"
proof -
  have "(0x1B6 AND NOT um) AND S_IFMT = NOT um AND ((0x1B6 :: mode_t) AND S_IFMT)"
    by (simp add: ac_simps)
  also have "\<dots> = 0" by (simp add: S_IFMT_def)
  finally show ?thesis
    by (simp add: bit.conj_disj_distrib2 S_IFREG_def S_IFMT_def)
qed


lemma new_inode_emit [simp]: "new_inode (emit e w) m d = new_inode w m d"
  by (simp add: new_inode_def)

lemma copy_file_copies:
  assumes "faults w = []" and "lookup w src = Some n" and "lookup w dst = None"
    and "parent_ok w dst"
  shows "fst (copy_file src dst uid gid mode w) = 0 \<and>
         fs (snd (copy_file src dst uid gid mode w)) =
           store (components dst)
             \<lparr>i_mode = S_IFREG OR (mode AND 0xFFF), i_uid = uid, i_gid = gid, i_data = i_data n\<rparr>
             (fs w) \<and>
         faults (snd (copy_file src dst uid gid mode w)) = []"
proof -
  let ?fl = "O_WRONLY OR O_CREAT OR O_EXCL"
  let ?k = "components dst"
  let ?sfh = "\<lparr>fh_path = src, fh_buf = i_data n\<rparr>"
  let ?dfh = "\<lparr>fh_path = dst, fh_buf = []\<rparr>"
  let ?w0 = "emit (Call_copy_file src dst uid gid mode) w"
  let ?w1 = "emit (Ev_open src O_RDONLY) ?w0"
  let ?m0 = "S_IFREG OR (0x1B6 AND NOT (cur_umask w))"
  let ?n0 = "new_inode w ?m0 []"
  let ?w2 = "put dst (new_inode ?w1 (S_IFREG OR (0x1B6 AND NOT (cur_umask ?w1))) []) (emit (Ev_open dst ?fl) ?w1)"
  have o1: "pr_fsio_open src O_RDONLY ?w0 = (Some ?sfh, ?w1)"
    by (rule open_read_nf) (simp_all add: assms)
  have o2: "pr_fsio_open dst ?fl ?w1 = (Some ?dfh, ?w2)"
    by (rule open_excl_nf) (simp_all add: assms)
  have f2: "faults ?w2 = []" "fs ?w2 = store ?k ?n0 (fs w)" "lookup ?w2 dst = Some ?n0"
    by (simp_all add: assms lookup_put del: bit.de_Morgan_disj)
  define w3 where "w3 = snd (pr_fsio_truncate dst 0 ?w2)"
  have f3: "faults w3 = []" "fs w3 = store ?k ?n0 (fs w)" "lookup w3 dst = Some ?n0"
    unfolding w3_def truncate_nf [OF f2(1) f2(3)]
    by (simp_all add: assms lookup_put store_store new_inode_def del: bit.de_Morgan_disj)
  define w4 where "w4 = copy_file_loop ?sfh ?dfh dst w3"
  let ?n4 = "?n0\<lparr>i_data := i_data n\<rparr>"
  have f4: "faults w4 = []" "fs w4 = store ?k ?n4 (fs w)"
    using copy_file_loop_nf [of w3 ?dfh ?n0 ?sfh dst] f3
    by (simp_all add: w4_def store_store new_inode_def del: bit.de_Morgan_disj)
  have l4: "lookup w4 dst = Some ?n4" by (rule lookup_store [OF f4(2)])
  let ?n5 = "?n4\<lparr>i_uid := uid, i_gid := gid\<rparr>"
  let ?w5 = "put dst ?n5 (emit (Ev_chown dst uid gid) w4)"
  have c5: "pr_fsio_chown dst uid gid w4 = (0, ?w5)"
    by (rule chown_nf [OF f4(1) l4])
  have f5: "faults ?w5 = []" "lookup ?w5 dst = Some ?n5"
    by (simp_all add: f4 lookup_put)
  let ?n6 = "?n5\<lparr>i_mode := (i_mode ?n5 AND S_IFMT) OR (mode AND 0xFFF)\<rparr>"
  let ?w6 = "put dst ?n6 (emit (Ev_chmod dst mode) ?w5)"
  have c6: "pr_fsio_chmod dst mode ?w5 = (0, ?w6)"
    by (rule chmod_nf [OF f5])
  let ?w7 = "emit (Ev_close src) ?w6"
  let ?w8 = "emit (Ev_close dst) ?w7"
  have c7: "pr_fsio_close ?sfh ?w6 = (0, ?w7)"
    using close_nf [of ?w6 ?sfh] by (simp add: f4)
  have c8: "pr_fsio_close ?dfh ?w7 = (0, ?w8)"
    using close_nf [of ?w7 ?dfh] by (simp add: f4)
  have res: "copy_file src dst uid gid mode w = (0, ?w8)"
    by (simp only: copy_file_def Let_def o1 o2 prod.case option.case snd_conv
          less_irrefl if_False w3_def [symmetric] w4_def [symmetric] c5 c6 c7 c8)
  show ?thesis
    unfolding res
    by (simp add: f4 store_store new_inode_def created_mode_bits del: bit.de_Morgan_disj)
qed


lemma faults_nil_open: "faults w = [] \<Longrightarrow> faults (snd (pr_fsio_open p fl w)) = []"
  by (simp add: pr_fsio_open_def next_fault_none split: option.splits)

lemma faults_nil_close: "faults w = [] \<Longrightarrow> faults (snd (pr_fsio_close fh w)) = []"
  by (simp add: pr_fsio_close_def next_fault_none)

lemma copy_file_existing_faults:
  assumes "lookup w dst \<noteq> None" and "faults w = []"
  shows "faults (snd (copy_file src dst uid gid mode w)) = []"
proof -
  let ?w0 = "emit (Call_copy_file src dst uid gid mode) w"
  let ?fl = "O_WRONLY OR O_CREAT OR O_EXCL"
  obtain r1 w1 where o1: "pr_fsio_open src O_RDONLY ?w0 = (r1, w1)"
    by (cases "pr_fsio_open src O_RDONLY ?w0")
  then have w1: "w1 = snd (pr_fsio_open src O_RDONLY ?w0)" by simp
  have f1: "faults w1 = []" unfolding w1 by (rule faults_nil_open) (simp add: assms)
  have l1: "lookup w1 dst \<noteq> None" using assms(1) by (simp add: lookup_def w1)
  obtain r2 w2 where o2: "pr_fsio_open dst ?fl w1 = (r2, w2)"
    by (cases "pr_fsio_open dst ?fl w1")
  then have w2: "w2 = snd (pr_fsio_open dst ?fl w1)" by simp
  have r2: "r2 = None" using open_excl_existing(1) [OF l1] o2 by simp
  have f2: "faults w2 = []" unfolding w2 by (rule faults_nil_open [OF f1])
  show ?thesis
    by (cases r1) (simp_all add: copy_file_def Let_def o1 o2 r2 f1 f2 faults_nil_close)
qed

lemma lstat_nf:
  assumes "faults w = []" and "lookup w p = Some n"
  shows "pr_fsio_lstat p w = (Inr (stat_of n), emit (Ev_lstat p) w)"
  using assms by (simp add: pr_fsio_lstat_def next_fault_none)

lemma parent_ok_signals [simp]: "parent_ok (pr_signals_handle w) p = parent_ok w p"
  by (simp add: pr_signals_handle_def)

lemma copy_dir_loop_copies:
  assumes "d_name \<noteq> ''.''" and "d_name \<noteq> ''..''"
    and "faults w = []"
    and "lookup w (pdircat src_dir d_name) = Some n" and "S_ISREG (i_mode n)"
    and "lookup w (pdircat dst_dir d_name) = None" and "parent_ok w (pdircat dst_dir d_name)"
  shows "\<exists>w'. copy_dir_loop k (d_name # dh) src_dir dst_dir uid gid w =
                copy_dir_loop k dh src_dir dst_dir uid gid w' \<and>
              faults w' = [] \<and>
              fs w' = store (components (pdircat dst_dir d_name))
                        \<lparr>i_mode = S_IFREG OR ((i_mode n AND NOT (S_ISUID OR S_ISGID)) AND 0xFFF),
                         i_uid = uid, i_gid = gid, i_data = i_data n\<rparr> (fs w)"
proof -
  let ?src = "pdircat src_dir d_name"
  let ?dst = "pdircat dst_dir d_name"
  let ?w1 = "emit (Ev_lstat ?src) (pr_signals_handle w)"
  let ?m = "st_mode (stat_of n) AND NOT (S_ISUID OR S_ISGID)"
  have ls: "pr_fsio_lstat ?src (pr_signals_handle w) = (Inr (stat_of n), ?w1)"
    by (rule lstat_nf) (simp_all add: assms)
  have reg: "S_ISREG (st_mode (stat_of n))" using assms(5) by (simp add: stat_of_def)
  have step: "copy_dir_loop k (d_name # dh) src_dir dst_dir uid gid w =
              copy_dir_loop k dh src_dir dst_dir uid gid
                (snd (copy_file ?src ?dst uid gid ?m ?w1))"
    using copy_dir_loop_regular [OF assms(1,2) _ reg, of src_dir w k dh dst_dir uid gid]
    by (simp add: ls del: bit.de_Morgan_disj copy_dir_loop.simps)
  have cp: "fs (snd (copy_file ?src ?dst uid gid ?m ?w1)) =
           store (components ?dst)
             \<lparr>i_mode = S_IFREG OR (?m AND 0xFFF), i_uid = uid, i_gid = gid, i_data = i_data n\<rparr>
             (fs ?w1) \<and>
         faults (snd (copy_file ?src ?dst uid gid ?m ?w1)) = []"
    using copy_file_copies [of ?w1 ?src n ?dst uid gid ?m] assms(3,4,6,7)
    by (simp del: bit.de_Morgan_disj)
  show ?thesis
    using step cp by (intro exI [of _ "snd (copy_file ?src ?dst uid gid ?m ?w1)"])
      (simp add: stat_of_def del: bit.de_Morgan_disj copy_dir_loop.simps)
qed

subsection \<open>The file table after \<^verbatim>\<open>create_path\<close>\<close>

lemma parent_ok_fs: "fs w' = fs w \<Longrightarrow> parent_ok w' p = parent_ok w p"
  by (auto simp: parent_ok_def split: list.splits)

lemma stat_nf:
  assumes "faults w = []"
  shows "pr_fsio_stat p w =
           (case lookup w p of None \<Rightarrow> Inl ENOENT | Some n \<Rightarrow> Inr (stat_of n), emit (Ev_stat p) w)"
  using assms by (simp add: pr_fsio_stat_def next_fault_none split: option.splits)

lemma mkdir_nf:
  assumes "faults w = []" and "lookup w p = None" and "parent_ok w p"
  shows "pr_fsio_mkdir p m w =
           (0, put p (new_inode w (S_IFDIR OR (m AND NOT (cur_umask w) AND mkdir_mode_bits)) [])
                 (emit (Ev_mkdir p m) w))"
  using assms by (simp add: pr_fsio_mkdir_def next_fault_none)

lemma create_dir_nf_existing:
  assumes "faults w = []" and "lookup w dir = Some n"
  shows "fst (create_dir dir uid gid mode w) = 0 \<and>
         fs (snd (create_dir dir uid gid mode w)) = fs w \<and>
         faults (snd (create_dir dir uid gid mode w)) = [] \<and>
         cur_umask (snd (create_dir dir uid gid mode w)) = cur_umask w"
proof -
  let ?w0 = "pr_fs_clear_cache (emit (Call_create_dir dir uid gid mode) w)"
  have "pr_fsio_stat dir ?w0 = (Inr (stat_of n), emit (Ev_stat dir) ?w0)"
    using stat_nf [of ?w0 dir] assms by simp
  then show ?thesis
    using assms(1) by (simp add: create_dir_def Let_def)
qed

lemma create_dir_nf_new:
  assumes "faults w = []" and "lookup w dir = None" and "parent_ok w dir"
  shows "fst (create_dir dir uid gid mode w) = 0 \<and>
         fs (snd (create_dir dir uid gid mode w)) =
           store (components dir)
             \<lparr>i_mode = S_IFDIR OR (mode AND mkdir_mode_bits), i_uid = uid, i_gid = gid, i_data = []\<rparr> (fs w) \<and>
         faults (snd (create_dir dir uid gid mode w)) = [] \<and>
         cur_umask (snd (create_dir dir uid gid mode w)) = cur_umask w"
proof -
  let ?w0 = "pr_fs_clear_cache (emit (Call_create_dir dir uid gid mode) w)"
  let ?w1 = "emit (Ev_stat dir) ?w0"
  let ?w2 = "(emit (Ev_umask 0) ?w1)\<lparr>cur_umask := 0\<rparr>"
  let ?n3 = "new_inode ?w2 (S_IFDIR OR (mode AND NOT (cur_umask ?w2) AND mkdir_mode_bits)) []"
  let ?w3 = "put dir ?n3 (emit (Ev_mkdir dir mode) ?w2)"
  let ?w4 = "put dir (?n3\<lparr>i_uid := uid, i_gid := gid\<rparr>) (emit (Ev_chown dir uid gid) ?w3)"
  have f0: "faults ?w0 = []" "lookup ?w0 dir = None" using assms by simp_all
  have s: "pr_fsio_stat dir ?w0 = (Inl ENOENT, ?w1)"
    using stat_nf [OF f0(1), of dir] f0(2) by simp
  have u: "umask 0 ?w1 = (cur_umask w, ?w2)" by (simp add: umask_def)
  have p2: "faults ?w2 = []" "lookup ?w2 dir = None" "parent_ok ?w2 dir"
    using assms parent_ok_fs [of ?w2 w dir] by (simp_all add: lookup_def)
  have m: "pr_fsio_mkdir dir mode ?w2 = (0, ?w3)"
    by (rule mkdir_nf [OF p2])
  have p3: "faults ?w3 = []" "lookup ?w3 dir = Some ?n3"
    using assms(1) by (simp_all add: lookup_put)
  have c: "pr_fsio_chown dir uid gid ?w3 = (0, ?w4)"
    by (rule chown_nf [OF p3])
  have res: "create_dir dir uid gid mode w =
      (0, pr_log_debug DEBUG6 ''CreateHome: directory created'' dir (snd (umask (cur_umask w) ?w4)))"
    by (simp only: create_dir_def Let_def s u m c prod.case sum.case errno.simps simp_thms if_True if_False
        less_irrefl fst_conv snd_conv case_prod_beta HOL.refl)
  show ?thesis
    unfolding res using assms(1)
    by (simp add: umask_def store_store new_inode_def)
qed

lemma make_dirs_simps [simp]:
  "make_dirs [] w = w"
  "make_dirs (e # evs) w = make_dirs evs (make_dir e w)"
  by (simp_all add: make_dirs_def)

lemma make_dir_fs: "fs w' = fs w \<Longrightarrow> fs (make_dir e w') = fs (make_dir e w)"
  by (cases e) (simp_all add: lookup_def parent_ok_fs [of w' w])

lemma make_dirs_fs: "fs w' = fs w \<Longrightarrow> fs (make_dirs evs w') = fs (make_dirs evs w)"
proof (induction evs arbitrary: w w')
  case Nil
  then show ?case by simp
next
  case (Cons e evs)
  from Cons.IH [OF make_dir_fs [OF Cons.prems, of e]] show ?case by simp
qed

lemma create_dir_nf_refused:
  assumes "faults w = []" and "lookup w dir = None" and "\<not> parent_ok w dir"
  shows "fs (snd (create_dir dir uid gid mode w)) = fs w \<and>
         faults (snd (create_dir dir uid gid mode w)) = []"
proof -
  let ?w0 = "pr_fs_clear_cache (emit (Call_create_dir dir uid gid mode) w)"
  let ?w1 = "emit (Ev_stat dir) ?w0"
  let ?w2 = "(emit (Ev_umask 0) ?w1)\<lparr>cur_umask := 0\<rparr>"
  have f0: "faults ?w0 = []" "lookup ?w0 dir = None" using assms by simp_all
  have s: "pr_fsio_stat dir ?w0 = (Inl ENOENT, ?w1)"
    using stat_nf [OF f0(1), of dir] f0(2) by simp
  have u: "umask 0 ?w1 = (cur_umask w, ?w2)" by (simp add: umask_def)
  have "\<not> parent_ok (emit (Ev_mkdir dir mode) ?w2) dir"
    using assms(3) parent_ok_fs [of "emit (Ev_mkdir dir mode) ?w2" w dir] by simp
  then have m: "pr_fsio_mkdir dir mode ?w2 = (- 1, emit (Ev_mkdir dir mode) ?w2)"
    using assms(1) by (simp add: pr_fsio_mkdir_def next_fault_none)
  have res: "create_dir dir uid gid mode w =
      (- 1, pr_log_pri PR_LOG_WARNING ''error creating'' dir (emit (Ev_mkdir dir mode) ?w2))"
    by (simp add: create_dir_def Let_def s u m)
  show ?thesis
    unfolding res using assms(1) by simp
qed

lemma create_dir_nf:
  assumes "faults w = []"
  shows "fs (snd (create_dir dir uid gid mode w)) = fs (make_dir (Call_create_dir dir uid gid mode) w) \<and>
         faults (snd (create_dir dir uid gid mode w)) = []"
proof (cases "lookup w dir")
  case (Some n)
  with create_dir_nf_existing [OF assms Some, of uid gid mode] show ?thesis by simp
next
  case None
  show ?thesis
  proof (cases "parent_ok w dir")
    case True
    with None create_dir_nf_new [OF assms None True, of uid gid mode] show ?thesis by simp
  next
    case False
    with None create_dir_nf_refused [OF assms None False, of uid gid mode] show ?thesis by simp
  qed
qed

lemma walk_fs:
  assumes "faults w = []"
  shows "fs (create_path_walk t c uid gid dm lm w) =
           fs (make_dirs (expected_calls uid gid dm lm (walk_paths c (tokens_left t))) w) \<and>
         faults (create_path_walk t c uid gid dm lm w) = []"
  using assms
proof (induction t c uid gid dm lm w rule: create_path_walk.induct)
  case (1 t c uid gid dm lm w)
  show ?case
  proof (cases "t = None \<or> t = Some []")
    case True
    then have "create_path_walk t c uid gid dm lm w = w"
      by (subst create_path_walk.simps) auto
    moreover from True have "tokens_left t = []" by (simp add: tokens_left_Nil)
    ultimately show ?thesis using "1.prems" by (simp add: expected_calls_def)
  next
    case False
    then obtain s where t: "t = Some s" and s: "s \<noteq> []" by (cases t) auto
    obtain d t' where sep: "strsep s = (d, t')" by (cases "strsep s")
    define c' where "c' = pdircat c d"
    define lastp where "lastp = (t' = None \<or> t' = Some [])"
    define cu where "cu = (if lastp then uid else 0)"
    define cg where "cg = (if lastp then gid else 0)"
    define cm where "cm = (if lastp then lm else dm)"
    define w1 where "w1 = snd (create_dir c' cu cg cm w)"
    define w2 where "w2 = pr_signals_handle w1"
    have unfold: "create_path_walk t c uid gid dm lm w = create_path_walk t' c' uid gid dm lm w2"
      by (subst create_path_walk.simps)
        (simp add: t s sep c'_def w2_def w1_def cu_def cg_def cm_def lastp_def Let_def)
    have w1eq: "w1 = (if t' = None \<or> t' = Some [] then snd (create_dir c' uid gid lm w)
                      else snd (create_dir c' 0 0 dm w))"
      by (simp add: w1_def cu_def cg_def cm_def lastp_def)
    from create_dir_nf [OF "1.prems", of c' cu cg cm]
    have cd: "fs w1 = fs (make_dir (Call_create_dir c' cu cg cm) w)" "faults w1 = []"
      by (simp_all add: w1_def)
    then have f2: "faults w2 = []" "fs w2 = fs (make_dir (Call_create_dir c' cu cg cm) w)"
      by (simp_all add: w2_def)
    from "1.IH" [OF t s sep [symmetric] c'_def [unfolded c'_def] w1eq [unfolded c'_def]
        w2_def [unfolded c'_def]] f2(1)
    have ih: "fs (create_path_walk t' c' uid gid dm lm w2) =
                fs (make_dirs (expected_calls uid gid dm lm (walk_paths c' (tokens_left t'))) w2)"
      "faults (create_path_walk t' c' uid gid dm lm w2) = []"
      unfolding c'_def by simp_all
    have toks: "tokens_left t = d # tokens_left t'"
      using path_tokens_step [OF s sep] by (simp add: t tokens_left_def)
    have lastp: "lastp \<longleftrightarrow> tokens_left t' = []"
      by (simp add: lastp_def tokens_left_Nil)
    have ec: "expected_calls uid gid dm lm (walk_paths c (tokens_left t)) =
              Call_create_dir c' cu cg cm #
              expected_calls uid gid dm lm (walk_paths c' (tokens_left t'))"
      using lastp by (simp add: toks c'_def [symmetric] expected_calls_def cu_def cg_def cm_def)
    show ?thesis
      unfolding unfold ec using ih make_dirs_fs [OF f2(2)] by simp
  qed
qed

lemma create_path_fs:
  assumes "faults w = []" and "lookup w path = None"
  shows "fs (snd (create_path path user uid gid dm lm w)) =
           fs (make_dirs (expected_calls uid gid dm lm (walk_paths ''/'' (path_tokens path))) w)"
proof -
  let ?w0 = "pr_fs_clear_cache w"
  let ?w1 = "pr_log_debug DEBUG3 ''creating home directory'' path (emit (Ev_stat path) ?w0)"
  have s: "pr_fsio_stat path ?w0 = (Inl ENOENT, emit (Ev_stat path) ?w0)"
    using stat_nf [of ?w0 path] assms by simp
  have cp: "snd (create_path path user uid gid dm lm w) =
      pr_log_debug DEBUG3 ''home directory created'' path
        (create_path_walk (Some path) ''/'' uid gid dm lm ?w1)"
    by (simp add: create_path_def Let_def s)
  have "faults ?w1 = []" "fs ?w1 = fs w" using assms(1) by simp_all
  from walk_fs [OF this(1), of "Some path" "''/''" uid gid dm lm] make_dirs_fs [OF this(2)]
  show ?thesis
    unfolding cp by (simp add: tokens_left_def)
qed


lemma stat_nf_missing:
  assumes "faults w = []" and "fst (pr_fsio_stat path w) = Inl e"
  shows "lookup w path = None"
  using assms stat_nf [OF assms(1), of path] by (cases "lookup w path") simp_all

lemma tokens_home_alice: "walk_paths ''/'' (path_tokens ''/home/alice'') = [''/'', ''/home'', ''/home/alice'']"
  by (simp add: path_tokens_def pdircat_def)

text \<open>The calls of \<^verbatim>\<open>create_dir\<close> that \<^verbatim>\<open>create_path\<close> makes when the target path does
  not pass the existence check: one per piece that \<^verbatim>\<open>strsep\<close> cuts from the path, in order,
  every piece but the last with uid 0, gid 0 and the intermediate mode, the last piece with
  the caller's uid and gid and the leaf mode.  When no call is refused by the failure
  schedule, the file table afterwards is the one before with these calls applied, each to
  a directory that is still missing.\<close>

lemma create_path_calls:
  assumes "fst (pr_fsio_stat path w) = Inl e"
  shows "create_dir_calls (added w (snd (create_path path user uid gid dir_mode dst_mode w))) =
           map (\<lambda>p. Call_create_dir p 0 0 dir_mode) (butlast (walk_paths ''/'' (path_tokens path))) @
           (if path = [] then []
            else [Call_create_dir (last (walk_paths ''/'' (path_tokens path))) uid gid dst_mode]) \<and>
         (faults w = [] \<longrightarrow>
            fs (snd (create_path path user uid gid dir_mode dst_mode w)) =
            fs (make_dirs
                  (map (\<lambda>p. Call_create_dir p 0 0 dir_mode)
                     (butlast (walk_paths ''/'' (path_tokens path))) @
                   (if path = [] then []
                    else [Call_create_dir (last (walk_paths ''/'' (path_tokens path)))
                            uid gid dst_mode])) w))"
proof (intro conjI impI)
  from create_path_trace [OF assms, of user uid gid dir_mode dst_mode]
  obtain evs where "trace (snd (create_path path user uid gid dir_mode dst_mode w)) = trace w @ evs"
    "create_dir_calls evs = expected_calls uid gid dir_mode dst_mode (walk_paths ''/'' (path_tokens path))"
    by blast
  then show "create_dir_calls (added w (snd (create_path path user uid gid dir_mode dst_mode w))) =
           map (\<lambda>p. Call_create_dir p 0 0 dir_mode) (butlast (walk_paths ''/'' (path_tokens path))) @
           (if path = [] then []
            else [Call_create_dir (last (walk_paths ''/'' (path_tokens path))) uid gid dst_mode])"
    by (simp add: expected_calls_def)
next
  assume nf: "faults w = []"
  from create_path_fs [OF nf stat_nf_missing [OF nf assms], of user uid gid dir_mode dst_mode]
  show "fs (snd (create_path path user uid gid dir_mode dst_mode w)) =
            fs (make_dirs
                  (map (\<lambda>p. Call_create_dir p 0 0 dir_mode)
                     (butlast (walk_paths ''/'' (path_tokens path))) @
                   (if path = [] then []
                    else [Call_create_dir (last (walk_paths ''/'' (path_tokens path)))
                            uid gid dst_mode])) w)"
    by (simp add: expected_calls_def)
qed

lemma create_path_home_alice:
  "fst (pr_fsio_stat ''/home/alice'' w_root) = Inl ENOENT \<and> faults w_root = [] \<and>
   create_dir_calls (added w_root (snd (create_path ''/home/alice'' ''alice'' 1001 1001 0x1C9 0x1ED w_root))) =
     [Call_create_dir ''/'' 0 0 0x1C9, Call_create_dir ''/home'' 0 0 0x1C9,
      Call_create_dir ''/home/alice'' 1001 1001 0x1ED] \<and>
   fs (snd (create_path ''/home/alice'' ''alice'' 1001 1001 0x1C9 0x1ED w_root)) =
     [([], \<lparr>i_mode = 0x41ED, i_uid = 0, i_gid = 0, i_data = []\<rparr>),
      ([''home''], \<lparr>i_mode = 0x41C9, i_uid = 0, i_gid = 0, i_data = []\<rparr>),
      ([''home'', ''alice''], \<lparr>i_mode = 0x41ED, i_uid = 1001, i_gid = 1001, i_data = []\<rparr>)]"
proof -
  have h: "fst (pr_fsio_stat ''/home/alice'' w_root) = Inl ENOENT"
    by (simp add: pr_fsio_stat_def w_root_def next_fault_def emit_def lookup_def components_def)
  have nf: "faults w_root = []" by (simp add: w_root_def)
  have d: "fs (make_dirs [Call_create_dir ''/'' 0 0 0x1C9, Call_create_dir ''/home'' 0 0 0x1C9,
                          Call_create_dir ''/home/alice'' 1001 1001 0x1ED] w_root) =
     [([], \<lparr>i_mode = 0x41ED, i_uid = 0, i_gid = 0, i_data = []\<rparr>),
      ([''home''], \<lparr>i_mode = 0x41C9, i_uid = 0, i_gid = 0, i_data = []\<rparr>),
      ([''home'', ''alice''], \<lparr>i_mode = 0x41ED, i_uid = 1001, i_gid = 1001, i_data = []\<rparr>)]"
    by (simp add: lookup_def parent_ok_def put_def components_def w_root_def
        S_ISDIR_def S_IFMT_def S_IFDIR_def mkdir_mode_bits_def)
  show ?thesis
    using h nf d create_path_calls [OF h, of "''alice''" 1001 1001 "0x1C9" "0x1ED"]
    by (simp add: tokens_home_alice)
qed

text \<open>A final slash is seen by the test of line 100 (\<^verbatim>\<open>*tmppath == '\0'\<close>): the home
  directory is the last piece and gets the caller's uid, gid and the leaf mode.\<close>

lemma create_path_trailing_slash:
  "create_dir_calls (added w_root
       (snd (create_path ''/home/alice/'' ''alice'' 1001 1001 0x1C9 0x1ED w_root))) =
     [Call_create_dir ''/'' 0 0 0x1C9, Call_create_dir ''/home'' 0 0 0x1C9,
      Call_create_dir ''/home/alice'' 1001 1001 0x1ED] \<and>
   fs (snd (create_path ''/home/alice/'' ''alice'' 1001 1001 0x1C9 0x1ED w_root)) =
     [([], \<lparr>i_mode = 0x41ED, i_uid = 0, i_gid = 0, i_data = []\<rparr>),
      ([''home''], \<lparr>i_mode = 0x41C9, i_uid = 0, i_gid = 0, i_data = []\<rparr>),
      ([''home'', ''alice''], \<lparr>i_mode = 0x41ED, i_uid = 1001, i_gid = 1001, i_data = []\<rparr>)]"
proof -
  let ?path = "''/home/alice/''"
  have h: "fst (pr_fsio_stat ?path w_root) = Inl ENOENT"
    by (simp add: pr_fsio_stat_def w_root_def next_fault_def emit_def lookup_def components_def)
  have nf: "faults w_root = []" by (simp add: w_root_def)
  have t: "walk_paths ''/'' (path_tokens ?path) = [''/'', ''/home'', ''/home/alice'']"
    by (simp add: path_tokens_def pdircat_def)
  have ec: "expected_calls 1001 1001 0x1C9 0x1ED (walk_paths ''/'' (path_tokens ?path)) =
      [Call_create_dir ''/'' 0 0 0x1C9, Call_create_dir ''/home'' 0 0 0x1C9,
       Call_create_dir ''/home/alice'' 1001 1001 0x1ED]"
    by (simp add: t expected_calls_def)
  from create_path_trace [OF h, of "''alice''" 1001 1001 "0x1C9" "0x1ED"]
  have calls: "create_dir_calls (added w_root
       (snd (create_path ?path ''alice'' 1001 1001 0x1C9 0x1ED w_root))) =
     [Call_create_dir ''/'' 0 0 0x1C9, Call_create_dir ''/home'' 0 0 0x1C9,
      Call_create_dir ''/home/alice'' 1001 1001 0x1ED]"
    by (auto simp: ec)
  have d: "fs (make_dirs [Call_create_dir ''/'' 0 0 0x1C9, Call_create_dir ''/home'' 0 0 0x1C9,
                          Call_create_dir ''/home/alice'' 1001 1001 0x1ED] w_root) =
     [([], \<lparr>i_mode = 0x41ED, i_uid = 0, i_gid = 0, i_data = []\<rparr>),
      ([''home''], \<lparr>i_mode = 0x41C9, i_uid = 0, i_gid = 0, i_data = []\<rparr>),
      ([''home'', ''alice''], \<lparr>i_mode = 0x41ED, i_uid = 1001, i_gid = 1001, i_data = []\<rparr>)]"
    by (simp add: lookup_def parent_ok_def put_def components_def w_root_def
        S_ISDIR_def S_IFMT_def S_IFDIR_def mkdir_mode_bits_def)
  from create_path_fs [OF nf stat_nf_missing [OF nf h], of "''alice''" 1001 1001 "0x1C9" "0x1ED"]
  have "fs (snd (create_path ?path ''alice'' 1001 1001 0x1C9 0x1ED w_root)) =
     [([], \<lparr>i_mode = 0x41ED, i_uid = 0, i_gid = 0, i_data = []\<rparr>),
      ([''home''], \<lparr>i_mode = 0x41C9, i_uid = 0, i_gid = 0, i_data = []\<rparr>),
      ([''home'', ''alice''], \<lparr>i_mode = 0x41ED, i_uid = 1001, i_gid = 1001, i_data = []\<rparr>)]"
    unfolding ec d .
  with calls show ?thesis by (rule conjI)
qed

text \<open>
  Claim C1 (not met by the code).  On a machine with nothing but a root directory,
  \<^verbatim>\<open>create_path\<close> of \<^verbatim>\<open>/home/alice//\<close> for uid 1001, gid 1001, intermediate mode 0711 and
  leaf mode 0755: after the piece \<^verbatim>\<open>alice\<close> the rest of the path is \<^verbatim>\<open>/\<close>, not empty, so
  the home directory is created by the call for intermediate directories, with uid 0,
  gid 0 and mode 0711; the one call with the caller's uid, gid and the leaf mode comes
  for the empty piece after it, finds \<^verbatim>\<open>/home/alice/\<close> existing and changes nothing.  The
  home directory is left owned 0:0 with mode 0711.
\<close>

theorem create_path_doubled_slash:
  "create_dir_calls (added w_root
       (snd (create_path ''/home/alice//'' ''alice'' 1001 1001 0x1C9 0x1ED w_root))) =
     [Call_create_dir ''/'' 0 0 0x1C9, Call_create_dir ''/home'' 0 0 0x1C9,
      Call_create_dir ''/home/alice'' 0 0 0x1C9,
      Call_create_dir ''/home/alice/'' 1001 1001 0x1ED] \<and>
   fs (snd (create_path ''/home/alice//'' ''alice'' 1001 1001 0x1C9 0x1ED w_root)) =
     [([], \<lparr>i_mode = 0x41ED, i_uid = 0, i_gid = 0, i_data = []\<rparr>),
      ([''home''], \<lparr>i_mode = 0x41C9, i_uid = 0, i_gid = 0, i_data = []\<rparr>),
      ([''home'', ''alice''], \<lparr>i_mode = 0x41C9, i_uid = 0, i_gid = 0, i_data = []\<rparr>)]"
proof -
  let ?path = "''/home/alice//''"
  have h: "fst (pr_fsio_stat ?path w_root) = Inl ENOENT"
    by (simp add: pr_fsio_stat_def w_root_def next_fault_def emit_def lookup_def components_def)
  have nf: "faults w_root = []" by (simp add: w_root_def)
  have t: "walk_paths ''/'' (path_tokens ?path) =
             [''/'', ''/home'', ''/home/alice'', ''/home/alice/'']"
    by (simp add: path_tokens_def pdircat_def)
  from create_path_trace [OF h, of "''alice''" 1001 1001 "0x1C9" "0x1ED"]
  have calls: "create_dir_calls (added w_root
       (snd (create_path ?path ''alice'' 1001 1001 0x1C9 0x1ED w_root))) =
     [Call_create_dir ''/'' 0 0 0x1C9, Call_create_dir ''/home'' 0 0 0x1C9,
      Call_create_dir ''/home/alice'' 0 0 0x1C9,
      Call_create_dir ''/home/alice/'' 1001 1001 0x1ED]"
    by (auto simp: t expected_calls_def)
  have d: "fs (make_dirs [Call_create_dir ''/'' 0 0 0x1C9, Call_create_dir ''/home'' 0 0 0x1C9,
                          Call_create_dir ''/home/alice'' 0 0 0x1C9,
                          Call_create_dir ''/home/alice/'' 1001 1001 0x1ED] w_root) =
     [([], \<lparr>i_mode = 0x41ED, i_uid = 0, i_gid = 0, i_data = []\<rparr>),
      ([''home''], \<lparr>i_mode = 0x41C9, i_uid = 0, i_gid = 0, i_data = []\<rparr>),
      ([''home'', ''alice''], \<lparr>i_mode = 0x41C9, i_uid = 0, i_gid = 0, i_data = []\<rparr>)]"
    by (simp add: lookup_def parent_ok_def put_def components_def w_root_def
        S_ISDIR_def S_IFMT_def S_IFDIR_def mkdir_mode_bits_def)
  have ec: "expected_calls 1001 1001 0x1C9 0x1ED (walk_paths ''/'' (path_tokens ?path)) =
      [Call_create_dir ''/'' 0 0 0x1C9, Call_create_dir ''/home'' 0 0 0x1C9,
       Call_create_dir ''/home/alice'' 0 0 0x1C9,
       Call_create_dir ''/home/alice/'' 1001 1001 0x1ED]"
    by (simp add: t expected_calls_def)
  from create_path_fs [OF nf stat_nf_missing [OF nf h], of "''alice''" 1001 1001 "0x1C9" "0x1ED"]
  have "fs (snd (create_path ?path ''alice'' 1001 1001 0x1C9 0x1ED w_root)) =
     [([], \<lparr>i_mode = 0x41ED, i_uid = 0, i_gid = 0, i_data = []\<rparr>),
      ([''home''], \<lparr>i_mode = 0x41C9, i_uid = 0, i_gid = 0, i_data = []\<rparr>),
      ([''home'', ''alice''], \<lparr>i_mode = 0x41C9, i_uid = 0, i_gid = 0, i_data = []\<rparr>)]"
    unfolding ec d .
  with calls show ?thesis by (rule conjI)
qed

subsection \<open>Directories and existing destinations among the entries\<close>

lemma copy_dir_loop_directory:
  assumes "d_name \<noteq> ''.''" and "d_name \<noteq> ''..''"
    and "fst (pr_fsio_lstat (pdircat src_dir d_name) (pr_signals_handle w)) = Inr st"
    and "S_ISDIR (st_mode st)"
  shows "copy_dir_loop n (d_name # dh) src_dir dst_dir uid gid w =
           (case copy_dir n (pdircat src_dir d_name) (pdircat dst_dir d_name) uid gid
                   (snd (create_dir (pdircat dst_dir d_name) uid gid (st_mode st)
                           (snd (pr_fsio_lstat (pdircat src_dir d_name) (pr_signals_handle w))))) of
              None \<Rightarrow> None
            | Some (r, w') \<Rightarrow> copy_dir_loop n dh src_dir dst_dir uid gid w')"
proof -
  obtain w1 where l: "pr_fsio_lstat (pdircat src_dir d_name) (pr_signals_handle w) = (Inr st, w1)"
    using assms(3) by (cases "pr_fsio_lstat (pdircat src_dir d_name) (pr_signals_handle w)") simp
  show ?thesis using assms(1,2,4) by (simp add: Let_def l)
qed

lemma mkdir_ok:
  assumes "fst (pr_fsio_mkdir p m w) = 0"
  shows "\<exists>nd. lookup (snd (pr_fsio_mkdir p m w)) p = Some nd \<and>
           i_mode nd = S_IFDIR OR (m AND NOT (cur_umask w) AND mkdir_mode_bits) \<and> i_data nd = []"
proof -
  obtain f w1 where nf: "next_fault (emit (Ev_mkdir p m) w) = (f, w1)"
    by (cases "next_fault (emit (Ev_mkdir p m) w)")
  then have w1: "w1 = snd (next_fault (emit (Ev_mkdir p m) w))" by simp
  have um: "cur_umask w1 = cur_umask w" by (simp add: w1)
  from assms have "f = None" "lookup w1 p = None \<and> parent_ok w1 p"
    by (cases f; simp add: pr_fsio_mkdir_def nf split: if_splits)+
  then have "pr_fsio_mkdir p m w =
      (0, put p (new_inode w1 (S_IFDIR OR (m AND NOT (cur_umask w1) AND mkdir_mode_bits)) []) w1)"
    by (simp add: pr_fsio_mkdir_def nf)
  then show ?thesis by (simp add: lookup_put new_inode_def um)
qed

lemma chown_ok:
  assumes "fst (pr_fsio_chown p u g w) = 0" and "lookup w p = Some nd"
  shows "lookup (snd (pr_fsio_chown p u g w)) p = Some (nd\<lparr>i_uid := u, i_gid := g\<rparr>)"
proof -
  obtain f w1 where nf: "next_fault (emit (Ev_chown p u g) w) = (f, w1)"
    by (cases "next_fault (emit (Ev_chown p u g) w)")
  then have w1: "w1 = snd (next_fault (emit (Ev_chown p u g) w))" by simp
  have l: "lookup w1 p = Some nd" using assms(2) by (simp add: w1)
  from assms(1) have "f = None"
    by (cases f) (simp_all add: pr_fsio_chown_def nf)
  then have "pr_fsio_chown p u g w = (0, put p (nd\<lparr>i_uid := u, i_gid := g\<rparr>) w1)"
    by (simp add: pr_fsio_chown_def nf l)
  then show ?thesis by (simp add: lookup_put)
qed

lemma stat_missing: "lookup w p = None \<Longrightarrow> \<exists>e. fst (pr_fsio_stat p w) = Inl e"
  by (auto simp: pr_fsio_stat_def next_fault_def lookup_def split: list.splits option.splits)

lemma create_dir_created:
  assumes "lookup w dir = None" and "fst (create_dir dir uid gid mode w) = 0"
  shows "lookup (snd (create_dir dir uid gid mode w)) dir =
           Some \<lparr>i_mode = S_IFDIR OR (mode AND mkdir_mode_bits), i_uid = uid, i_gid = gid, i_data = []\<rparr>"
proof -
  from stat_missing [OF assms(1)] obtain e where e: "fst (pr_fsio_stat dir w) = Inl e" by blast
  have "e = ENOENT"
  proof (rule ccontr)
    assume "e \<noteq> ENOENT"
    with e assms(2) show False by (simp add: create_dir_cases(2))
  qed
  with e have en: "fst (pr_fsio_stat dir w) = Inl ENOENT" by simp
  let ?w1 = "snd (pr_fsio_stat dir (pr_fs_clear_cache (emit (Call_create_dir dir uid gid mode) w)))"
  let ?w2 = "snd (umask 0 ?w1)"
  let ?w3 = "snd (pr_fsio_mkdir dir mode ?w2)"
  let ?w4 = "snd (pr_fsio_chown dir uid gid ?w3)"
  from assms(2) have ok: "\<not> fst (pr_fsio_mkdir dir mode ?w2) < 0" "\<not> fst (pr_fsio_chown dir uid gid ?w3) < 0"
    by (simp_all add: create_dir_cases(3) [OF en] Let_def split: if_splits)
  have res: "snd (create_dir dir uid gid mode w) =
      pr_log_debug DEBUG6 ''CreateHome: directory created'' dir (snd (umask (cur_umask w) ?w4))"
    using ok by (simp add: create_dir_cases(3) [OF en] Let_def)
  have mk0: "fst (pr_fsio_mkdir dir mode ?w2) = 0"
    using ok(1) by (auto simp: pr_fsio_mkdir_def split: prod.splits option.splits if_splits)
  have ch0: "fst (pr_fsio_chown dir uid gid ?w3) = 0"
    using ok(2) by (auto simp: pr_fsio_chown_def split: prod.splits option.splits if_splits)
  from mkdir_ok [OF mk0] obtain nd where nd: "lookup ?w3 dir = Some nd"
    "i_mode nd = S_IFDIR OR (mode AND mkdir_mode_bits)" "i_data nd = []"
    by auto
  from chown_ok [OF ch0 nd(1)] nd(2,3) show ?thesis
    by (simp add: res)
qed

lemmas file_defs = pr_fsio_open_def pr_fsio_truncate_def pr_fsio_read_def pr_fsio_write_def
  pr_fsio_close_def pr_fsio_readlink_def pr_fsio_symlink_def closedir_def
  O_RDONLY_def O_WRONLY_def O_CREAT_def O_EXCL_def S_IFMT_def S_IFDIR_def S_IFREG_def S_IFLNK_def
  S_ISUID_def S_ISGID_def S_ISDIR_def S_ISREG_def S_ISLNK_def PR_TUNABLE_BUFFER_SIZE_def



lemma create_dir_mkdir_event:
  assumes "fst (pr_fsio_stat dir w) = Inl ENOENT"
  shows "Ev_mkdir dir mode \<in> set (added w (snd (create_dir dir uid gid mode w)))"
proof -
  have "\<exists>evs. trace (snd (create_dir dir uid gid mode w)) = trace w @ evs \<and> Ev_mkdir dir mode \<in> set evs"
    by (simp add: create_dir_cases(3) [OF assms] Let_def)
  then show ?thesis by auto
qed

subsection \<open>Symbolic links\<close>

lemma strncmp_short_aux: "length a < n \<Longrightarrow> n \<le> length b \<Longrightarrow> strncmp a b n \<noteq> 0"
  by (induction a b n rule: strncmp.induct) auto

lemma strncmp_short: "length a < length b \<Longrightarrow> strncmp a b (length b) \<noteq> 0"
  by (rule strncmp_short_aux) simp_all

lemma strncmp_prefix: "strncmp a b (length b) = 0 \<longleftrightarrow> take (length b) a = b"
proof -
  have "n \<le> length b \<Longrightarrow> strncmp a b n = 0 \<longleftrightarrow> take n a = take n b" for n
    by (induction a b n rule: strncmp.induct) auto
  from this [of "length b"] show ?thesis by simp
qed

lemma readlink_ok:
  assumes "\<not> fst (pr_fsio_readlink p n w) < 0" and "lookup w p = Some nd"
  shows "fst (snd (pr_fsio_readlink p n w)) = take n (i_data nd)"
    and "fst (pr_fsio_readlink p n w) = int (length (take n (i_data nd)))"
    and "fs (snd (snd (pr_fsio_readlink p n w))) = fs w"
proof -
  obtain f w1 where nf: "next_fault (emit (Ev_readlink p n) w) = (f, w1)"
    by (cases "next_fault (emit (Ev_readlink p n) w)")
  then have w1: "w1 = snd (next_fault (emit (Ev_readlink p n) w))" by simp
  have l: "lookup w1 p = Some nd" using assms(2) by (simp add: w1)
  from assms(1) have "f = None \<and> S_ISLNK (i_mode nd)"
    by (cases f) (simp_all add: pr_fsio_readlink_def nf l split: if_splits)
  then have "pr_fsio_readlink p n w = (int (length (take n (i_data nd))), take n (i_data nd), w1)"
    by (simp add: pr_fsio_readlink_def nf l)
  then show "fst (snd (pr_fsio_readlink p n w)) = take n (i_data nd)"
    and "fst (pr_fsio_readlink p n w) = int (length (take n (i_data nd)))"
    and "fs (snd (snd (pr_fsio_readlink p n w))) = fs w"
    by (simp_all add: w1)
qed

lemma symlink_ok:
  assumes "\<not> fst (pr_fsio_symlink t p w) < 0"
  shows "\<exists>nd. lookup (snd (pr_fsio_symlink t p w)) p = Some nd \<and> i_data nd = t"
proof -
  obtain f w1 where nf: "next_fault (emit (Ev_symlink t p) w) = (f, w1)"
    by (cases "next_fault (emit (Ev_symlink t p) w)")
  from assms have "f = None" "lookup w1 p = None \<and> parent_ok w1 p"
    by (cases f; simp add: pr_fsio_symlink_def nf split: if_splits)+
  then have "pr_fsio_symlink t p w = (0, put p (new_inode w1 (S_IFLNK OR 0x1FF) t) w1)"
    by (simp add: pr_fsio_symlink_def nf)
  then show ?thesis by (simp add: lookup_put new_inode_def)
qed

lemma chown_keeps_data:
  assumes "lookup w p = Some nd"
  shows "map_option i_data (lookup (snd (pr_fsio_chown q u g w)) p) = Some (i_data nd)"
proof -
  obtain f w1 where nf: "next_fault (emit (Ev_chown q u g) w) = (f, w1)"
    by (cases "next_fault (emit (Ev_chown q u g) w)")
  then have w1: "w1 = snd (next_fault (emit (Ev_chown q u g) w))" by simp
  have l: "lookup w1 p = Some nd" using assms by (simp add: w1)
  have same: "components p = components q \<Longrightarrow> lookup w1 q = lookup w1 p"
    by (simp add: lookup_def)
  show ?thesis
    using l same by (cases f; cases "lookup w1 q") (auto simp: pr_fsio_chown_def nf lookup_put)
qed

text \<open>What \<^verbatim>\<open>copy_symlink\<close> does with a skeleton root longer than the seven bytes it reads:
  the comparison with the root never succeeds, and the new link points at the first seven
  bytes of the old target.\<close>

lemma copy_symlink_long_root:
  assumes "sizeof_char_ptr - 1 < length src_dir"
    and "lookup w src_path = Some nd"
    and "fst (copy_symlink src_dir src_path dst_dir dst_path uid gid w) = 0"
  shows "map_option i_data
           (lookup (snd (copy_symlink src_dir src_path dst_dir dst_path uid gid w)) dst_path)
         = Some (take (sizeof_char_ptr - 1) (i_data nd))"
proof -
  define n where "n = sizeof_char_ptr - 1"
  define w0 where "w0 = emit (Call_copy_symlink src_dir src_path dst_dir dst_path uid gid) w"
  define t where "t = take n (i_data nd)"
  obtain len buf w1 where rl: "pr_fsio_readlink src_path n w0 = (len, buf, w1)"
    by (cases "pr_fsio_readlink src_path n w0") auto
  have cs: "copy_symlink src_dir src_path dst_dir dst_path uid gid w =
     (if len < 0
      then (- 1, pr_log_pri PR_LOG_WARNING ''CreateHome: error reading link'' src_path w1)
      else
        let link_path = take (nat len) buf;
            link_path =
              (if strncmp link_path src_dir (length src_dir) = 0
               then pdircat dst_dir (drop (length src_dir) link_path)
               else link_path)
        in case pr_fsio_symlink link_path dst_path w1 of
             (r, w) \<Rightarrow>
               if r < 0
               then (- 1, pr_log_pri PR_LOG_WARNING ''CreateHome: error symlinking'' dst_path w)
               else
                 (case pr_fsio_chown dst_path uid gid w of
                    (r, w) \<Rightarrow>
                      (0, if r < 0
                          then pr_log_pri PR_LOG_WARNING ''CreateHome: error chowning'' dst_path w
                          else w)))"
    using rl by (simp add: copy_symlink_def n_def w0_def)
  have l0: "lookup w0 src_path = Some nd" using assms(2) by (simp add: w0_def)
  have ok1: "\<not> len < 0"
    using assms(3) by (auto simp: cs split: if_splits)
  then have ok1': "\<not> fst (pr_fsio_readlink src_path n w0) < 0" by (simp add: rl)
  from readlink_ok [OF ok1' l0] have lb: "buf = t" "len = int (length t)"
    by (simp_all add: rl t_def)
  have link: "take (nat len) buf = t" by (simp add: lb)
  have "length t < length src_dir" using assms(1) by (simp add: t_def n_def)
  then have ncmp: "strncmp t src_dir (length src_dir) \<noteq> 0" by (rule strncmp_short)
  obtain r2 w2 where sl: "pr_fsio_symlink t dst_path w1 = (r2, w2)"
    by (cases "pr_fsio_symlink t dst_path w1")
  have ok2: "\<not> r2 < 0"
    using assms(3) ok1 ncmp by (auto simp: cs Let_def link sl split: if_splits)
  then have "\<not> fst (pr_fsio_symlink t dst_path w1) < 0" by (simp add: sl)
  from symlink_ok [OF this] obtain nd' where nd': "lookup w2 dst_path = Some nd'" "i_data nd' = t"
    by (auto simp: sl)
  have "snd (copy_symlink src_dir src_path dst_dir dst_path uid gid w) =
      (if fst (pr_fsio_chown dst_path uid gid w2) < 0
       then pr_log_pri PR_LOG_WARNING ''CreateHome: error chowning'' dst_path
              (snd (pr_fsio_chown dst_path uid gid w2))
       else snd (pr_fsio_chown dst_path uid gid w2))"
    using ok1 ok2 ncmp by (simp add: cs Let_def link sl case_prod_beta)
  then show ?thesis
    using chown_keeps_data [OF nd'(1), of dst_path uid gid] nd'(2)
    by (simp add: t_def n_def)
qed

text \<open>
  Claim C6 (not met by the code).  In a skeleton \<^verbatim>\<open>/etc/skel\<close> the link \<^verbatim>\<open>lnk\<close> points
  inside the skeleton, at \<^verbatim>\<open>/etc/skel/pub/readme\<close>, and the link \<^verbatim>\<open>out\<close> points outside, at
  \<^verbatim>\<open>/usr/share/doc\<close>.  Copied to \<^verbatim>\<open>/home/alice\<close>, both new links point at the first seven
  bytes of the old target: \<^verbatim>\<open>/etc/sk\<close>, not \<^verbatim>\<open>/home/alice/pub/readme\<close>, and
  \<^verbatim>\<open>/usr/sh\<close>, not \<^verbatim>\<open>/usr/share/doc\<close>.
\<close>

theorem copy_symlink_cuts_target:
  "map_option i_data (lookup w_skel ''/etc/skel/lnk'') = Some ''/etc/skel/pub/readme'' \<and>
   fst (copy_symlink ''/etc/skel'' ''/etc/skel/lnk'' ''/home/alice'' ''/home/alice/lnk''
          1001 1001 w_skel) = 0 \<and>
   map_option i_data
     (lookup (snd (copy_symlink ''/etc/skel'' ''/etc/skel/lnk'' ''/home/alice'' ''/home/alice/lnk''
                     1001 1001 w_skel)) ''/home/alice/lnk'') = Some ''/etc/sk'' \<and>
   map_option i_data (lookup w_skel ''/etc/skel/out'') = Some ''/usr/share/doc'' \<and>
   fst (copy_symlink ''/etc/skel'' ''/etc/skel/out'' ''/home/alice'' ''/home/alice/out''
          1001 1001 w_skel) = 0 \<and>
   map_option i_data
     (lookup (snd (copy_symlink ''/etc/skel'' ''/etc/skel/out'' ''/home/alice'' ''/home/alice/out''
                     1001 1001 w_skel)) ''/home/alice/out'') = Some ''/usr/sh''"
  by (simp add: copy_symlink_def prim_defs file_defs w_skel_def sizeof_char_ptr_def Let_def
      pdircat_def)

subsection \<open>Calls that leave the privileges alone\<close>

lemma quiet_refl [simp]: "quiet w w"
  by (simp add: quiet_def)

lemma quiet_trans: "quiet w w1 \<Longrightarrow> quiet w1 w2 \<Longrightarrow> quiet w w2"
  by (fastforce simp: quiet_def)

lemma quiet_prims [simp]:
  "quiet w (emit (Call_copy_file a b u g m) w)"
  "quiet w (emit (Call_copy_symlink a b c d u g) w)"
  "quiet w (pr_log_pri l ms x w)"
  "quiet w (pr_log_debug l ms x w)"
  "quiet w (pr_signals_handle w)"
  "quiet w (pr_fs_clear_cache w)"
  "quiet w (closedir w)"
  "quiet w (snd (pr_fsio_stat p w))"
  "quiet w (snd (pr_fsio_lstat p w))"
  "quiet w (snd (pr_fsio_chown p u g w))"
  "quiet w (snd (pr_fsio_chmod p m w))"
  "quiet w (snd (pr_fsio_open p fl w))"
  "quiet w (snd (pr_fsio_truncate p k w))"
  "quiet w (snd (snd (snd (pr_fsio_read fh k w))))"
  "quiet w (snd (pr_fsio_write fh bs w))"
  "quiet w (snd (pr_fsio_close fh w))"
  "quiet w (snd (snd (pr_fsio_readlink p k w)))"
  "quiet w (snd (pr_fsio_symlink t p w))"
  "quiet w (snd (opendir p w))"
  by (simp_all add: quiet_def)

lemma quiet_create_dir [simp]: "quiet w (snd (create_dir d u g m w))"
  using create_dir_trace [of d u g m w] by (auto simp: quiet_def)

lemma quiet_then: "quiet w1 w2 \<Longrightarrow> quiet w w1 \<Longrightarrow> quiet w w2"
  by (rule quiet_trans)

lemma quiet_copy_file_loop: "quiet w (copy_file_loop src_fh dst_fh dst w)"
proof (induction src_fh dst_fh dst w rule: copy_file_loop.induct)
  case (1 src_fh dst_fh dst w)
  obtain res buf fh' w1 where rd: "pr_fsio_read src_fh PR_TUNABLE_BUFFER_SIZE w = (res, buf, fh', w1)"
    by (cases "pr_fsio_read src_fh PR_TUNABLE_BUFFER_SIZE w") auto
  then have q1: "quiet w w1"
    using quiet_prims(14) [of w src_fh PR_TUNABLE_BUFFER_SIZE] by simp
  obtain wres w2 where wr: "pr_fsio_write dst_fh buf w1 = (wres, w2)"
    by (cases "pr_fsio_write dst_fh buf w1")
  then have q2: "quiet w1 w2"
    using quiet_prims(15) [of w1 dst_fh buf] by simp
  show ?case
  proof (cases "0 < res \<and> wres = res")
    case True
    from "1.IH" [of res "(buf, fh', w1)" buf "(fh', w1)" fh' w1 wres w2] True rd wr
    have "quiet (pr_signals_handle w2) (copy_file_loop fh' dst_fh dst (pr_signals_handle w2))"
      by simp
    with q1 q2 have "quiet w (copy_file_loop fh' dst_fh dst (pr_signals_handle w2))"
      by (meson quiet_trans quiet_prims(5))
    with True rd wr show ?thesis
      by (subst copy_file_loop.simps) simp
  next
    case False
    with rd wr q1 q2 show ?thesis
      by (subst copy_file_loop.simps) (auto intro: quiet_trans [OF _ quiet_prims(3)] quiet_trans)
  qed
qed

lemma quiet_copy_file [simp]: "quiet w (snd (copy_file src dst uid gid mode w))"
proof -
  let ?w0 = "emit (Call_copy_file src dst uid gid mode) w"
  obtain r1 w1 where o1: "pr_fsio_open src O_RDONLY ?w0 = (r1, w1)"
    by (cases "pr_fsio_open src O_RDONLY ?w0")
  have q1: "quiet w w1"
    using quiet_prims(12) [of ?w0 src O_RDONLY] o1 by (auto intro: quiet_trans [OF quiet_prims(1)])
  obtain r2 w2 where o2: "pr_fsio_open dst (O_WRONLY OR O_CREAT OR O_EXCL) w1 = (r2, w2)"
    by (cases "pr_fsio_open dst (O_WRONLY OR O_CREAT OR O_EXCL) w1")
  have q2: "quiet w w2"
    using quiet_prims(12) [of w1 dst "O_WRONLY OR O_CREAT OR O_EXCL"] o2 q1 by (auto intro: quiet_trans)
  show ?thesis
  proof (cases r1)
    case None
    with o1 q1 show ?thesis
      by (auto simp: copy_file_def Let_def intro: quiet_trans)
  next
    case (Some src_fh)
    show ?thesis
    proof (cases r2)
      case None
      with Some o1 o2 q2 show ?thesis
        by (auto simp: copy_file_def Let_def intro!: quiet_then [OF quiet_prims(16)] quiet_then [OF quiet_prims(4)])
    next
      case (Some dst_fh)
      let ?w3 = "snd (pr_fsio_truncate dst 0 w2)"
      let ?w4 = "copy_file_loop src_fh dst_fh dst ?w3"
      have q4: "quiet w ?w4"
        by (meson q2 quiet_trans quiet_prims(13) quiet_copy_file_loop)
      have tail: "quiet w0 (snd (copy_file src dst uid gid mode w))" if "quiet w0 ?w4" for w0
        using that \<open>r1 = Some src_fh\<close> Some o1 o2
        apply (simp add: copy_file_def Let_def case_prod_beta)
        apply (intro conjI impI quiet_then [OF quiet_prims(3)] quiet_then [OF quiet_prims(16)]
            quiet_then [OF quiet_prims(11)] quiet_then [OF quiet_prims(10)])
        apply assumption+
        done
      from tail [OF q4] show ?thesis .
    qed
  qed
qed

lemma quiet_copy_symlink [simp]:
  "quiet w (snd (copy_symlink src_dir src_path dst_dir dst_path uid gid w))"
  unfolding copy_symlink_def Let_def case_prod_beta
  by (auto intro!: quiet_then [OF quiet_prims(3)] quiet_then [OF quiet_prims(10)]
      quiet_then [OF quiet_prims(18)] quiet_then [OF quiet_prims(17)] quiet_prims(2))

lemma quiet_create_path [simp]: "quiet w (snd (create_path path user uid gid dm lm w))"
proof (cases "fst (pr_fsio_stat path w)")
  case (Inl e)
  from create_path_trace [OF this, of user uid gid dm lm] show ?thesis
    by (auto simp: quiet_def)
next
  case (Inr st)
  obtain r w1 where s: "pr_fsio_stat path (pr_fs_clear_cache w) = (r, w1)"
    by (cases "pr_fsio_stat path (pr_fs_clear_cache w)")
  with Inr have "r = Inr st" using stat_ghost(1) [of path w] by simp
  with s have "snd (create_path path user uid gid dm lm w) = snd (pr_fsio_stat path (pr_fs_clear_cache w))"
    by (simp add: create_path_def Let_def)
  then show ?thesis
    by (simp add: quiet_then [OF quiet_prims(8) quiet_prims(6)])
qed

lemma create_path_returns_zero: "fst (create_path path user uid gid dm lm w) = 0"
  by (simp add: create_path_def Let_def split: prod.splits sum.splits)

text \<open>One turn of the loop of \<^verbatim>\<open>copy_dir\<close>, by the kind of the entry.\<close>

lemma copy_dir_loop_dots:
  "d_name = ''.'' \<or> d_name = ''..'' \<Longrightarrow>
     copy_dir_loop n (d_name # dh) src_dir dst_dir uid gid w =
     copy_dir_loop n dh src_dir dst_dir uid gid (pr_signals_handle w)"
  by (simp add: Let_def)

lemma copy_dir_loop_unreadable:
  assumes "d_name \<noteq> ''.''" and "d_name \<noteq> ''..''"
    and "fst (pr_fsio_lstat (pdircat src_dir d_name) (pr_signals_handle w)) = Inl e"
  shows "copy_dir_loop n (d_name # dh) src_dir dst_dir uid gid w =
         copy_dir_loop n dh src_dir dst_dir uid gid
           (pr_log_debug DEBUG3 ''CreateHome: unable to stat, skipping'' (pdircat src_dir d_name)
              (snd (pr_fsio_lstat (pdircat src_dir d_name) (pr_signals_handle w))))"
proof -
  obtain w1 where l: "pr_fsio_lstat (pdircat src_dir d_name) (pr_signals_handle w) = (Inl e, w1)"
    using assms(3) by (cases "pr_fsio_lstat (pdircat src_dir d_name) (pr_signals_handle w)") simp
  show ?thesis using assms(1,2) by (simp add: Let_def l)
qed

lemma copy_dir_loop_symlink:
  assumes "d_name \<noteq> ''.''" and "d_name \<noteq> ''..''"
    and "fst (pr_fsio_lstat (pdircat src_dir d_name) (pr_signals_handle w)) = Inr st"
    and "S_ISLNK (st_mode st)"
  shows "copy_dir_loop n (d_name # dh) src_dir dst_dir uid gid w =
         copy_dir_loop n dh src_dir dst_dir uid gid
           (snd (copy_symlink src_dir (pdircat src_dir d_name) dst_dir (pdircat dst_dir d_name) uid gid
                   (snd (pr_fsio_lstat (pdircat src_dir d_name) (pr_signals_handle w)))))"
proof -
  obtain w1 where l: "pr_fsio_lstat (pdircat src_dir d_name) (pr_signals_handle w) = (Inr st, w1)"
    using assms(3) by (cases "pr_fsio_lstat (pdircat src_dir d_name) (pr_signals_handle w)") simp
  show ?thesis using assms(1,2,4) islnk_not_isdir [OF assms(4)] by (simp add: Let_def l)
qed

lemma copy_dir_loop_other:
  assumes "d_name \<noteq> ''.''" and "d_name \<noteq> ''..''"
    and "fst (pr_fsio_lstat (pdircat src_dir d_name) (pr_signals_handle w)) = Inr st"
    and "\<not> S_ISDIR (st_mode st)" and "\<not> S_ISREG (st_mode st)" and "\<not> S_ISLNK (st_mode st)"
  shows "copy_dir_loop n (d_name # dh) src_dir dst_dir uid gid w =
         copy_dir_loop n dh src_dir dst_dir uid gid
           (pr_log_debug DEBUG3 ''CreateHome: skipping skel file'' (pdircat src_dir d_name)
              (snd (pr_fsio_lstat (pdircat src_dir d_name) (pr_signals_handle w))))"
proof -
  obtain w1 where l: "pr_fsio_lstat (pdircat src_dir d_name) (pr_signals_handle w) = (Inr st, w1)"
    using assms(3) by (cases "pr_fsio_lstat (pdircat src_dir d_name) (pr_signals_handle w)") simp
  show ?thesis using assms(1,2,4,5,6) by (simp add: Let_def l)
qed

text \<open>Every turn either hands the rest of the list a world reached without a privilege
  switch, or is the descent into a subdirectory whose name is a real entry.\<close>

lemma copy_dir_loop_turn:
  "(\<exists>w1. quiet w w1 \<and>
      copy_dir_loop n (d_name # dh) src_dir dst_dir uid gid w =
      copy_dir_loop n dh src_dir dst_dir uid gid w1) \<or>
   (d_name \<noteq> ''.'' \<and> d_name \<noteq> ''..'' \<and>
    (\<exists>w1. quiet w w1 \<and>
      copy_dir_loop n (d_name # dh) src_dir dst_dir uid gid w =
      (case copy_dir n (pdircat src_dir d_name) (pdircat dst_dir d_name) uid gid w1 of
         None \<Rightarrow> None
       | Some (r, w') \<Rightarrow> copy_dir_loop n dh src_dir dst_dir uid gid w')))"
proof (cases "d_name = ''.'' \<or> d_name = ''..''")
  case True
  from copy_dir_loop_dots [OF True, of n dh src_dir dst_dir uid gid w] show ?thesis
    using quiet_prims(5) by blast
next
  case False
  then have d: "d_name \<noteq> ''.''" "d_name \<noteq> ''..''" by simp_all
  let ?ws = "pr_signals_handle w"
  let ?sp = "pdircat src_dir d_name"
  let ?w1 = "snd (pr_fsio_lstat ?sp ?ws)"
  have q1: "quiet w ?w1"
    by (rule quiet_then [OF quiet_prims(9) quiet_prims(5)])
  show ?thesis
  proof (cases "fst (pr_fsio_lstat ?sp ?ws)")
    case (Inl e)
    have "quiet w (pr_log_debug DEBUG3 ''CreateHome: unable to stat, skipping'' ?sp ?w1)"
      by (rule quiet_then [OF quiet_prims(4) q1])
    with copy_dir_loop_unreadable [OF d Inl, of n dh dst_dir uid gid] show ?thesis by blast
  next
    case (Inr st)
    consider (dir) "S_ISDIR (st_mode st)" | (reg) "S_ISREG (st_mode st)" | (lnk) "S_ISLNK (st_mode st)"
      | (other) "\<not> S_ISDIR (st_mode st)" "\<not> S_ISREG (st_mode st)" "\<not> S_ISLNK (st_mode st)"
      by blast
    then show ?thesis
    proof cases
      case dir
      have "quiet w (snd (create_dir (pdircat dst_dir d_name) uid gid (st_mode st) ?w1))"
        by (rule quiet_then [OF quiet_create_dir q1])
      with copy_dir_loop_directory [OF d Inr dir, of n dh dst_dir uid gid] d show ?thesis by blast
    next
      case reg
      have "quiet w (snd (copy_file ?sp (pdircat dst_dir d_name) uid gid
                             (st_mode st AND NOT (S_ISUID OR S_ISGID)) ?w1))"
        by (rule quiet_then [OF quiet_copy_file q1])
      with copy_dir_loop_regular [OF d Inr reg, of n dh dst_dir uid gid] show ?thesis by blast
    next
      case lnk
      have "quiet w (snd (copy_symlink src_dir ?sp dst_dir (pdircat dst_dir d_name) uid gid ?w1))"
        by (rule quiet_then [OF quiet_copy_symlink q1])
      with copy_dir_loop_symlink [OF d Inr lnk, of n dh dst_dir uid gid] show ?thesis by blast
    next
      case other
      have "quiet w (pr_log_debug DEBUG3 ''CreateHome: skipping skel file'' ?sp ?w1)"
        by (rule quiet_then [OF quiet_prims(4) q1])
      with copy_dir_loop_other [OF d Inr other, of n dh dst_dir uid gid] show ?thesis by blast
    qed
  qed
qed

lemma copy_dir_loop_quiet:
  assumes H: "\<And>src dst w r w'. copy_dir n src dst uid gid w = Some (r, w') \<Longrightarrow> quiet w w'"
  shows "copy_dir_loop n dh src_dir dst_dir uid gid w = Some (r, w') \<Longrightarrow> quiet w w'"
proof (induction dh arbitrary: w)
  case Nil
  then show ?case by auto
next
  case (Cons d_name dh)
  from copy_dir_loop_turn [of w n d_name dh src_dir dst_dir uid gid]
  consider (flat) w1 where "quiet w w1"
      "copy_dir_loop n (d_name # dh) src_dir dst_dir uid gid w =
       copy_dir_loop n dh src_dir dst_dir uid gid w1"
    | (descend) w1 where "quiet w w1"
      "copy_dir_loop n (d_name # dh) src_dir dst_dir uid gid w =
       (case copy_dir n (pdircat src_dir d_name) (pdircat dst_dir d_name) uid gid w1 of
          None \<Rightarrow> None
        | Some (r, w') \<Rightarrow> copy_dir_loop n dh src_dir dst_dir uid gid w')"
    by blast
  then show ?case
  proof cases
    case flat
    with Cons.prems have "copy_dir_loop n dh src_dir dst_dir uid gid w1 = Some (r, w')" by simp
    from Cons.IH [OF this] flat(1) show ?thesis by (rule quiet_then)
  next
    case descend
    with Cons.prems obtain r2 w2 where
      c: "copy_dir n (pdircat src_dir d_name) (pdircat dst_dir d_name) uid gid w1 = Some (r2, w2)"
      and l: "copy_dir_loop n dh src_dir dst_dir uid gid w2 = Some (r, w')"
      by (auto split: option.splits)
    from Cons.IH [OF l] quiet_then [OF H [OF c] descend(1)] show ?thesis by (rule quiet_then)
  qed
qed

lemma copy_dir_quiet:
  "copy_dir n src_dir dst_dir uid gid w = Some (r, w') \<Longrightarrow> quiet w w'"
proof (induction n arbitrary: src_dir dst_dir w r w')
  case 0
  then show ?case by simp
next
  case (Suc n)
  obtain od w1 where o: "opendir src_dir w = (od, w1)" by (cases "opendir src_dir w")
  then have q1: "quiet w w1" using quiet_prims(19) [of w src_dir] by simp
  show ?case
  proof (cases od)
    case None
    with Suc.prems o have "w' = pr_log_pri PR_LOG_WARNING ''CreateHome: error copying skel files'' src_dir w1"
      by simp
    with q1 show ?thesis by (simp add: quiet_then [OF quiet_prims(3)])
  next
    case (Some dh)
    with Suc.prems o have "copy_dir_loop n dh src_dir dst_dir uid gid w1 = Some (r, w')" by simp
    from copy_dir_loop_quiet [OF Suc.IH this] q1 show ?thesis by (rule quiet_then)
  qed
qed

subsection \<open>Termination of the skeleton copy\<close>

lemma opendir_ok:
  assumes "opendir p w = (Some dh, w1)"
  shows "length p < PATH_MAX" and "list_all dent_ok dh"
proof -
  obtain f w0 where nf: "next_fault (emit (Ev_opendir p) w) = (f, w0)"
    by (cases "next_fault (emit (Ev_opendir p) w)")
  from assms show "length p < PATH_MAX"
    by (cases f) (auto simp: opendir_def nf split: if_splits option.splits)
  from assms have "dh = ''.'' # ''..'' # children w0 p"
    by (cases f) (auto simp: opendir_def nf split: if_splits option.splits)
  then show "list_all dent_ok dh"
    by (auto simp: dent_ok_def children_def list_all_iff)
qed

lemma pdircat_longer: "valid_name d \<Longrightarrow> length a < length (pdircat a d)"
  by (cases d) (auto simp: pdircat_def valid_name_def)

lemma copy_dir_loop_total:
  assumes H: "\<And>src dst w. length src_dir < length src \<Longrightarrow> copy_dir n src dst uid gid w \<noteq> None"
  shows "list_all dent_ok dh \<Longrightarrow> copy_dir_loop n dh src_dir dst_dir uid gid w \<noteq> None"
proof (induction dh arbitrary: w)
  case Nil
  then show ?case by simp
next
  case (Cons d_name dh)
  then have ok: "dent_ok d_name" and rest: "list_all dent_ok dh" by simp_all
  from copy_dir_loop_turn [of w n d_name dh src_dir dst_dir uid gid]
  consider (flat) w1 where
      "copy_dir_loop n (d_name # dh) src_dir dst_dir uid gid w =
       copy_dir_loop n dh src_dir dst_dir uid gid w1"
    | (descend) w1 where "d_name \<noteq> ''.''" "d_name \<noteq> ''..''"
      "copy_dir_loop n (d_name # dh) src_dir dst_dir uid gid w =
       (case copy_dir n (pdircat src_dir d_name) (pdircat dst_dir d_name) uid gid w1 of
          None \<Rightarrow> None
        | Some (r, w') \<Rightarrow> copy_dir_loop n dh src_dir dst_dir uid gid w')"
    by blast
  then show ?case
  proof cases
    case flat
    with Cons.IH [OF rest] show ?thesis by simp
  next
    case descend
    with ok have "valid_name d_name" by (simp add: dent_ok_def)
    then have "length src_dir < length (pdircat src_dir d_name)" by (rule pdircat_longer)
    from H [OF this] obtain r2 w2 where
      "copy_dir n (pdircat src_dir d_name) (pdircat dst_dir d_name) uid gid w1 = Some (r2, w2)"
      by (metis not_None_eq prod.collapse)
    with descend(3) Cons.IH [OF rest] show ?thesis by simp
  qed
qed

text \<open>Fuel beyond the longest path the kernel accepts is always enough: each level of
  the descent makes the source path longer, and \<^verbatim>\<open>opendir\<close> refuses a path of
  \<open>PATH_MAX\<close> bytes.\<close>

lemma copy_dir_total:
  "0 < n \<Longrightarrow> PATH_MAX < length src_dir + n \<Longrightarrow> copy_dir n src_dir dst_dir uid gid w \<noteq> None"
proof (induction n arbitrary: src_dir dst_dir w)
  case 0
  then show ?case by simp
next
  case (Suc n)
  obtain od w1 where o: "opendir src_dir w = (od, w1)" by (cases "opendir src_dir w")
  show ?case
  proof (cases od)
    case None
    with o show ?thesis by simp
  next
    case (Some dh)
    from opendir_ok [OF o [unfolded Some]] have len: "length src_dir < PATH_MAX"
      and ok: "list_all dent_ok dh" by simp_all
    have "copy_dir n src dst uid gid w0 \<noteq> None" if "length src_dir < length src" for src dst w0
      using that len Suc.prems by (intro Suc.IH) simp_all
    from copy_dir_loop_total [OF this ok] o Some show ?thesis by simp
  qed
qed

subsection \<open>Regular files and directories among the entries\<close>

lemma copy_file_trace_head:
  "\<exists>evs. trace (snd (copy_file src dst uid gid mode w)) =
           trace w @ Call_copy_file src dst uid gid mode # evs"
proof -
  let ?w0 = "emit (Call_copy_file src dst uid gid mode) w"
  obtain r1 w1 where o1: "pr_fsio_open src O_RDONLY ?w0 = (r1, w1)"
    by (cases "pr_fsio_open src O_RDONLY ?w0")
  have q1: "quiet ?w0 w1"
    using quiet_prims(12) [of ?w0 src O_RDONLY] o1 by simp
  obtain r2 w2 where o2: "pr_fsio_open dst (O_WRONLY OR O_CREAT OR O_EXCL) w1 = (r2, w2)"
    by (cases "pr_fsio_open dst (O_WRONLY OR O_CREAT OR O_EXCL) w1")
  have q2: "quiet ?w0 w2"
    using quiet_prims(12) [of w1 dst "O_WRONLY OR O_CREAT OR O_EXCL"] o2 q1 by (auto intro: quiet_trans)
  have body: "quiet ?w0 (snd (copy_file src dst uid gid mode w))"
  proof (cases r1)
    case None
    with o1 q1 show ?thesis
      by (auto simp: copy_file_def Let_def intro: quiet_trans)
  next
    case (Some src_fh)
    show ?thesis
    proof (cases r2)
      case None
      with Some o1 o2 q2 show ?thesis
        by (auto simp: copy_file_def Let_def intro!: quiet_then [OF quiet_prims(16)] quiet_then [OF quiet_prims(4)])
    next
      case (Some dst_fh)
      let ?w3 = "snd (pr_fsio_truncate dst 0 w2)"
      let ?w4 = "copy_file_loop src_fh dst_fh dst ?w3"
      have q4: "quiet ?w0 ?w4"
        by (meson q2 quiet_trans quiet_prims(13) quiet_copy_file_loop)
      have tail: "quiet w0 (snd (copy_file src dst uid gid mode w))" if "quiet w0 ?w4" for w0
        using that \<open>r1 = Some src_fh\<close> Some o1 o2
        apply (simp add: copy_file_def Let_def case_prod_beta)
        apply (intro conjI impI quiet_then [OF quiet_prims(3)] quiet_then [OF quiet_prims(16)]
            quiet_then [OF quiet_prims(11)] quiet_then [OF quiet_prims(10)])
        apply assumption+
        done
      from tail [OF q4] show ?thesis .
    qed
  qed
  then show ?thesis by (auto simp: quiet_def)
qed

lemma copy_dir_loop_returns:
  assumes "0 < n" and "PATH_MAX \<le> length src_dir + n" and "list_all dent_ok dh"
  shows "\<exists>r w' evs. copy_dir_loop n dh src_dir dst_dir uid gid w = Some (r, w') \<and>
           trace w' = trace w @ evs"
proof -
  have "copy_dir_loop n dh src_dir dst_dir uid gid w \<noteq> None"
  proof (rule copy_dir_loop_total [OF _ assms(3)])
    fix src dst :: string and w0 :: world
    assume "length src_dir < length src"
    with assms(2) have "PATH_MAX < length src + n" by simp
    from copy_dir_total [OF assms(1) this] show "copy_dir n src dst uid gid w0 \<noteq> None" .
  qed
  then obtain r w' where run: "copy_dir_loop n dh src_dir dst_dir uid gid w = Some (r, w')"
    by auto
  have "quiet w w'"
    by (rule copy_dir_loop_quiet [OF _ run]) (rule copy_dir_quiet)
  with run show ?thesis by (auto simp: quiet_def)
qed


lemma opendir_nf:
  assumes "faults w = []" and "lookup w p = Some n" and "S_ISDIR (i_mode n)"
    and "length p < PATH_MAX"
  shows "opendir p w = (Some (''.'' # ''..'' # children w p), emit (Ev_opendir p) w)"
proof -
  have "children (emit (Ev_opendir p) w) p = children w p" by (simp add: children_def)
  with assms show ?thesis by (simp add: opendir_def next_fault_none)
qed

lemma copy_dir_loop_dot:
  "copy_dir_loop k (''.'' # dh) a b u g x = copy_dir_loop k dh a b u g (pr_signals_handle x)"
  "copy_dir_loop k (''..'' # dh) a b u g x = copy_dir_loop k dh a b u g (pr_signals_handle x)"
  by (rule copy_dir_loop_dots, simp)+

text \<open>
  Claim C3.  For a skeleton entry that the non-following lookup classifies as a regular
  file, the loop of \<^verbatim>\<open>copy_dir\<close> returns, and what it adds to the trace starts with the
  lookup and the call of \<^verbatim>\<open>copy_file\<close> for this entry: the mode passed is the source's
  mode in which the set-user-id and set-group-id bits are cleared and every other bit is
  as in the source.  The loop then goes on with the remaining entries.  Whenever that call
  of \<^verbatim>\<open>copy_file\<close> returns 0, the destination exists afterwards and carries neither
  set-id bit, whichever calls failed on the way.
\<close>

theorem copy_dir_regular_file_mode:
  assumes "d_name \<noteq> ''.''" and "d_name \<noteq> ''..''"
    and "fst (pr_fsio_lstat (pdircat src_dir d_name) (pr_signals_handle w)) = Inr st"
    and "S_ISREG (st_mode st)"
    and "0 < n" and "PATH_MAX \<le> length src_dir + n" and "list_all dent_ok (d_name # dh)"
  shows "(\<exists>r w' evs.
            copy_dir_loop n (d_name # dh) src_dir dst_dir uid gid w = Some (r, w') \<and>
            trace w' = trace w @
              [Ev_signals, Ev_lstat (pdircat src_dir d_name),
               Call_copy_file (pdircat src_dir d_name) (pdircat dst_dir d_name) uid gid
                 (st_mode st AND NOT (S_ISUID OR S_ISGID))] @ evs) \<and>
         copy_dir_loop n (d_name # dh) src_dir dst_dir uid gid w =
           copy_dir_loop n dh src_dir dst_dir uid gid
             (snd (copy_file (pdircat src_dir d_name) (pdircat dst_dir d_name) uid gid
                     (st_mode st AND NOT (S_ISUID OR S_ISGID))
                     (snd (pr_fsio_lstat (pdircat src_dir d_name) (pr_signals_handle w))))) \<and>
         (st_mode st AND NOT (S_ISUID OR S_ISGID)) AND S_ISUID = 0 \<and>
         (st_mode st AND NOT (S_ISUID OR S_ISGID)) AND S_ISGID = 0 \<and>
         (\<forall>i. bit (st_mode st AND NOT (S_ISUID OR S_ISGID)) i =
                (bit (st_mode st) i \<and> \<not> bit S_ISUID i \<and> \<not> bit S_ISGID i)) \<and>
         (fst (copy_file (pdircat src_dir d_name) (pdircat dst_dir d_name) uid gid
                 (st_mode st AND NOT (S_ISUID OR S_ISGID))
                 (snd (pr_fsio_lstat (pdircat src_dir d_name) (pr_signals_handle w)))) = 0 \<longrightarrow>
          (\<exists>nd. lookup (snd (copy_file (pdircat src_dir d_name) (pdircat dst_dir d_name) uid gid
                                (st_mode st AND NOT (S_ISUID OR S_ISGID))
                                (snd (pr_fsio_lstat (pdircat src_dir d_name) (pr_signals_handle w)))))
                   (pdircat dst_dir d_name) = Some nd \<and>
                i_mode nd AND (S_ISUID OR S_ISGID) = 0))"
proof (intro conjI impI)
  let ?sp = "pdircat src_dir d_name"
  let ?dp = "pdircat dst_dir d_name"
  let ?m = "st_mode st AND NOT (S_ISUID OR S_ISGID)"
  let ?w1 = "snd (pr_fsio_lstat ?sp (pr_signals_handle w))"
  let ?w2 = "snd (copy_file ?sp ?dp uid gid ?m ?w1)"
  have step: "copy_dir_loop n (d_name # dh) src_dir dst_dir uid gid w =
           copy_dir_loop n dh src_dir dst_dir uid gid ?w2"
    by (rule copy_dir_loop_regular [OF assms(1-4)])
  then show "copy_dir_loop n (d_name # dh) src_dir dst_dir uid gid w =
           copy_dir_loop n dh src_dir dst_dir uid gid ?w2" .
  from assms(7) have rest: "list_all dent_ok dh" by simp
  from copy_dir_loop_returns [OF assms(5,6) rest, of dst_dir uid gid ?w2]
  obtain r w' evs2 where run: "copy_dir_loop n dh src_dir dst_dir uid gid ?w2 = Some (r, w')"
    and t2: "trace w' = trace ?w2 @ evs2"
    by blast
  from copy_file_trace_head [of ?sp ?dp uid gid ?m ?w1]
  obtain evs1 where t1: "trace ?w2 = trace ?w1 @ Call_copy_file ?sp ?dp uid gid ?m # evs1"
    by blast
  have t0: "trace ?w1 = trace w @ [Ev_signals, Ev_lstat ?sp]"
    by (simp add: pr_signals_handle_def)
  have "trace w' = trace w @ [Ev_signals, Ev_lstat ?sp, Call_copy_file ?sp ?dp uid gid ?m] @
          (evs1 @ evs2)"
    by (simp only: t2 t1 t0) simp
  with run step
  show "\<exists>r w' evs.
            copy_dir_loop n (d_name # dh) src_dir dst_dir uid gid w = Some (r, w') \<and>
            trace w' = trace w @ [Ev_signals, Ev_lstat ?sp, Call_copy_file ?sp ?dp uid gid ?m] @ evs"
    by (simp only:) blast
  show "?m AND S_ISUID = 0"
    by (auto simp: bit_eq_iff bit_simps)
  show "?m AND S_ISGID = 0"
    by (auto simp: bit_eq_iff bit_simps)
  show "\<forall>i. bit ?m i = (bit (st_mode st) i \<and> \<not> bit S_ISUID i \<and> \<not> bit S_ISGID i)"
    by (auto simp: bit_simps dest: bit_imp_le_length)
  have clean: "?m AND (S_ISUID OR S_ISGID) = 0"
    by (auto simp: bit_eq_iff bit_simps)
  assume "fst (copy_file ?sp ?dp uid gid ?m ?w1) = 0"
  from copy_file_plain [OF this clean]
  show "\<exists>nd. lookup ?w2 ?dp = Some nd \<and> i_mode nd AND (S_ISUID OR S_ISGID) = 0"
    by (simp add: plain_at_def split: option.splits)
qed



theorem copy_dir_regular_file_mode_witness:
  "fst (pr_fsio_lstat (pdircat ''/skel'' ''run'')
          (pr_signals_handle
             (pr_signals_handle (pr_signals_handle (emit (Ev_opendir ''/skel'') w_suid)))))
     = Inr \<lparr>st_mode = 0x8DED, st_uid = 0, st_gid = 0\<rparr> \<and>
   S_ISREG 0x8DED \<and> (0 :: nat) < 4095 \<and> PATH_MAX \<le> length ''/skel'' + 4095 \<and>
   list_all dent_ok [''run''] \<and>
   copy_dir (Suc 4095) ''/skel'' ''/home/bob'' 1002 1002 w_suid =
     copy_dir_loop 4095 [''run''] ''/skel'' ''/home/bob'' 1002 1002
       (pr_signals_handle (pr_signals_handle (emit (Ev_opendir ''/skel'') w_suid))) \<and>
   returned (copy_dir (Suc 4095) ''/skel'' ''/home/bob'' 1002 1002 w_suid) = Some 0 \<and>
   Call_copy_file ''/skel/run'' ''/home/bob/run'' 1002 1002 0x81ED
     \<in> set (final_trace (copy_dir (Suc 4095) ''/skel'' ''/home/bob'' 1002 1002 w_suid)) \<and>
   final_lookup (copy_dir (Suc 4095) ''/skel'' ''/home/bob'' 1002 1002 w_suid) ''/home/bob/run'' =
     Some \<lparr>i_mode = 0x81ED, i_uid = 1002, i_gid = 1002, i_data = ''date''\<rparr>"
proof -
  let ?W = "pr_signals_handle (pr_signals_handle (emit (Ev_opendir ''/skel'') w_suid))"
  let ?w1 = "snd (pr_fsio_lstat ''/skel/run'' (pr_signals_handle ?W))"
  let ?w2 = "snd (copy_file ''/skel/run'' ''/home/bob/run'' 1002 1002 0x81ED ?w1)"
  let ?run = "copy_dir (Suc 4095) ''/skel'' ''/home/bob'' 1002 1002 w_suid"
  have p: "pdircat ''/skel'' ''run'' = ''/skel/run''"
    "pdircat ''/home/bob'' ''run'' = ''/home/bob/run''"
    by (simp_all add: pdircat_def)
  have h: "fst (pr_fsio_lstat (pdircat ''/skel'' ''run'') (pr_signals_handle ?W))
     = Inr \<lparr>st_mode = 0x8DED, st_uid = 0, st_gid = 0\<rparr>"
    by (simp add: p prim_defs w_suid_def)
  have r: "S_ISREG (st_mode \<lparr>st_mode = 0x8DED, st_uid = 0, st_gid = 0\<rparr>)"
    by (simp add: S_ISREG_def S_IFMT_def S_IFREG_def)
  have n: "(0 :: nat) < 4095" "PATH_MAX \<le> length ''/skel'' + 4095"
    by (simp_all add: PATH_MAX_def)
  have d: "list_all dent_ok [''run'']"
    by (simp add: dent_ok_def valid_name_def)
  have m: "(0x8DED :: mode_t) AND NOT (S_ISUID OR S_ISGID) = 0x81ED"
    by (simp add: S_ISUID_def S_ISGID_def)
  have od: "opendir ''/skel'' w_suid = (Some [''.'', ''..'', ''run''], emit (Ev_opendir ''/skel'') w_suid)"
    using opendir_nf [of w_suid "''/skel''" "\<lparr>i_mode = 0x41ED, i_uid = 0, i_gid = 0, i_data = []\<rparr>"]
    by (simp add: w_suid_def lookup_def components_def children_def valid_name_def PATH_MAX_def
        S_ISDIR_def S_IFMT_def S_IFDIR_def)
  have start: "?run = copy_dir_loop 4095 [''run''] ''/skel'' ''/home/bob'' 1002 1002 ?W"
    by (simp only: copy_dir.simps od prod.case option.case
        copy_dir_loop_dots [of "''.''", OF disjI1 [OF refl]]
        copy_dir_loop_dots [of "''..''", OF disjI2 [OF refl]])
  have ne: "''run'' \<noteq> ''.''" "''run'' \<noteq> ''..''" by simp_all
  note inst = copy_dir_regular_file_mode [OF ne h r n d, of "''/home/bob''" 1002 1002,
      unfolded p stat.simps m]
  from inst [THEN conjunct1]
  obtain c w' evs where run: "copy_dir_loop 4095 [''run''] ''/skel'' ''/home/bob'' 1002 1002 ?W = Some (c, w')"
    and tr: "trace w' = trace ?W @
              [Ev_signals, Ev_lstat ''/skel/run'',
               Call_copy_file ''/skel/run'' ''/home/bob/run'' 1002 1002 0x81ED] @ evs"
    by blast
  from inst [THEN conjunct2, THEN conjunct1]
  have eq: "copy_dir_loop 4095 [''run''] ''/skel'' ''/home/bob'' 1002 1002 ?W =
             copy_dir_loop 4095 [] ''/skel'' ''/home/bob'' 1002 1002 ?w2" .
  from run eq have res: "c = 0" "w' = closedir ?w2" by simp_all
  have pre: "faults ?w1 = []"
    "lookup ?w1 ''/skel/run'' = Some \<lparr>i_mode = 0x8DED, i_uid = 0, i_gid = 0, i_data = ''date''\<rparr>"
    "lookup ?w1 ''/home/bob/run'' = None"
    "parent_ok ?w1 ''/home/bob/run''"
    by (simp_all add: prim_defs w_suid_def S_ISDIR_def S_IFMT_def S_IFDIR_def)
  have lk: "lookup ?w2 ''/home/bob/run'' =
     Some \<lparr>i_mode = 0x81ED, i_uid = 1002, i_gid = 1002, i_data = ''date''\<rparr>"
    using copy_file_copies [OF pre, where uid = 1002 and gid = 1002 and mode = "0x81ED"]
    by (simp add: lookup_def map_of_store S_IFREG_def)
  have "returned ?run = Some 0"
    by (simp only: start run res returned_def) simp
  moreover have "Call_copy_file ''/skel/run'' ''/home/bob/run'' 1002 1002 0x81ED
     \<in> set (final_trace ?run)"
    by (simp only: start run final_trace_def option.case prod.case tr) simp
  moreover have "final_lookup ?run ''/home/bob/run'' =
     Some \<lparr>i_mode = 0x81ED, i_uid = 1002, i_gid = 1002, i_data = ''date''\<rparr>"
    using lk by (simp only: start run res final_lookup_def option.case prod.case)
      (simp add: closedir_def)
  ultimately show ?thesis
    using h r n d start by (simp only: simp_thms stat.simps)
qed

lemma mkdir_bits_no_setid:
  "(S_IFDIR OR (m AND mkdir_mode_bits)) AND (S_ISUID OR S_ISGID) = (0 :: mode_t)"
proof -
  have "(m AND mkdir_mode_bits) AND (S_ISUID OR S_ISGID) =
          m AND (mkdir_mode_bits AND (S_ISUID OR S_ISGID))"
    by (simp add: ac_simps)
  also have "\<dots> = 0" by (simp add: mkdir_mode_bits_def S_ISUID_def S_ISGID_def)
  finally show ?thesis
    by (simp add: bit.conj_disj_distrib2 S_IFDIR_def S_ISUID_def S_ISGID_def del: bit.de_Morgan_disj)
qed




subsection \<open>The entry point\<close>

text \<open>The shape of every run of \<^verbatim>\<open>create_home\<close> with the directive switched on.\<close>

lemma create_home_rest_returns:
  assumes "PATH_MAX < fuel"
  shows "\<exists>w2. quiet w1 w2 \<and>
           create_home_rest fuel c home uid gid (r, w1) =
             Some (if r < 0 then - 1 else 0, PRIVS_RELINQUISH w2)"
proof (cases "r < 0")
  case True
  then have "create_home_rest fuel c home uid gid (r, w1) = Some (- 1, PRIVS_RELINQUISH w1)"
    by (simp add: create_home_rest_def)
  with True show ?thesis by (intro exI [of _ w1]) simp
next
  case False
  show ?thesis
  proof (cases "argv3 c")
    case None
    with False have "create_home_rest fuel c home uid gid (r, w1) = Some (0, PRIVS_RELINQUISH w1)"
      by (simp add: create_home_rest_def)
    with False show ?thesis by (intro exI [of _ w1]) simp
  next
    case (Some skel_dir)
    let ?w2 = "pr_log_debug DEBUG4 ''CreateHome: copying skel files'' skel_dir w1"
    have q2: "quiet w1 ?w2" by (rule quiet_prims(4))
    from assms have "0 < fuel" "PATH_MAX < length skel_dir + fuel" by simp_all
    from copy_dir_total [OF this, of home uid gid ?w2] obtain r3 w3
      where cd: "copy_dir fuel skel_dir home uid gid ?w2 = Some (r3, w3)"
      by (metis not_None_eq prod.collapse)
    have q3: "quiet w1 w3" by (rule quiet_then [OF copy_dir_quiet [OF cd] q2])
    let ?w4 = "if r3 < 0 then pr_log_debug DEBUG4 ''CreateHome: error copying skel files'' skel_dir w3 else w3"
    have q4: "quiet w1 ?w4" using q3 by (simp add: quiet_then [OF quiet_prims(4)])
    from False Some cd
    have "create_home_rest fuel c home uid gid (r, w1) = Some (0, PRIVS_RELINQUISH ?w4)"
      by (simp add: create_home_rest_def)
    with q4 False show ?thesis by (intro exI [of _ ?w4]) simp
  qed
qed

lemma create_home_enabled:
  assumes "argv0 c \<noteq> 0" and "PATH_MAX < fuel"
  shows "\<exists>w1. quiet (PRIVS_ROOT w) w1 \<and>
           create_home fuel (Some c) home user uid gid w = Some (0, PRIVS_RELINQUISH w1)"
proof -
  let ?w0 = "PRIVS_ROOT w"
  obtain r w1 where cp: "create_path home user uid gid (argv2 c) (argv1 c) ?w0 = (r, w1)"
    by (cases "create_path home user uid gid (argv2 c) (argv1 c) ?w0")
  have r: "r = 0" using create_path_returns_zero [of home user uid gid "argv2 c" "argv1 c" ?w0] cp by simp
  have q1: "quiet ?w0 w1" using quiet_create_path [of ?w0 home user uid gid "argv2 c" "argv1 c"] cp by simp
  from create_home_rest_returns [OF assms(2), of w1 c home uid gid r] r
  obtain w2 where w2: "quiet w1 w2"
    "create_home_rest fuel c home uid gid (r, w1) = Some (0, PRIVS_RELINQUISH w2)"
    by auto
  have "quiet ?w0 w2" by (rule quiet_trans [OF q1 w2(1)])
  moreover have "create_home fuel (Some c) home user uid gid w = Some (0, PRIVS_RELINQUISH w2)"
    using assms(1) cp w2(2) by (simp add: create_home_def)
  ultimately show ?thesis by blast
qed

text \<open>
  Claim C2.  Every call of \<^verbatim>\<open>create_home\<close> that enters the privileged region returns, and
  what it adds to the trace is the elevation, then calls none of which touches the
  privileges, then the release as the last call before the return: the region is
  relinquished exactly once, and the process is not elevated when the function returns.
  The same holds of each return taken by itself: whatever \<^verbatim>\<open>create_path\<close> hands back,
  a failure (the return of line 286) or a success (the return of line 303), the rest of
  the function ends with the one release.
\<close>

theorem create_home_privs_bracket:
  assumes "argv0 c \<noteq> 0" and "PATH_MAX < fuel"
  shows "(\<exists>r w' evs. create_home fuel (Some c) home user uid gid w = Some (r, w') \<and>
           trace w' = trace w @ Ev_privs_root # evs @ [Ev_privs_relinquish] \<and>
           privs_free evs \<and> \<not> elevated w') \<and>
         (\<exists>w' evs. create_home_rest fuel c home uid gid (r1, w1) =
                      Some (if r1 < 0 then - 1 else 0, w') \<and>
           trace w' = trace w1 @ evs @ [Ev_privs_relinquish] \<and>
           privs_free evs \<and> \<not> elevated w')"
proof (intro conjI)
  from create_home_enabled [OF assms, of w home user uid gid]
  obtain w2 where q: "quiet (PRIVS_ROOT w) w2"
    and res: "create_home fuel (Some c) home user uid gid w = Some (0, PRIVS_RELINQUISH w2)"
    by blast
  from q obtain evs where evs: "trace w2 = trace (PRIVS_ROOT w) @ evs" "privs_free evs"
    by (auto simp: quiet_def)
  have "trace (PRIVS_RELINQUISH w2) = trace w @ Ev_privs_root # evs @ [Ev_privs_relinquish]"
    using evs(1) by (simp add: PRIVS_RELINQUISH_def PRIVS_ROOT_def)
  moreover have "\<not> elevated (PRIVS_RELINQUISH w2)"
    by (simp add: PRIVS_RELINQUISH_def)
  ultimately show "\<exists>r w' evs. create_home fuel (Some c) home user uid gid w = Some (r, w') \<and>
           trace w' = trace w @ Ev_privs_root # evs @ [Ev_privs_relinquish] \<and>
           privs_free evs \<and> \<not> elevated w'"
    using res evs(2) by blast
next
  from create_home_rest_returns [OF assms(2), of w1 c home uid gid r1]
  obtain w2 where q: "quiet w1 w2"
    and res: "create_home_rest fuel c home uid gid (r1, w1) =
                Some (if r1 < 0 then - 1 else 0, PRIVS_RELINQUISH w2)"
    by blast
  from q obtain evs where evs: "trace w2 = trace w1 @ evs" "privs_free evs"
    by (auto simp: quiet_def)
  have "trace (PRIVS_RELINQUISH w2) = trace w1 @ evs @ [Ev_privs_relinquish]"
    using evs(1) by (simp add: PRIVS_RELINQUISH_def)
  moreover have "\<not> elevated (PRIVS_RELINQUISH w2)"
    by (simp add: PRIVS_RELINQUISH_def)
  ultimately show "\<exists>w' evs. create_home_rest fuel c home uid gid (r1, w1) =
                      Some (if r1 < 0 then - 1 else 0, w') \<and>
           trace w' = trace w1 @ evs @ [Ev_privs_relinquish] \<and>
           privs_free evs \<and> \<not> elevated w'"
    using res evs(2) by blast
qed

theorem create_home_privs_bracket_witness:
  "argv0 cfg_skel \<noteq> 0 \<and> PATH_MAX < 5000 \<and>
   (\<exists>r w' evs. create_home 5000 (Some cfg_skel) ''/home/alice'' ''alice'' 1001 1001 w_skel = Some (r, w') \<and>
      trace w' = trace w_skel @ Ev_privs_root # evs @ [Ev_privs_relinquish] \<and>
      privs_free evs \<and> \<not> elevated w') \<and>
   (\<exists>w' evs. create_home_rest 5000 cfg_skel ''/home/alice'' 1001 1001 (- 1, PRIVS_ROOT w_skel) =
                Some (- 1, w') \<and>
      trace w' = [Ev_privs_root] @ evs @ [Ev_privs_relinquish] \<and>
      privs_free evs \<and> \<not> elevated w')"
proof -
  have a: "argv0 cfg_skel \<noteq> 0" by (simp add: cfg_skel_def)
  have f: "PATH_MAX < 5000" by (simp add: PATH_MAX_def)
  have t: "trace (PRIVS_ROOT w_skel) = [Ev_privs_root]"
    by (simp add: PRIVS_ROOT_def w_skel_def)
  from a f t
    create_home_privs_bracket [OF a f, of "''/home/alice''" "''alice''" 1001 1001 w_skel
      "- 1" "PRIVS_ROOT w_skel"]
  show ?thesis by simp
qed

text \<open>
  Claim C9.  \<^verbatim>\<open>create_path\<close> returns 0 on every input, so the failure branch of
  \<^verbatim>\<open>create_home\<close> is never taken: with the directive switched on, every call of
  \<^verbatim>\<open>create_home\<close> returns, and returns 0, whatever the file table holds and whichever
  calls fail.
\<close>

theorem create_home_never_fails:
  assumes "argv0 c \<noteq> 0" and "PATH_MAX < fuel"
  shows "fst (create_path home user uid gid (argv2 c) (argv1 c) (PRIVS_ROOT w)) = 0 \<and>
         (\<exists>w'. create_home fuel (Some c) home user uid gid w = Some (0, w'))"
  using create_home_enabled [OF assms, of w home user uid gid]
    create_path_returns_zero [of home user uid gid "argv2 c" "argv1 c" "PRIVS_ROOT w"]
  by blast

theorem create_home_never_fails_witness:
  "argv0 cfg_skel \<noteq> 0 \<and> PATH_MAX < 5000 \<and>
   fst (create_path ''/srv/ftp'' ''bob'' 1002 1002 0x1C9 0x1ED (PRIVS_ROOT w_faulty)) = 0 \<and>
   (\<exists>w'. create_home 5000 (Some cfg_skel) ''/srv/ftp'' ''bob'' 1002 1002 w_faulty = Some (0, w'))"
proof -
  have a: "argv0 cfg_skel \<noteq> 0" by (simp add: cfg_skel_def)
  have f: "PATH_MAX < 5000" by (simp add: PATH_MAX_def)
  from a f create_home_never_fails [OF a f, of "''/srv/ftp''" "''bob''" 1002 1002 w_faulty]
  show ?thesis by (simp add: cfg_skel_def)
qed

end
